(* ===== verification/Prelude.thy ===== *)
theory Prelude
  imports Main "HOL-Library.Char_ord" "HOL-Library.List_Lexorder" "HOL-Library.Sublist"
    "HOL-Library.Multiset"
begin

text \<open>
  Shared vocabulary of the development. Go strings are byte strings and are modelled by
  \<^typ>\<open>string\<close>, a list of 8-bit characters; \<open><\<close> on them is the lexicographic
  byte order that Go's \<^verbatim>\<open><\<close> and \<^verbatim>\<open>sort.Strings\<close> use. The theory models the
  functions of Go's \<^verbatim>\<open>strings\<close>, \<^verbatim>\<open>strconv\<close>, \<^verbatim>\<open>sort\<close> and \<^verbatim>\<open>unicode/utf8\<close>
  packages that the program calls, with the laws the component proofs use.

  \<^verbatim>\<open>strings.ToLower\<close> is modelled on ASCII bytes only: bytes from 0x80 up are left unchanged.
\<close>

named_theorems go_simps \<open>equations of the modelled Go library functions\<close>

named_theorems codec_simps \<open>encoder and decoder equations\<close>

type_synonym ('e, 'a) result = "'e + 'a"

section \<open>Results\<close>

definition bind_res :: "('e, 'a) result \<Rightarrow> ('a \<Rightarrow> ('e, 'b) result) \<Rightarrow> ('e, 'b) result" where
  "bind_res r f = (case r of Inl e \<Rightarrow> Inl e | Inr a \<Rightarrow> f a)"

lemma bind_res_simps [simp]:
  "bind_res (Inl e) f = Inl e"
  "bind_res (Inr a) f = f a"
  by (simp_all add: bind_res_def)

lemma bind_res_eq_Inr_iff: "bind_res r f = Inr b \<longleftrightarrow> (\<exists>a. r = Inr a \<and> f a = Inr b)"
  by (cases r) auto

lemma bind_res_cong [fundef_cong]:
  "r = s \<Longrightarrow> (\<And>a. s = Inr a \<Longrightarrow> f a = g a) \<Longrightarrow> bind_res r f = bind_res s g"
  by (cases s) auto

section \<open>Characters and decimal numbers\<close>

abbreviation byte :: "char \<Rightarrow> nat" where
  "byte c \<equiv> of_char c"

definition is_digit :: "char \<Rightarrow> bool" where
  "is_digit c \<longleftrightarrow> 48 \<le> byte c \<and> byte c \<le> 57"

definition digit_char :: "nat \<Rightarrow> char" where
  "digit_char d = ''0123456789'' ! d"

definition digit_val :: "char \<Rightarrow> nat" where
  "digit_val c = byte c - 48"

lemma less10_cases:
  "d < 10 \<Longrightarrow> d = 0 \<or> d = 1 \<or> d = 2 \<or> d = 3 \<or> d = 4 \<or> d = 5 \<or> d = 6 \<or> d = 7 \<or> d = 8 \<or> d = (9::nat)"
  by arith

lemma digit_char_props:
  assumes "d < 10"
  shows is_digit_digit_char: "is_digit (digit_char d)"
    and digit_val_digit_char: "digit_val (digit_char d) = d"
  using less10_cases [OF assms]
  by (auto simp: is_digit_def digit_char_def digit_val_def)

lemma is_digit_char_cases: "is_digit c \<Longrightarrow> c \<in> set ''0123456789''"
proof -
  have "\<forall>c. is_digit c \<longrightarrow> c \<in> set ''0123456789''"
    by code_simp
  then show "is_digit c \<Longrightarrow> c \<in> set ''0123456789''" by blast
qed

lemma digit_char_digit_val: "is_digit c \<Longrightarrow> digit_char (digit_val c) = c"
  by (drule is_digit_char_cases) (auto simp: digit_char_def digit_val_def)

lemma digit_val_less10: "is_digit c \<Longrightarrow> digit_val c < 10"
  by (drule is_digit_char_cases) (auto simp: digit_val_def)

fun dec :: "nat \<Rightarrow> string" where
  "dec n = (if n < 10 then [digit_char n] else dec (n div 10) @ [digit_char (n mod 10)])"

declare dec.simps [simp del]

definition undec :: "string \<Rightarrow> nat" where
  "undec s = foldl (\<lambda>n c. 10 * n + digit_val c) 0 s"

lemma undec_snoc [simp]: "undec (s @ [c]) = 10 * undec s + digit_val c"
  by (simp add: undec_def)

lemma undec_Nil [simp]: "undec [] = 0"
  by (simp add: undec_def)

lemma foldl_undec: "foldl (\<lambda>n c. 10 * n + digit_val c) a s = a * 10 ^ length s + undec s"
proof (induction s rule: rev_induct)
  case Nil
  then show ?case by simp
next
  case (snoc c s)
  then show ?case by (simp add: algebra_simps)
qed

lemma undec_Cons: "undec (c # s) = digit_val c * 10 ^ length s + undec s"
  using foldl_undec [of "digit_val c" s] by (simp add: undec_def)

lemma undec_append: "undec (s @ t) = undec s * 10 ^ length t + undec t"
proof -
  have "undec (s @ t) = foldl (\<lambda>n c. 10 * n + digit_val c) (undec s) t"
    by (simp add: undec_def)
  then show ?thesis by (simp add: foldl_undec)
qed

lemma undec_dec [simp]: "undec (dec n) = n"
proof (induction n rule: dec.induct)
  case (1 n)
  show ?case
  proof (cases "n < 10")
    case True
    then show ?thesis
      by (simp add: dec.simps [of n] undec_def digit_val_digit_char)
  next
    case False
    with 1 have "undec (dec (n div 10)) = n div 10" by simp
    with False show ?thesis
      by (subst dec.simps) (simp add: digit_val_digit_char)
  qed
qed

lemma dec_digits: "list_all is_digit (dec n)"
proof (induction n rule: dec.induct)
  case (1 n)
  then show ?case
    by (cases "n < 10") (auto simp: dec.simps [of n] is_digit_digit_char)
qed

lemma dec_nonempty [simp]: "dec n \<noteq> []"
  by (subst dec.simps) simp

lemma dec_inject [simp]: "dec m = dec n \<longleftrightarrow> m = n"
  by (metis undec_dec)

text \<open>A decimal rendering has no leading zero, except for zero itself.\<close>

lemma dec_no_leading_zero: "0 < n \<Longrightarrow> hd (dec n) \<noteq> CHR ''0''"
proof (induction n rule: dec.induct)
  case (1 n)
  show ?case
  proof (cases "n < 10")
    case True
    with "1.prems" less10_cases [OF True] show ?thesis
      by (auto simp: dec.simps [of n] digit_char_def)
  next
    case False
    then have "hd (dec (n div 10)) \<noteq> CHR ''0''" using "1.IH" by simp
    with False show ?thesis by (subst dec.simps) (simp add: hd_append)
  qed
qed

lemma dec_0 [simp]: "dec 0 = ''0''"
  by (simp add: dec.simps digit_char_def)

lemma length_dec_le: "n < 10 ^ k \<Longrightarrow> 0 < k \<Longrightarrow> length (dec n) \<le> k"
proof (induction k arbitrary: n)
  case 0
  then show ?case by simp
next
  case (Suc k)
  show ?case
  proof (cases "n < 10")
    case True
    then show ?thesis by (simp add: dec.simps [of n])
  next
    case False
    with Suc.prems have k: "0 < k" by (cases k) auto
    from Suc.prems have "n div 10 < 10 ^ k" by (simp add: div_less_iff_less_mult)
    from Suc.IH [OF this k] False show ?thesis by (simp add: dec.simps [of n])
  qed
qed

text \<open>\<^verbatim>\<open>strconv.Itoa\<close> and the \<^verbatim>\<open>%d\<close> verb on a signed integer.\<close>

definition itoa :: "int \<Rightarrow> string" where
  "itoa i = (if i < 0 then CHR ''-'' # dec (nat (- i)) else dec (nat i))"

lemma dec_not_minus: "hd (dec n) \<noteq> CHR ''-''"
proof -
  have "is_digit (hd (dec n))"
    using dec_digits [of n] dec_nonempty [of n] by (cases "dec n") auto
  then show ?thesis by (auto simp: is_digit_def)
qed

lemma itoa_inject [simp]: "itoa i = itoa j \<longleftrightarrow> i = j"
proof -
  have *: "CHR ''-'' # s \<noteq> dec n" for s n
    using dec_not_minus [of n] by (metis list.sel(1))
  show ?thesis
    by (auto simp: itoa_def * * [THEN not_sym] split: if_splits)
qed

section \<open>White space and case\<close>

text \<open>
  The UTF-8 encodings of the code points for which \<^verbatim>\<open>unicode.IsSpace\<close> holds; the encodings
  are prefix-free, so trimming byte by byte or rune by rune is the same.
\<close>

definition space_runes :: "string list" where
  "space_runes =
    [[CHR 0x09], [CHR 0x0A], [CHR 0x0B], [CHR 0x0C], [CHR 0x0D], [CHR 0x20],
     [CHR 0xC2, CHR 0x85], [CHR 0xC2, CHR 0xA0], [CHR 0xE1, CHR 0x9A, CHR 0x80],
     [CHR 0xE2, CHR 0x80, CHR 0x80], [CHR 0xE2, CHR 0x80, CHR 0x81], [CHR 0xE2, CHR 0x80, CHR 0x82],
     [CHR 0xE2, CHR 0x80, CHR 0x83], [CHR 0xE2, CHR 0x80, CHR 0x84], [CHR 0xE2, CHR 0x80, CHR 0x85],
     [CHR 0xE2, CHR 0x80, CHR 0x86], [CHR 0xE2, CHR 0x80, CHR 0x87], [CHR 0xE2, CHR 0x80, CHR 0x88],
     [CHR 0xE2, CHR 0x80, CHR 0x89], [CHR 0xE2, CHR 0x80, CHR 0x8A], [CHR 0xE2, CHR 0x80, CHR 0xA8],
     [CHR 0xE2, CHR 0x80, CHR 0xA9], [CHR 0xE2, CHR 0x80, CHR 0xAF], [CHR 0xE2, CHR 0x81, CHR 0x9F],
     [CHR 0xE3, CHR 0x80, CHR 0x80]]"

function trim_left :: "string list \<Rightarrow> string \<Rightarrow> string" where
  "trim_left rs s =
    (case find (\<lambda>r. r \<noteq> [] \<and> prefix r s) rs of
       None \<Rightarrow> s
     | Some r \<Rightarrow> trim_left rs (drop (length r) s))"
  by pat_completeness auto
termination
  by (relation "measure (\<lambda>(rs, s). length s)") (auto simp: find_Some_iff prefix_def)

declare trim_left.simps [simp del]

definition trim_space :: "string \<Rightarrow> string" where
  "trim_space s = rev (trim_left (map rev space_runes) (rev (trim_left space_runes s)))"

lemma trim_left_id: "(\<And>r. r \<in> set rs \<Longrightarrow> r \<noteq> [] \<Longrightarrow> \<not> prefix r s) \<Longrightarrow> trim_left rs s = s"
  by (subst trim_left.simps) (auto simp: find_Some_iff split: option.splits)

lemma trim_left_Nil [simp]: "trim_left rs [] = []"
  by (rule trim_left_id) auto

lemma trim_left_no_prefix: "r \<in> set rs \<Longrightarrow> r \<noteq> [] \<Longrightarrow> \<not> prefix r (trim_left rs s)"
proof (induction rs s rule: trim_left.induct)
  case (1 rs s)
  show ?case
  proof (cases "find (\<lambda>r. r \<noteq> [] \<and> prefix r s) rs")
    case None
    then have "trim_left rs s = s" by (subst trim_left.simps) simp
    with None "1.prems" show ?thesis by (auto simp: find_None_iff)
  next
    case (Some r')
    with 1 show ?thesis by (subst trim_left.simps) simp
  qed
qed

lemma trim_left_suffix: "suffix (trim_left rs s) s"
proof (induction rs s rule: trim_left.induct)
  case (1 rs s)
  then show ?case
    by (subst trim_left.simps)
      (auto split: option.splits intro: suffix_order.trans suffix_drop)
qed

lemma trim_space_Nil [simp]: "trim_space [] = []"
  by (simp add: trim_space_def)

lemma suffix_rev_prefix: "suffix t s \<Longrightarrow> prefix (rev t) (rev s)"
  by (auto simp: suffix_def prefix_def)

lemma trim_space_idem [simp]: "trim_space (trim_space s) = trim_space s"
proof -
  let ?u = "trim_left space_runes s"
  let ?v = "trim_left (map rev space_runes) (rev ?u)"
  have "suffix ?v (rev ?u)" by (rule trim_left_suffix)
  then have pre: "prefix (rev ?v) ?u" using suffix_rev_prefix by fastforce
  have "\<not> prefix r (rev ?v)" if "r \<in> set space_runes" "r \<noteq> []" for r
    using trim_left_no_prefix [OF that] pre prefix_order.trans by blast
  then have "trim_left space_runes (rev ?v) = rev ?v" by (intro trim_left_id) auto
  moreover have "trim_left (map rev space_runes) ?v = ?v"
    by (rule trim_left_id) (rule trim_left_no_prefix)
  ultimately show ?thesis by (simp add: trim_space_def)
qed

text \<open>A string whose first and last bytes are printable ASCII is not changed by trimming.\<close>

definition solid :: "char \<Rightarrow> bool" where
  "solid c \<longleftrightarrow> 32 < byte c \<and> byte c < 128"

lemma solid_no_space_rune:
  assumes "r \<in> set space_runes"
  shows "\<not> solid (hd r)" "\<not> solid (last r)" "r \<noteq> []"
  using assms by (auto simp: space_runes_def solid_def)

lemma prefix_hd: "prefix r s \<Longrightarrow> r \<noteq> [] \<Longrightarrow> hd r = hd s"
  by (auto simp: prefix_def)

lemma trim_space_solid:
  assumes "s \<noteq> []" "solid (hd s)" "solid (last s)"
  shows "trim_space s = s"
proof -
  have "trim_left space_runes s = s"
  proof (rule trim_left_id)
    fix r assume r: "r \<in> set space_runes" "r \<noteq> []"
    then show "\<not> prefix r s"
      using solid_no_space_rune(1) [OF r(1)] prefix_hd [of r s] assms by auto
  qed
  moreover have "trim_left (map rev space_runes) (rev s) = rev s"
  proof (rule trim_left_id)
    fix r assume "r \<in> set (map rev space_runes)" "r \<noteq> []"
    then obtain t where t: "t \<in> set space_runes" "r = rev t" by auto
    then show "\<not> prefix r (rev s)"
      using solid_no_space_rune(2,3) [OF t(1)] prefix_hd [of "rev t" "rev s"] assms
      by (auto simp: hd_rev)
  qed
  ultimately show ?thesis by (simp add: trim_space_def)
qed

definition lower_char :: "char \<Rightarrow> char" where
  "lower_char c = (if 65 \<le> byte c \<and> byte c \<le> 90 then char_of (byte c + 32) else c)"

definition to_lower :: "string \<Rightarrow> string" where
  "to_lower s = map lower_char s"

lemma lower_char_idem [simp]: "lower_char (lower_char c) = lower_char c"
  by (auto simp: lower_char_def)

lemma to_lower_idem [simp]: "to_lower (to_lower s) = to_lower s"
  by (simp add: to_lower_def)

lemma to_lower_Nil [simp]: "to_lower [] = []"
  by (simp add: to_lower_def)

section \<open>Splitting and searching\<close>

text \<open>\<^verbatim>\<open>strings.SplitN(s, sep, 2)\<close> for a one-byte separator: \<^const>\<open>None\<close> when there is no
  separator (a slice of length one), the two parts otherwise.\<close>

fun split2 :: "char \<Rightarrow> string \<Rightarrow> (string \<times> string) option" where
  "split2 sep [] = None"
| "split2 sep (c # cs) =
    (if c = sep then Some ([], cs)
     else map_option (\<lambda>(a, b). (c # a, b)) (split2 sep cs))"

lemma split2_Some: "split2 sep s = Some (a, b) \<longleftrightarrow> s = a @ sep # b \<and> sep \<notin> set a"
proof (induction s arbitrary: a)
  case Nil
  then show ?case by simp
next
  case (Cons c cs)
  then show ?case by (cases a) auto
qed

lemma split2_None: "split2 sep s = None \<longleftrightarrow> sep \<notin> set s"
  by (induction s) auto

text \<open>\<^verbatim>\<open>strings.Split(s, sep)\<close> for a one-byte separator.\<close>

fun split_on :: "char \<Rightarrow> string \<Rightarrow> string list" where
  "split_on sep [] = [[]]"
| "split_on sep (c # cs) =
    (if c = sep then [] # split_on sep cs
     else (case split_on sep cs of [] \<Rightarrow> [[c]] | w # ws \<Rightarrow> (c # w) # ws))"

lemma split_on_nonempty [simp]: "split_on sep s \<noteq> []"
  by (induction s) (auto split: list.splits)

lemma split_on_no_sep: "sep \<notin> set s \<Longrightarrow> split_on sep s = [s]"
  by (induction s) auto

lemma split_on_append:
  "sep \<notin> set s \<Longrightarrow> split_on sep (s @ sep # t) = s # split_on sep t"
  by (induction s) auto

text \<open>\<^verbatim>\<open>strings.Index(s, pat)\<close> as an option, and \<^verbatim>\<open>strings.Contains\<close>.\<close>

fun index_of :: "string \<Rightarrow> string \<Rightarrow> nat option" where
  "index_of pat [] = (if pat = [] then Some 0 else None)"
| "index_of pat (c # cs) =
    (if prefix pat (c # cs) then Some 0 else map_option Suc (index_of pat cs))"

definition contains_str :: "string \<Rightarrow> string \<Rightarrow> bool" where
  "contains_str s pat \<longleftrightarrow> index_of pat s \<noteq> None"

lemma index_of_Some:
  "index_of pat s = Some i \<Longrightarrow> i \<le> length s \<and> s = take i s @ pat @ drop (i + length pat) s"
proof (induction s arbitrary: i)
  case Nil
  then show ?case by (auto split: if_splits)
next
  case (Cons c cs)
  show ?case
  proof (cases "prefix pat (c # cs)")
    case True
    with Cons.prems show ?thesis by (auto simp: prefix_def)
  next
    case False
    with Cons show ?thesis by auto
  qed
qed

lemma index_of_Some_le: "index_of pat s = Some i \<Longrightarrow> i + length pat \<le> length s"
proof -
  assume "index_of pat s = Some i"
  from index_of_Some [OF this] have i: "i \<le> length s"
    and s: "s = take i s @ pat @ drop (i + length pat) s" by blast+
  from s have "length s = i + length pat + (length s - (i + length pat))"
    using i by (metis length_append length_drop length_take min.absorb2 add.assoc)
  then show ?thesis by linarith
qed

lemma contains_str_iff: "contains_str s pat \<longleftrightarrow> (\<exists>a b. s = a @ pat @ b)"
proof
  assume "contains_str s pat"
  then show "\<exists>a b. s = a @ pat @ b"
    unfolding contains_str_def using index_of_Some by blast
next
  assume "\<exists>a b. s = a @ pat @ b"
  then obtain a b where "s = a @ pat @ b" by blast
  then have "index_of pat s \<noteq> None"
  proof (induction a arbitrary: s)
    case Nil
    then have "prefix pat s" by simp
    then show ?case by (cases s) auto
  next
    case (Cons x a)
    then show ?case by auto
  qed
  then show "contains_str s pat" by (simp add: contains_str_def)
qed

section \<open>Sorting and duplicates\<close>

text \<open>The loop of \<^verbatim>\<open>dedupe\<close>-like functions: keep the first occurrence of each element.\<close>

fun dedup_from :: "'a list \<Rightarrow> 'a list \<Rightarrow> 'a list" where
  "dedup_from seen [] = []"
| "dedup_from seen (x # xs) =
    (if x \<in> set seen then dedup_from seen xs else x # dedup_from (x # seen) xs)"

lemma set_dedup_from: "set (dedup_from seen xs) = set xs - set seen"
  by (induction seen xs rule: dedup_from.induct) auto

lemma distinct_dedup_from: "distinct (dedup_from seen xs)"
  by (induction seen xs rule: dedup_from.induct) (auto simp: set_dedup_from)

lemma dedup_from_id: "distinct xs \<Longrightarrow> set xs \<inter> set seen = {} \<Longrightarrow> dedup_from seen xs = xs"
  by (induction seen xs rule: dedup_from.induct) auto

lemma sort_distinct_unique:
  "sorted xs \<Longrightarrow> sorted ys \<Longrightarrow> distinct xs \<Longrightarrow> distinct ys \<Longrightarrow> set xs = set ys \<Longrightarrow> xs = (ys :: 'a :: linorder list)"
  by (rule sorted_distinct_set_unique)

section \<open>UTF-8\<close>

definition cont :: "char \<Rightarrow> bool" where
  "cont c \<longleftrightarrow> 128 \<le> byte c \<and> byte c \<le> 191"

definition within :: "nat \<Rightarrow> nat \<Rightarrow> char \<Rightarrow> bool" where
  "within lo hi c \<longleftrightarrow> lo \<le> byte c \<and> byte c \<le> hi"

text \<open>
  The length in bytes of the valid UTF-8 encoding a string starts with, 0 when it starts with
  no valid encoding (the cases where \<^verbatim>\<open>utf8.DecodeRune\<close> returns \<^verbatim>\<open>RuneError\<close> with width 0 or 1).
\<close>

definition rune_len :: "string \<Rightarrow> nat" where
  "rune_len s = (case s of
     [] \<Rightarrow> 0
   | a # t \<Rightarrow>
      if byte a < 128 then 1
      else (case t of
        [] \<Rightarrow> 0
      | b # u \<Rightarrow>
         if within 194 223 a \<and> cont b then 2
         else (case u of
           [] \<Rightarrow> 0
         | c # v \<Rightarrow>
            if cont c \<and> (byte a = 224 \<and> within 160 191 b \<or> within 225 236 a \<and> cont b
                 \<or> byte a = 237 \<and> within 128 159 b \<or> within 238 239 a \<and> cont b) then 3
            else (case v of
              [] \<Rightarrow> 0
            | d # _ \<Rightarrow>
               if cont c \<and> cont d \<and> (byte a = 240 \<and> within 144 191 b
                    \<or> within 241 243 a \<and> cont b \<or> byte a = 244 \<and> within 128 143 b) then 4
               else 0))))"

fun utf8_valid :: "string \<Rightarrow> bool" where
  "utf8_valid [] = True"
| "utf8_valid (c # cs) =
    (rune_len (c # cs) \<noteq> 0 \<and> utf8_valid (drop (rune_len (c # cs) - 1) cs))"

lemma rune_len_ascii: "byte c < 128 \<Longrightarrow> rune_len (c # cs) = 1"
  by (simp add: rune_len_def)

lemma rune_len_le_length: "rune_len s \<le> length s"
  by (auto simp: rune_len_def split: list.splits)

lemma rune_len_append:
  assumes "rune_len s \<noteq> 0"
  shows "rune_len (take (rune_len s) s @ t) = rune_len s"
proof (cases s)
  case Nil
  with assms show ?thesis by (simp add: rune_len_def)
next
  case (Cons a s1)
  with assms show ?thesis
    by (cases s1; cases "tl s1"; cases "tl (tl s1)")
      (auto simp: rune_len_def split: if_splits)
qed

lemma utf8_valid_ascii: "(\<And>c. c \<in> set s \<Longrightarrow> byte c < 128) \<Longrightarrow> utf8_valid s"
proof (induction s)
  case Nil
  then show ?case by simp
next
  case (Cons c cs)
  then have "byte c < 128" "utf8_valid cs" by auto
  then show ?case by (simp add: rune_len_ascii)
qed

lemma find_snoc: "List.find P (xs @ [y]) = (case List.find P xs of None \<Rightarrow> if P y then Some y else None | Some x \<Rightarrow> Some x)"
  by (induction xs) auto

end
