(* ===== verification/Json.thy ===== *)
theory Json
  imports Prelude
begin

text \<open>
  The part of Go's \<^verbatim>\<open>encoding/json\<close> the program uses, at the level of text. \<open>json\<close> is a JSON
  document with the members of an object in their textual order; \<open>pr_val\<close> renders it the way
  \<^verbatim>\<open>json.Marshal\<close> (\<open>compact\<close>) and \<^verbatim>\<open>json.MarshalIndent(v, "", "  ")\<close> (\<open>indented\<close>) do, and
  \<open>json_parse\<close> reads a text as \<^verbatim>\<open>json.Unmarshal\<close> does. Numbers are integers: a literal with a
  fraction or an exponent is rejected by the model. The main result is that parsing a rendered
  document whose strings are valid UTF-8 gives the document back, for both styles.

  \<open>gval\<close> is a Go dynamic value (\<^verbatim>\<open>interface{}\<close>, \<^verbatim>\<open>any\<close>): what decoding into
  \<^verbatim>\<open>map[string]interface{}\<close> yields, plus the native \<^verbatim>\<open>int\<close> and \<^verbatim>\<open>[]string\<close> values the program puts
  into such maps itself. The order of the entries of a \<open>GMap\<close> is the iteration order the runtime
  happens to choose.
\<close>

section \<open>Documents\<close>

datatype json =
    JNull
  | JBool bool
  | JNum int
  | JStr string
  | JArr "json list"
  | JObj "(string \<times> json) list"

section \<open>Rendering\<close>

definition hex_char :: "nat \<Rightarrow> char" where
  "hex_char n = ''0123456789abcdef'' ! n"

definition hex_val :: "char \<Rightarrow> nat option" where
  "hex_val c =
    (if 48 \<le> byte c \<and> byte c \<le> 57 then Some (byte c - 48)
     else if 97 \<le> byte c \<and> byte c \<le> 102 then Some (byte c - 87)
     else if 65 \<le> byte c \<and> byte c \<le> 70 then Some (byte c - 55)
     else None)"

text \<open>One ASCII byte inside a JSON string, with the HTML-safe escapes of \<^verbatim>\<open>json.Marshal\<close>.\<close>

definition esc_ascii :: "char \<Rightarrow> string" where
  "esc_ascii c =
    (if c = CHR 0x22 then [CHR 0x5C, CHR 0x22]
     else if c = CHR 0x5C then [CHR 0x5C, CHR 0x5C]
     else if c = CHR 0x08 then [CHR 0x5C, CHR ''b'']
     else if c = CHR 0x0C then [CHR 0x5C, CHR ''f'']
     else if c = CHR 0x0A then [CHR 0x5C, CHR ''n'']
     else if c = CHR 0x0D then [CHR 0x5C, CHR ''r'']
     else if c = CHR 0x09 then [CHR 0x5C, CHR ''t'']
     else if byte c < 32 \<or> c = CHR ''<'' \<or> c = CHR ''>'' \<or> c = CHR 0x26
       then [CHR 0x5C, CHR ''u'', CHR ''0'', CHR ''0'', hex_char (byte c div 16), hex_char (byte c mod 16)]
     else [c])"

fun esc :: "string \<Rightarrow> string" where
  "esc [] = []"
| "esc (c # cs) =
    (if byte c < 128 then esc_ascii c @ esc cs
     else if rune_len (c # cs) = 0 then CHR 0x5C # ''ufffd'' @ esc cs
     else if take 3 (c # cs) = [CHR 0xE2, CHR 0x80, CHR 0xA8] then CHR 0x5C # ''u2028'' @ esc (drop 2 cs)
     else if take 3 (c # cs) = [CHR 0xE2, CHR 0x80, CHR 0xA9] then CHR 0x5C # ''u2029'' @ esc (drop 2 cs)
     else take (rune_len (c # cs)) (c # cs) @ esc (drop (rune_len (c # cs) - 1) cs))"

definition pr_str :: "string \<Rightarrow> string" where
  "pr_str s = CHR 0x22 # esc s @ [CHR 0x22]"

text \<open>A style gives the line break at a nesting depth and the text after a member's key.\<close>

record style =
  nl :: "nat \<Rightarrow> string"
  colon :: string

definition compact :: style where
  "compact = \<lparr>nl = (\<lambda>_. []), colon = '':''\<rparr>"

definition indented :: style where
  "indented = \<lparr>nl = (\<lambda>d. CHR 0x0A # replicate (2 * d) (CHR 0x20)), colon = '': ''\<rparr>"

fun pr_val :: "style \<Rightarrow> nat \<Rightarrow> json \<Rightarrow> string"
  and pr_elems :: "style \<Rightarrow> nat \<Rightarrow> json list \<Rightarrow> string"
  and pr_mems :: "style \<Rightarrow> nat \<Rightarrow> (string \<times> json) list \<Rightarrow> string" where
  "pr_val st d JNull = ''null''"
| "pr_val st d (JBool b) = (if b then ''true'' else ''false'')"
| "pr_val st d (JNum i) = itoa i"
| "pr_val st d (JStr s) = pr_str s"
| "pr_val st d (JArr vs) =
    (if vs = [] then ''[]'' else CHR ''['' # pr_elems st (Suc d) vs @ nl st d @ '']'')"
| "pr_val st d (JObj ms) =
    (if ms = [] then ''{}'' else CHR ''{'' # pr_mems st (Suc d) ms @ nl st d @ ''}'')"
| "pr_elems st d [] = []"
| "pr_elems st d (v # vs) =
    nl st d @ pr_val st d v @ (if vs = [] then [] else CHR '','' # pr_elems st d vs)"
| "pr_mems st d [] = []"
| "pr_mems st d ((k, v) # ms) =
    nl st d @ pr_str k @ colon st @ pr_val st d v
      @ (if ms = [] then [] else CHR '','' # pr_mems st d ms)"

definition marshal :: "json \<Rightarrow> string" where
  "marshal j = pr_val compact 0 j"

definition marshal_indent :: "json \<Rightarrow> string" where
  "marshal_indent j = pr_val indented 0 j"

section \<open>Parsing\<close>

definition is_ws :: "char \<Rightarrow> bool" where
  "is_ws c \<longleftrightarrow> c = CHR 0x20 \<or> c = CHR 0x09 \<or> c = CHR 0x0A \<or> c = CHR 0x0D"

definition skip_ws :: "string \<Rightarrow> string" where
  "skip_ws s = dropWhile is_ws s"

definition utf8_encode :: "nat \<Rightarrow> string" where
  "utf8_encode n =
    (if n < 128 then [char_of n]
     else if n < 2048 then [char_of (192 + n div 64), char_of (128 + n mod 64)]
     else if n < 65536 then
       [char_of (224 + n div 4096), char_of (128 + n div 64 mod 64), char_of (128 + n mod 64)]
     else [char_of (240 + n div 262144), char_of (128 + n div 4096 mod 64),
           char_of (128 + n div 64 mod 64), char_of (128 + n mod 64)])"

definition hex4 :: "string \<Rightarrow> (nat \<times> string) option" where
  "hex4 s = (case s of
     a # b # c # d # r \<Rightarrow>
       (case (hex_val a, hex_val b, hex_val c, hex_val d) of
          (Some w, Some x, Some y, Some z) \<Rightarrow> Some (4096 * w + 256 * x + 16 * y + z, r)
        | _ \<Rightarrow> None)
   | _ \<Rightarrow> None)"

text \<open>\<^verbatim>\<open>\uXXXX\<close> after the \<^verbatim>\<open>u\<close>: surrogate pairs are combined, a lone surrogate becomes U+FFFD.\<close>

definition unesc_u :: "string \<Rightarrow> (string \<times> string) option" where
  "unesc_u s = (case hex4 s of
     None \<Rightarrow> None
   | Some (n, r) \<Rightarrow>
       if n < 55296 \<or> 57343 < n then Some (utf8_encode n, r)
       else (case r of
           x # y # r' \<Rightarrow>
             if n < 56320 \<and> x = CHR 0x5C \<and> y = CHR ''u'' then
               (case hex4 r' of
                  Some (m, r'') \<Rightarrow>
                    if 56320 \<le> m \<and> m \<le> 57343
                    then Some (utf8_encode (65536 + (n - 55296) * 1024 + (m - 56320)), r'')
                    else Some (utf8_encode 65533, r)
                | None \<Rightarrow> Some (utf8_encode 65533, r))
             else Some (utf8_encode 65533, r)
         | _ \<Rightarrow> Some (utf8_encode 65533, r)))"

definition unesc_char :: "char \<Rightarrow> char option" where
  "unesc_char c =
    (if c = CHR 0x22 \<or> c = CHR 0x5C \<or> c = CHR ''/'' then Some c
     else if c = CHR ''b'' then Some (CHR 0x08)
     else if c = CHR ''f'' then Some (CHR 0x0C)
     else if c = CHR ''n'' then Some (CHR 0x0A)
     else if c = CHR ''r'' then Some (CHR 0x0D)
     else if c = CHR ''t'' then Some (CHR 0x09)
     else None)"

lemma hex4_length: "hex4 s = Some (n, r) \<Longrightarrow> length s = length r + 4"
  by (auto simp: hex4_def split: list.splits option.splits)

lemma unesc_u_length: "unesc_u s = Some (x, r) \<Longrightarrow> length r < length s"
  by (auto simp: unesc_u_def split: option.splits if_splits list.splits dest!: hex4_length)

text \<open>The rest of a string literal after its opening quote, and the text behind the closing one.\<close>

function unesc :: "string \<Rightarrow> (string \<times> string) option" where
  "unesc s = (case s of
     [] \<Rightarrow> None
   | c # cs \<Rightarrow>
      if c = CHR 0x22 then Some ([], cs)
      else if c = CHR 0x5C then
        (case cs of
           [] \<Rightarrow> None
         | e # es \<Rightarrow>
            if e = CHR ''u'' then
              (case unesc_u es of
                 None \<Rightarrow> None
               | Some (x, r) \<Rightarrow> map_option (\<lambda>(t, r'). (x @ t, r')) (unesc r))
            else
              (case unesc_char e of
                 None \<Rightarrow> None
               | Some x \<Rightarrow> map_option (\<lambda>(t, r'). (x # t, r')) (unesc es)))
      else if byte c < 32 then None
      else if rune_len s = 0 then
        map_option (\<lambda>(t, r'). ([CHR 0xEF, CHR 0xBF, CHR 0xBD] @ t, r')) (unesc cs)
      else
        map_option (\<lambda>(t, r'). (take (rune_len s) s @ t, r')) (unesc (drop (rune_len s) s)))"
  by pat_completeness auto
termination
  by (relation "measure length") (auto dest: unesc_u_length)

declare unesc.simps [simp del]

text \<open>An integer literal: an optional minus sign and digits without a leading zero.\<close>

definition p_num :: "string \<Rightarrow> (json \<times> string) option" where
  "p_num s =
    (let neg = (case s of c # _ \<Rightarrow> c = CHR ''-'' | [] \<Rightarrow> False);
         t = (if neg then tl s else s);
         ds = takeWhile is_digit t;
         r = dropWhile is_digit t
     in if ds = [] \<or> (hd ds = CHR ''0'' \<and> tl ds \<noteq> []) then None
        else if r \<noteq> [] \<and> hd r \<in> set ''.eE'' then None
        else Some (JNum (if neg then - int (undec ds) else int (undec ds)), r))"

definition p_word :: "string \<Rightarrow> json \<Rightarrow> string \<Rightarrow> (json \<times> string) option" where
  "p_word w v s = (if prefix w s then Some (v, drop (length w) s) else None)"

text \<open>
  Values, the rest of an array after \<^verbatim>\<open>[\<close>, and the rest of an object after \<^verbatim>\<open>{\<close>. Every call
  consumes at least one byte, so the length of the text is enough fuel.
\<close>

fun p_val :: "nat \<Rightarrow> string \<Rightarrow> (json \<times> string) option"
  and p_elems :: "nat \<Rightarrow> string \<Rightarrow> (json list \<times> string) option"
  and p_mems :: "nat \<Rightarrow> string \<Rightarrow> ((string \<times> json) list \<times> string) option" where
  "p_val 0 s = None"
| "p_val (Suc f) s = (case skip_ws s of
     [] \<Rightarrow> None
   | c # cs \<Rightarrow>
      if c = CHR ''{'' then
        (case skip_ws cs of
           [] \<Rightarrow> None
         | e # es \<Rightarrow>
            if e = CHR ''}'' then Some (JObj [], es)
            else map_option (\<lambda>(ms, r). (JObj ms, r)) (p_mems f cs))
      else if c = CHR ''['' then
        (case skip_ws cs of
           [] \<Rightarrow> None
         | e # es \<Rightarrow>
            if e = CHR '']'' then Some (JArr [], es)
            else map_option (\<lambda>(vs, r). (JArr vs, r)) (p_elems f cs))
      else if c = CHR 0x22 then map_option (\<lambda>(t, r). (JStr t, r)) (unesc cs)
      else if c = CHR ''n'' then p_word ''null'' JNull (c # cs)
      else if c = CHR ''t'' then p_word ''true'' (JBool True) (c # cs)
      else if c = CHR ''f'' then p_word ''false'' (JBool False) (c # cs)
      else p_num (c # cs))"
| "p_elems 0 s = None"
| "p_elems (Suc f) s = (case p_val f s of
     None \<Rightarrow> None
   | Some (v, r) \<Rightarrow> (case skip_ws r of
       [] \<Rightarrow> None
     | c # cs \<Rightarrow>
        if c = CHR '']'' then Some ([v], cs)
        else if c = CHR '','' then map_option (\<lambda>(vs, r'). (v # vs, r')) (p_elems f cs)
        else None))"
| "p_mems 0 s = None"
| "p_mems (Suc f) s = (case skip_ws s of
     [] \<Rightarrow> None
   | q # qs \<Rightarrow>
      if q \<noteq> CHR 0x22 then None
      else (case unesc qs of
        None \<Rightarrow> None
      | Some (k, r) \<Rightarrow> (case skip_ws r of
          [] \<Rightarrow> None
        | c # cs \<Rightarrow>
           if c \<noteq> CHR '':'' then None
           else (case p_val f cs of
             None \<Rightarrow> None
           | Some (v, r') \<Rightarrow> (case skip_ws r' of
               [] \<Rightarrow> None
             | e # es \<Rightarrow>
                if e = CHR ''}'' then Some ([(k, v)], es)
                else if e = CHR '','' then map_option (\<lambda>(ms, r''). ((k, v) # ms, r'')) (p_mems f es)
                else None)))))"

definition json_parse :: "string \<Rightarrow> json option" where
  "json_parse s = (case p_val (Suc (length s)) s of
     Some (v, r) \<Rightarrow> if skip_ws r = [] then Some v else None
   | None \<Rightarrow> None)"

section \<open>Strings survive rendering and parsing\<close>

lemma hex_val_hex_char: "n < 16 \<Longrightarrow> hex_val (hex_char n) = Some n"
proof -
  have "\<forall>n < 16. hex_val (hex_char n) = Some n" by code_simp
  then show "n < 16 \<Longrightarrow> hex_val (hex_char n) = Some n" by blast
qed

lemma hex_val_0: "hex_val (CHR ''0'') = Some 0"
  by (simp add: hex_val_def)

lemma byte_less_256 [simp]: "byte c < 256"
  by (metis of_char_mod_256 mod_less_divisor zero_less_numeral)

lemma unesc_u_ascii:
  assumes "byte c < 128"
  shows "unesc_u (CHR ''0'' # CHR ''0'' # hex_char (byte c div 16) # hex_char (byte c mod 16) # t)
    = Some ([c], t)"
proof -
  have "byte c div 16 < 16" using byte_less_256 [of c] by (simp add: div_less_iff_less_mult)
  then have "hex4 (CHR ''0'' # CHR ''0'' # hex_char (byte c div 16) # hex_char (byte c mod 16) # t)
      = Some (byte c, t)"
    by (simp add: hex4_def hex_val_hex_char hex_val_0)
  then show ?thesis using assms by (simp add: unesc_u_def utf8_encode_def)
qed

lemma unesc_u_2028: "unesc_u (CHR ''2'' # CHR ''0'' # CHR ''2'' # CHR ''8'' # t)
    = Some ([CHR 0xE2, CHR 0x80, CHR 0xA8], t)"
proof -
  have "hex4 (CHR ''2'' # CHR ''0'' # CHR ''2'' # CHR ''8'' # t) = Some (8232, t)"
    by (simp add: hex4_def hex_val_def)
  moreover have "utf8_encode 8232 = [CHR 0xE2, CHR 0x80, CHR 0xA8]"
    by (simp add: utf8_encode_def char_of_eq_iff)
  ultimately show ?thesis by (simp add: unesc_u_def)
qed

lemma unesc_u_2029: "unesc_u (CHR ''2'' # CHR ''0'' # CHR ''2'' # CHR ''9'' # t)
    = Some ([CHR 0xE2, CHR 0x80, CHR 0xA9], t)"
proof -
  have "hex4 (CHR ''2'' # CHR ''0'' # CHR ''2'' # CHR ''9'' # t) = Some (8233, t)"
    by (simp add: hex4_def hex_val_def)
  moreover have "utf8_encode 8233 = [CHR 0xE2, CHR 0x80, CHR 0xA9]"
    by (simp add: utf8_encode_def char_of_eq_iff)
  ultimately show ?thesis by (simp add: unesc_u_def)
qed

lemma unesc_quote [simp]: "unesc (CHR 0x22 # r) = Some ([], r)"
  by (simp add: unesc.simps)

lemma unesc_esc_ascii:
  assumes "byte c < 128"
  shows "unesc (esc_ascii c @ t) = map_option (\<lambda>(u, r). (c # u, r)) (unesc t)"
proof (cases "c \<in> {CHR 0x22, CHR 0x5C, CHR 0x08, CHR 0x0C, CHR 0x0A, CHR 0x0D, CHR 0x09}")
  case True
  then show ?thesis
    by (auto simp: esc_ascii_def unesc.simps [of "CHR 0x5C # _"] unesc_char_def)
next
  case simple: False
  show ?thesis
  proof (cases "byte c < 32 \<or> c = CHR ''<'' \<or> c = CHR ''>'' \<or> c = CHR 0x26")
    case True
    with simple have "esc_ascii c =
        [CHR 0x5C, CHR ''u'', CHR ''0'', CHR ''0'', hex_char (byte c div 16), hex_char (byte c mod 16)]"
      by (simp add: esc_ascii_def)
    then show ?thesis
      by (simp add: unesc.simps [of "CHR 0x5C # _"] unesc_u_ascii [OF assms])
  next
    case False
    with simple have "esc_ascii c = [c]" by (simp add: esc_ascii_def)
    with simple False assms show ?thesis
      by (simp add: unesc.simps [of "c # _"] rune_len_ascii)
  qed
qed

lemma take3_E280:
  assumes "take 3 (c # cs) = [CHR 0xE2, CHR 0x80, x]" "cont x"
  shows "c # cs = [CHR 0xE2, CHR 0x80, x] @ drop 2 cs" "rune_len (c # cs) = 3"
proof -
  obtain t where t: "c # cs = [CHR 0xE2, CHR 0x80, x] @ t"
    using assms(1) by (metis append_take_drop_id)
  then show "c # cs = [CHR 0xE2, CHR 0x80, x] @ drop 2 cs" by auto
  show "rune_len (c # cs) = 3"
    using assms(2) by (simp add: t rune_len_def within_def cont_def)
qed

lemma unesc_multibyte:
  assumes "\<not> byte c < 128" "rune_len (c # cs) \<noteq> 0"
  shows "unesc (take (rune_len (c # cs)) (c # cs) @ t)
    = map_option (\<lambda>(u, r). (take (rune_len (c # cs)) (c # cs) @ u, r)) (unesc t)"
proof -
  let ?n = "rune_len (c # cs)"
  let ?s = "take ?n (c # cs) @ t"
  have len: "length (take ?n (c # cs)) = ?n" using rune_len_le_length [of "c # cs"] by simp
  obtain tl' where s: "?s = c # tl'" using assms(2) by (cases ?n) auto
  have "rune_len ?s = ?n" by (rule rune_len_append [OF assms(2)])
  moreover have "c \<noteq> CHR 0x22" "c \<noteq> CHR 0x5C" "\<not> byte c < 32" using assms(1) by auto
  ultimately have "unesc ?s = map_option (\<lambda>(u, r). (take ?n ?s @ u, r)) (unesc (drop ?n ?s))"
    using assms(2) s by (subst unesc.simps) simp
  then show ?thesis using len by simp
qed

lemma unesc_esc: "utf8_valid s \<Longrightarrow> unesc (esc s @ CHR 0x22 # r) = Some (s, r)"
proof (induction s rule: esc.induct)
  case 1
  then show ?case by simp
next
  case (2 c cs)
  have c28: "cont (CHR 0xA8)" "cont (CHR 0xA9)" by (simp_all add: cont_def)
  consider (ascii) "byte c < 128"
    | (ls) "\<not> byte c < 128" "take 3 (c # cs) = [CHR 0xE2, CHR 0x80, CHR 0xA8]"
    | (ps) "\<not> byte c < 128" "take 3 (c # cs) = [CHR 0xE2, CHR 0x80, CHR 0xA9]"
    | (multi) "\<not> byte c < 128" "take 3 (c # cs) \<noteq> [CHR 0xE2, CHR 0x80, CHR 0xA8]"
        "take 3 (c # cs) \<noteq> [CHR 0xE2, CHR 0x80, CHR 0xA9]"
    by blast
  then show ?case
  proof cases
    case ascii
    with 2 show ?thesis by (simp add: rune_len_ascii unesc_esc_ascii)
  next
    case ls
    note s = take3_E280 [OF ls(2) c28(1)]
    with 2 ls have "unesc (esc (drop 2 cs) @ CHR 0x22 # r) = Some (drop 2 cs, r)" by simp
    moreover have "esc (c # cs) = CHR 0x5C # ''u2028'' @ esc (drop 2 cs)"
      using ls s(2) by simp
    ultimately have "unesc (esc (c # cs) @ CHR 0x22 # r)
        = Some ([CHR 0xE2, CHR 0x80, CHR 0xA8] @ drop 2 cs, r)"
      by (simp add: unesc.simps [of "CHR 0x5C # _"] unesc_u_2028)
    then show ?thesis by (simp only: s(1) [symmetric])
  next
    case ps
    note s = take3_E280 [OF ps(2) c28(2)]
    with 2 ps have "unesc (esc (drop 2 cs) @ CHR 0x22 # r) = Some (drop 2 cs, r)" by simp
    moreover have "esc (c # cs) = CHR 0x5C # ''u2029'' @ esc (drop 2 cs)"
      using ps s(2) by simp
    ultimately have "unesc (esc (c # cs) @ CHR 0x22 # r)
        = Some ([CHR 0xE2, CHR 0x80, CHR 0xA9] @ drop 2 cs, r)"
      by (simp add: unesc.simps [of "CHR 0x5C # _"] unesc_u_2029)
    then show ?thesis by (simp only: s(1) [symmetric])
  next
    case multi
    let ?n = "rune_len (c # cs)"
    from "2.prems" have n: "?n \<noteq> 0" by simp
    with 2 multi have IH: "unesc (esc (drop (?n - 1) cs) @ CHR 0x22 # r) = Some (drop (?n - 1) cs, r)"
      by simp
    have e: "esc (c # cs) = take ?n (c # cs) @ esc (drop (?n - 1) cs)"
      using multi n by auto
    have d: "take ?n (c # cs) @ drop (?n - 1) cs = c # cs"
      using n by (metis append_take_drop_id drop_Cons' )
    show ?thesis
      by (simp only: e append_assoc unesc_multibyte [OF multi(1) n] IH) (use d in simp)
  qed
qed

section \<open>Documents survive rendering and parsing\<close>

fun json_ok :: "json \<Rightarrow> bool" where
  "json_ok (JStr s) = utf8_valid s"
| "json_ok (JArr vs) = (\<forall>v \<in> set vs. json_ok v)"
| "json_ok (JObj ms) = (\<forall>m \<in> set ms. utf8_valid (fst m) \<and> json_ok (snd m))"
| "json_ok _ = True"

definition ws_str :: "string \<Rightarrow> bool" where
  "ws_str w \<longleftrightarrow> list_all is_ws w"

definition wf_style :: "style \<Rightarrow> bool" where
  "wf_style st \<longleftrightarrow> (\<forall>d. ws_str (nl st d)) \<and> (\<exists>w. colon st = CHR '':'' # w \<and> ws_str w)"

definition delim :: "string \<Rightarrow> bool" where
  "delim r \<longleftrightarrow> r = [] \<or> hd r \<in> set '',]}'' \<or> is_ws (hd r)"

lemma wf_compact: "wf_style compact"
  by (simp add: wf_style_def compact_def ws_str_def)

lemma wf_indented: "wf_style indented"
  by (auto simp: wf_style_def indented_def ws_str_def is_ws_def list_all_iff)

lemma skip_ws_append [simp]: "ws_str w \<Longrightarrow> skip_ws (w @ s) = skip_ws s"
  by (simp add: skip_ws_def ws_str_def dropWhile_append list_all_iff)

lemma skip_ws_Cons [simp]: "\<not> is_ws c \<Longrightarrow> skip_ws (c # s) = c # s"
  by (simp add: skip_ws_def)

lemma skip_ws_ws [simp]: "ws_str w \<Longrightarrow> skip_ws w = []"
  using skip_ws_append [of w "[]"] by (simp add: skip_ws_def)

lemma ws_str_append [simp]: "ws_str (a @ b) \<longleftrightarrow> ws_str a \<and> ws_str b"
  by (simp add: ws_str_def)

lemma ws_str_Nil [simp]: "ws_str []"
  by (simp add: ws_str_def)

lemma is_ws_digit: "is_digit c \<Longrightarrow> \<not> is_ws c"
  by (auto simp: is_digit_def is_ws_def)

lemma delim_ws_append: "ws_str w \<Longrightarrow> delim r \<Longrightarrow> delim (w @ r)"
  by (cases w) (auto simp: delim_def ws_str_def)

lemma delim_not_number: "delim r \<Longrightarrow> r \<noteq> [] \<Longrightarrow> \<not> is_digit (hd r) \<and> hd r \<notin> set ''.eE''"
  by (auto simp: delim_def is_ws_def is_digit_def)

lemma takeWhile_dec: "delim r \<Longrightarrow> takeWhile is_digit (dec n @ r) = dec n"
  and dropWhile_dec: "delim r \<Longrightarrow> dropWhile is_digit (dec n @ r) = r"
proof -
  assume r: "delim r"
  then have "takeWhile is_digit r = []" "dropWhile is_digit r = r"
    using delim_not_number [OF r] by (cases r; auto)+
  then show "takeWhile is_digit (dec n @ r) = dec n" "dropWhile is_digit (dec n @ r) = r"
    using dec_digits [of n] by (auto simp: takeWhile_append dropWhile_append list_all_iff)
qed

lemma dec_canonical: "\<not> (hd (dec n) = CHR ''0'' \<and> tl (dec n) \<noteq> [])"
  using dec_no_leading_zero [of n] by (cases "n = 0") auto

lemma p_num_itoa:
  assumes "delim r"
  shows "p_num (itoa i @ r) = Some (JNum i, r)"
proof (cases "i < 0")
  case True
  then show ?thesis
    using dec_canonical [of "nat (- i)"] delim_not_number [OF assms]
    by (auto simp: p_num_def Let_def itoa_def takeWhile_dec [OF assms] dropWhile_dec [OF assms])
next
  case False
  have "(case dec (nat i) @ r of [] \<Rightarrow> False | c # _ \<Rightarrow> c = CHR ''-'') = False"
    using dec_not_minus [of "nat i"] by (cases "dec (nat i)") auto
  with False show ?thesis
    using dec_canonical [of "nat i"] delim_not_number [OF assms]
    by (auto simp: p_num_def Let_def itoa_def takeWhile_dec [OF assms] dropWhile_dec [OF assms])
qed

lemma itoa_hd:
  obtains c t where "itoa i = c # t" "c = CHR ''-'' \<or> is_digit c"
proof (cases "i < 0")
  case True
  then show thesis using that by (simp add: itoa_def)
next
  case False
  then show thesis
    using that dec_digits [of "nat i"] by (cases "dec (nat i)") (auto simp: itoa_def)
qed

lemma pr_val_hd_props:
  "pr_val st d v \<noteq> [] \<and> \<not> is_ws (hd (pr_val st d v)) \<and> hd (pr_val st d v) \<noteq> CHR '']''
    \<and> hd (pr_val st d v) \<noteq> CHR ''}''"
proof (cases v)
  case (JNum i)
  obtain c t where c: "itoa i = c # t" "c = CHR ''-'' \<or> is_digit c" by (rule itoa_hd)
  from c(2) have "\<not> is_ws c" "c \<noteq> CHR '']''" "c \<noteq> CHR ''}''"
    by (auto simp: is_digit_def is_ws_def)
  with JNum c show ?thesis by simp
qed (simp_all add: pr_str_def is_ws_def)

lemma pr_val_hd:
  obtains c t where "pr_val st d v = c # t" "\<not> is_ws c" "c \<noteq> CHR '']''" "c \<noteq> CHR ''}''"
  using pr_val_hd_props [of st d v] by (cases "pr_val st d v") auto

lemma pr_val_nonempty [simp]: "pr_val st d v \<noteq> []"
  by (rule pr_val_hd [of st d v]) simp

lemma p_val_num:
  assumes "delim r" "ws_str w"
  shows "p_val (Suc f) (w @ itoa i @ r) = Some (JNum i, r)"
proof -
  obtain c t where c: "itoa i = c # t" "c = CHR ''-'' \<or> is_digit c" by (rule itoa_hd)
  then have "\<not> is_ws c" "c \<notin> set ''{[ntf''" "c \<noteq> CHR 0x22"
    by (auto simp: is_ws_def is_digit_def)
  then show ?thesis
    using p_num_itoa [OF assms(1), of i] assms(2) c(1) by simp
qed

lemma ws_consts [simp]:
  "\<not> is_ws (CHR ''['')" "\<not> is_ws (CHR '']'')" "\<not> is_ws (CHR ''{'')" "\<not> is_ws (CHR ''}'')"
  "\<not> is_ws (CHR '','')" "\<not> is_ws (CHR '':'')" "\<not> is_ws (CHR 0x22)" "\<not> is_ws (CHR ''n'')"
  "\<not> is_ws (CHR ''t'')" "\<not> is_ws (CHR ''f'')"
  by (simp_all add: is_ws_def)

lemma delim_consts [simp]:
  "delim []" "delim (CHR '','' # r)" "delim (CHR '']'' # r)" "delim (CHR ''}'' # r)"
  by (simp_all add: delim_def)

lemma pr_elems_skip:
  assumes "vs \<noteq> []" "wf_style st"
  obtains c t where "skip_ws (pr_elems st d vs @ r) = c # t" "c \<noteq> CHR '']''"
proof -
  obtain v vs' where vs: "vs = v # vs'" using assms(1) by (cases vs) auto
  obtain c t where c: "pr_val st d v = c # t" "\<not> is_ws c" "c \<noteq> CHR '']''"
    by (rule pr_val_hd)
  have "ws_str (nl st d)" using assms(2) by (simp add: wf_style_def)
  with c show thesis using that by (simp add: vs)
qed

lemma pr_mems_skip:
  assumes "ms \<noteq> []" "wf_style st"
  obtains t where "skip_ws (pr_mems st d ms @ r) = CHR 0x22 # t"
proof -
  obtain k v ms' where ms: "ms = (k, v) # ms'" using assms(1) by (cases ms) auto
  have "ws_str (nl st d)" using assms(2) by (simp add: wf_style_def)
  then show thesis using that by (simp add: ms pr_str_def)
qed

lemma p_elems_step:
  assumes "p_val f s = Some (v, r)" "skip_ws r = c # cs"
  shows "p_elems (Suc f) s =
    (if c = CHR '']'' then Some ([v], cs)
     else if c = CHR '','' then map_option (\<lambda>(vs, r'). (v # vs, r')) (p_elems f cs) else None)"
  using assms by simp

lemma p_mems_step:
  assumes "skip_ws s = CHR 0x22 # qs" "unesc qs = Some (k, r)" "skip_ws r = CHR '':'' # cs"
    "p_val f cs = Some (v, r')" "skip_ws r' = e # es"
  shows "p_mems (Suc f) s =
    (if e = CHR ''}'' then Some ([(k, v)], es)
     else if e = CHR '','' then map_option (\<lambda>(ms, r''). ((k, v) # ms, r'')) (p_mems f es) else None)"
  using assms by simp

lemma p_pr_roundtrip:
  shows "wf_style st \<Longrightarrow> json_ok v \<Longrightarrow>
      (\<forall>f w r. length (pr_val st d v) \<le> f \<longrightarrow> ws_str w \<longrightarrow> delim r \<longrightarrow>
        p_val f (w @ pr_val st d v @ r) = Some (v, r))"
    and "wf_style st \<Longrightarrow> (\<forall>v \<in> set vs. json_ok v) \<Longrightarrow> vs \<noteq> [] \<Longrightarrow>
      (\<forall>f w r. length (pr_elems st d vs) < f \<longrightarrow> ws_str w \<longrightarrow>
        p_elems f (pr_elems st d vs @ w @ CHR '']'' # r) = Some (vs, r))"
    and "wf_style st \<Longrightarrow> (\<forall>m \<in> set ms. utf8_valid (fst m) \<and> json_ok (snd m)) \<Longrightarrow> ms \<noteq> [] \<Longrightarrow>
      (\<forall>f w r. length (pr_mems st d ms) < f \<longrightarrow> ws_str w \<longrightarrow>
        p_mems f (pr_mems st d ms @ w @ CHR ''}'' # r) = Some (ms, r))"
proof (induction st d v and st d vs and st d ms rule: pr_val_pr_elems_pr_mems.induct)
  case (1 st d)
  then show ?case by (auto simp: p_word_def dest!: Suc_le_D)
next
  case (2 st d b)
  then show ?case by (auto simp: p_word_def dest!: Suc_le_D)
next
  case (3 st d i)
  show ?case
  proof (intro allI impI)
    fix f w r
    assume "length (pr_val st d (JNum i)) \<le> f" "ws_str w" "delim r"
    moreover from this have "f \<noteq> 0" using pr_val_nonempty [of st d "JNum i"] by (cases f) auto
    ultimately show "p_val f (w @ pr_val st d (JNum i) @ r) = Some (JNum i, r)"
      using p_val_num by (cases f) auto
  qed
next
  case (4 st d s)
  then have "unesc (esc s @ CHR 0x22 # r) = Some (s, r)" for r by (simp add: unesc_esc)
  then show ?case by (auto simp: pr_str_def dest!: Suc_le_D)
next
  case (5 st d vs)
  show ?case
  proof (intro allI impI)
    fix f w r
    assume f: "length (pr_val st d (JArr vs)) \<le> f" and w: "ws_str w" and "delim r"
    then obtain f' where f': "f = Suc f'" by (cases f) (auto split: if_splits)
    show "p_val f (w @ pr_val st d (JArr vs) @ r) = Some (JArr vs, r)"
    proof (cases "vs = []")
      case True
      then show ?thesis using w by (simp add: f')
    next
      case False
      obtain c t where c: "skip_ws (pr_elems st (Suc d) vs @ nl st d @ CHR '']'' # r) = c # t" "c \<noteq> CHR '']''"
        by (rule pr_elems_skip [OF False "5.prems"(1)])
      have "length (pr_elems st (Suc d) vs) < f'" using f False by (simp add: f')
      moreover have "ws_str (nl st d)" using "5.prems" by (simp add: wf_style_def)
      ultimately have "p_elems f' (pr_elems st (Suc d) vs @ nl st d @ CHR '']'' # r) = Some (vs, r)"
        using 5 False by simp
      with c w False show ?thesis by (simp add: f')
    qed
  qed
next
  case (6 st d ms)
  show ?case
  proof (intro allI impI)
    fix f w r
    assume f: "length (pr_val st d (JObj ms)) \<le> f" and w: "ws_str w" and "delim r"
    then obtain f' where f': "f = Suc f'" by (cases f) (auto split: if_splits)
    show "p_val f (w @ pr_val st d (JObj ms) @ r) = Some (JObj ms, r)"
    proof (cases "ms = []")
      case True
      then show ?thesis using w by (simp add: f')
    next
      case False
      obtain t where c: "skip_ws (pr_mems st (Suc d) ms @ nl st d @ CHR ''}'' # r) = CHR 0x22 # t"
        by (rule pr_mems_skip [OF False "6.prems"(1)])
      have "length (pr_mems st (Suc d) ms) < f'" using f False by (simp add: f')
      moreover have "ws_str (nl st d)" using "6.prems" by (simp add: wf_style_def)
      ultimately have "p_mems f' (pr_mems st (Suc d) ms @ nl st d @ CHR ''}'' # r) = Some (ms, r)"
        using 6 False by simp
      with c w False show ?thesis by (simp add: f')
    qed
  qed
next
  case (7 st d)
  then show ?case by simp
next
  case (8 st d v vs)
  have ws: "ws_str (nl st d)" using "8.prems" by (simp add: wf_style_def)
  have v: "json_ok v" and vs: "\<forall>v \<in> set vs. json_ok v" using "8.prems" by auto
  note IHv = "8.IH"(1) [OF "8.prems"(1) v, rule_format]
  show ?case
  proof (intro allI impI)
    fix f w r
    assume f: "length (pr_elems st d (v # vs)) < f" and w: "ws_str w"
    then obtain f' where f': "f = Suc f'" by (cases f) auto
    show "p_elems f (pr_elems st d (v # vs) @ w @ CHR '']'' # r) = Some (v # vs, r)"
    proof (cases "vs = []")
      case True
      have "p_val f' (nl st d @ pr_val st d v @ w @ CHR '']'' # r) = Some (v, w @ CHR '']'' # r)"
        by (rule IHv) (use f f' ws w in \<open>auto intro: delim_ws_append\<close>)
      from p_elems_step [OF this] True w show ?thesis by (simp add: f')
    next
      case False
      let ?r = "pr_elems st d vs @ w @ CHR '']'' # r"
      have "p_val f' (nl st d @ pr_val st d v @ CHR '','' # ?r) = Some (v, CHR '','' # ?r)"
        by (rule IHv) (use f f' ws False in auto)
      moreover have "p_elems f' ?r = Some (vs, r)"
        using "8.IH"(2) [OF False "8.prems"(1) vs False] f f' False w by simp
      ultimately show ?thesis using False p_elems_step [of f' _ v "CHR '','' # ?r"] by (simp add: f')
    qed
  qed
next
  case (9 st d)
  then show ?case by simp
next
  case (10 st d k v ms)
  have ws: "ws_str (nl st d)" using "10.prems" by (simp add: wf_style_def)
  obtain u where u: "colon st = CHR '':'' # u" "ws_str u" using "10.prems" by (auto simp: wf_style_def)
  have v: "json_ok v" and k: "utf8_valid k"
    and ms: "\<forall>m \<in> set ms. utf8_valid (fst m) \<and> json_ok (snd m)" using "10.prems" by auto
  note IHv = "10.IH"(1) [OF "10.prems"(1) v, rule_format]
  show ?case
  proof (intro allI impI)
    fix f w r
    assume f: "length (pr_mems st d ((k, v) # ms)) < f" and w: "ws_str w"
    then obtain f' where f': "f = Suc f'" by (cases f) auto
    let ?rest = "if ms = [] then w @ CHR ''}'' # r else CHR '','' # pr_mems st d ms @ w @ CHR ''}'' # r"
    have text_eq: "pr_mems st d ((k, v) # ms) @ w @ CHR ''}'' # r
        = nl st d @ CHR 0x22 # esc k @ CHR 0x22 # CHR '':'' # u @ pr_val st d v @ ?rest"
      by (simp add: pr_str_def u(1))
    have "p_val f' (u @ pr_val st d v @ ?rest) = Some (v, ?rest)"
      by (rule IHv) (use f f' w u(2) in \<open>auto intro: delim_ws_append\<close>)
    note val = this
    have sk: "skip_ws (nl st d @ CHR 0x22 # X) = CHR 0x22 # X"
      "skip_ws (CHR '':'' # X) = CHR '':'' # X" for X
      using ws by simp_all
    have step: "p_mems (Suc f') (nl st d @ CHR 0x22 # esc k @ CHR 0x22 # CHR '':'' # u @ pr_val st d v @ ?rest) =
      (if e = CHR ''}'' then Some ([(k, v)], es)
       else if e = CHR '','' then map_option (\<lambda>(ms, r''). ((k, v) # ms, r'')) (p_mems f' es) else None)"
      if "skip_ws ?rest = e # es" for e es
      by (rule p_mems_step [OF sk(1) unesc_esc [OF k] sk(2) val that])
    show "p_mems f (pr_mems st d ((k, v) # ms) @ w @ CHR ''}'' # r) = Some ((k, v) # ms, r)"
      unfolding text_eq f'
    proof (cases "ms = []")
      case True
      then show "p_mems (Suc f') (nl st d @ CHR 0x22 # esc k @ CHR 0x22 # CHR '':'' # u @ pr_val st d v @ ?rest)
          = Some ((k, v) # ms, r)"
        using step [of "CHR ''}''" r] w by simp
    next
      case False
      then have "p_mems f' (pr_mems st d ms @ w @ CHR ''}'' # r) = Some (ms, r)"
        using "10.IH"(2) [OF False "10.prems"(1) ms False] f f' w by (simp add: pr_str_def u(1))
      with False show "p_mems (Suc f') (nl st d @ CHR 0x22 # esc k @ CHR 0x22 # CHR '':'' # u @ pr_val st d v @ ?rest)
          = Some ((k, v) # ms, r)"
        using step [of "CHR '',''" "pr_mems st d ms @ w @ CHR ''}'' # r"] by simp
    qed
  qed
qed

theorem json_parse_pr_val:
  assumes "wf_style st" "json_ok v" "ws_str w"
  shows "json_parse (pr_val st d v @ w) = Some v"
proof -
  have "delim w" using assms(3) by (cases w) (auto simp: delim_def ws_str_def)
  then have "p_val (Suc (length (pr_val st d v @ w))) (pr_val st d v @ w) = Some (v, w)"
    using p_pr_roundtrip(1) [OF assms(1,2), rule_format, of d "Suc (length (pr_val st d v @ w))" "[]" w]
    by simp
  then show ?thesis using assms(3) by (simp add: json_parse_def)
qed

lemma json_parse_marshal [simp]: "json_ok v \<Longrightarrow> json_parse (marshal v) = Some v"
  using json_parse_pr_val [OF wf_compact, of v "[]" 0] by (simp add: marshal_def)

lemma json_parse_marshal_indent:
  "json_ok v \<Longrightarrow> ws_str w \<Longrightarrow> json_parse (marshal_indent v @ w) = Some v"
  using json_parse_pr_val [OF wf_indented] by (simp add: marshal_indent_def)

lemma marshal_inject: "json_ok u \<Longrightarrow> json_ok v \<Longrightarrow> marshal u = marshal v \<longleftrightarrow> u = v"
  by (metis json_parse_marshal option.inject)

section \<open>A rendered document is one line\<close>

lemma hex_char_printable: "n < 16 \<Longrightarrow> 32 \<le> byte (hex_char n)"
proof -
  have "\<forall>n < 16. 32 \<le> byte (hex_char n)" by code_simp
  then show "n < 16 \<Longrightarrow> 32 \<le> byte (hex_char n)" by blast
qed

lemma esc_ascii_printable: "\<forall>x \<in> set (esc_ascii c). 32 \<le> byte x"
proof -
  have "byte c div 16 < 16" using byte_less_256 [of c] by (simp add: div_less_iff_less_mult)
  then show ?thesis by (simp add: esc_ascii_def hex_char_printable)
qed

lemma high_byte:
  "cont b \<Longrightarrow> 128 \<le> byte b"
  "within 160 191 b \<Longrightarrow> 128 \<le> byte b" "within 128 159 b \<Longrightarrow> 128 \<le> byte b"
  "within 144 191 b \<Longrightarrow> 128 \<le> byte b" "within 128 143 b \<Longrightarrow> 128 \<le> byte b"
  by (simp_all add: cont_def within_def)

lemma rune_bytes_high:
  assumes "\<not> byte c < 128"
  shows "\<forall>x \<in> set (take (rune_len (c # cs)) (c # cs)). 128 \<le> byte x"
proof -
  have "128 \<le> byte c" using assms by simp
  then show ?thesis
    unfolding rune_len_def
    by (cases cs; cases "tl cs"; cases "tl (tl cs)") (use high_byte in \<open>simp; blast\<close>)+
qed

lemma esc_printable: "\<forall>x \<in> set (esc s). 32 \<le> byte x"
proof (induction s rule: esc.induct)
  case 1
  then show ?case by simp
next
  case (2 c cs)
  show ?case
  proof (cases "byte c < 128")
    case True
    with 2 have "\<forall>x \<in> set (esc cs). 32 \<le> byte x" by simp
    with True esc_ascii_printable [of c] show ?thesis by (simp add: ball_Un)
  next
    case False
    have "\<forall>x \<in> set (take (rune_len (c # cs)) (c # cs)). 32 \<le> byte x"
    proof
      fix x assume "x \<in> set (take (rune_len (c # cs)) (c # cs))"
      with rune_bytes_high [OF False, of cs] have "128 \<le> byte x" by blast
      then show "32 \<le> byte x" by linarith
    qed
    with 2 False show ?thesis by (simp add: ball_Un)
  qed
qed

lemma pr_str_printable: "\<forall>x \<in> set (pr_str s). 32 \<le> byte x"
  using esc_printable by (auto simp: pr_str_def)

lemma is_digit_printable: "is_digit c \<Longrightarrow> 32 \<le> byte c"
  by (simp add: is_digit_def)

lemma itoa_printable: "\<forall>x \<in> set (itoa i). 32 \<le> byte x"
  using dec_digits is_digit_printable by (auto simp: itoa_def list_all_iff)

lemma pr_compact_printable:
  "st = compact \<Longrightarrow> \<forall>x \<in> set (pr_val st d v). 32 \<le> byte x"
  "st = compact \<Longrightarrow> \<forall>x \<in> set (pr_elems st d vs). 32 \<le> byte x"
  "st = compact \<Longrightarrow> \<forall>x \<in> set (pr_mems st d ms). 32 \<le> byte x"
  by (induction st d v and st d vs and st d ms rule: pr_val_pr_elems_pr_mems.induct)
    (auto simp: compact_def pr_str_printable itoa_printable)

lemma marshal_printable: "x \<in> set (marshal j) \<Longrightarrow> 32 \<le> byte x"
  using pr_compact_printable(1) by (auto simp: marshal_def)

lemma marshal_no_newline: "CHR 0x0A \<notin> set (marshal j)"
  using marshal_printable by force

lemma marshal_obj_ends:
  "hd (marshal (JObj ms)) = CHR ''{''" "last (marshal (JObj ms)) = CHR ''}''" "marshal (JObj ms) \<noteq> []"
  by (auto simp: marshal_def)

lemma trim_space_marshal_obj [simp]: "trim_space (marshal (JObj ms)) = marshal (JObj ms)"
  by (rule trim_space_solid) (simp_all add: marshal_obj_ends solid_def)

text \<open>The text of a string grows at most six times when it is escaped.\<close>

lemma length_esc: "length (esc s) \<le> 6 * length s"
proof (induction s rule: esc.induct)
  case 1
  then show ?case by simp
next
  case (2 c cs)
  have e: "length (esc_ascii c) \<le> 6" by (simp add: esc_ascii_def)
  show ?case
  proof (cases "byte c < 128 \<or> rune_len (c # cs) = 0 \<or> take 3 (c # cs) = [CHR 0xE2, CHR 0x80, CHR 0xA8]
      \<or> take 3 (c # cs) = [CHR 0xE2, CHR 0x80, CHR 0xA9]")
    case True
    then show ?thesis using 2 e by (auto; linarith)
  next
    case False
    have "length (esc (drop (rune_len (c # cs) - 1) cs)) \<le> 6 * (length cs - (rune_len (c # cs) - 1))"
      using 2(5) False by simp
    moreover have "length (take (rune_len (c # cs)) (c # cs)) \<le> min (rune_len (c # cs)) (Suc (length cs))" by simp
    ultimately show ?thesis using False by auto
  qed
qed

end
