(* ===== verification/Gval.thy ===== *)
theory Gval
  imports Json "HOL-Library.AList"
begin

text \<open>
  Go dynamic values. A \<open>GMap\<close> is a non-nil \<^verbatim>\<open>map[string]interface{}\<close> as an association list with
  distinct keys, a nil map or a nil interface is \<open>GNil\<close>, and \<open>GStrs\<close> is a native \<^verbatim>\<open>[]string\<close>
  (\<^const>\<open>None\<close> the nil slice). \<open>GFloat\<close> is the \<^verbatim>\<open>float64\<close> that decoding a JSON number gives; the
  model has integral ones only.
\<close>

datatype gval =
    GNil
  | GBool bool
  | GInt int
  | GFloat int
  | GStr string
  | GStrs "string list option"
  | GArr "gval list"
  | GMap "(string \<times> gval) list"

type_synonym gmap = "(string \<times> gval) list"

text \<open>Member access on a map value, and on a value that may not be a map.\<close>

abbreviation gget :: "gmap \<Rightarrow> string \<Rightarrow> gval option" where
  "gget m k \<equiv> map_of m k"

definition as_map :: "gval option \<Rightarrow> gmap option" where
  "as_map v = (case v of Some (GMap m) \<Rightarrow> Some m | _ \<Rightarrow> None)"

definition as_str :: "gval option \<Rightarrow> string option" where
  "as_str v = (case v of Some (GStr s) \<Rightarrow> Some s | _ \<Rightarrow> None)"

definition as_arr :: "gval option \<Rightarrow> gval list option" where
  "as_arr v = (case v of Some (GArr vs) \<Rightarrow> Some vs | _ \<Rightarrow> None)"

definition as_bool :: "gval option \<Rightarrow> bool option" where
  "as_bool v = (case v of Some (GBool b) \<Rightarrow> Some b | _ \<Rightarrow> None)"

lemmas as_defs = as_map_def as_str_def as_arr_def as_bool_def

section \<open>Marshalling and unmarshalling\<close>

fun to_json :: "gval \<Rightarrow> json" where
  "to_json GNil = JNull"
| "to_json (GBool b) = JBool b"
| "to_json (GInt i) = JNum i"
| "to_json (GFloat i) = JNum i"
| "to_json (GStr s) = JStr s"
| "to_json (GStrs None) = JNull"
| "to_json (GStrs (Some ss)) = JArr (map JStr ss)"
| "to_json (GArr vs) = JArr (map to_json vs)"
| "to_json (GMap m) = JObj (sort_key fst (map (\<lambda>e. (fst e, to_json (snd e))) m))"

fun of_json :: "json \<Rightarrow> gval" where
  "of_json JNull = GNil"
| "of_json (JBool b) = GBool b"
| "of_json (JNum i) = GFloat i"
| "of_json (JStr s) = GStr s"
| "of_json (JArr vs) = GArr (map of_json vs)"
| "of_json (JObj ms) =
    GMap (foldl (\<lambda>acc e. AList.update (fst e) (snd e) acc) [] (map (\<lambda>m. (fst m, of_json (snd m))) ms))"

fun gval_ok :: "gval \<Rightarrow> bool" where
  "gval_ok (GStr s) = utf8_valid s"
| "gval_ok (GStrs None) = True"
| "gval_ok (GStrs (Some ss)) = (\<forall>s \<in> set ss. utf8_valid s)"
| "gval_ok (GArr vs) = (\<forall>v \<in> set vs. gval_ok v)"
| "gval_ok (GMap m) = (distinct (map fst m) \<and> (\<forall>e \<in> set m. utf8_valid (fst e) \<and> gval_ok (snd e)))"
| "gval_ok _ = True"

text \<open>A canonical document: the members of every object in strictly increasing key order.\<close>

fun canonical :: "json \<Rightarrow> bool" where
  "canonical (JArr vs) = (\<forall>v \<in> set vs. canonical v)"
| "canonical (JObj ms) =
    (sorted (map fst ms) \<and> distinct (map fst ms) \<and> (\<forall>m \<in> set ms. canonical (snd m)))"
| "canonical _ = True"

lemma foldl_update_distinct:
  "distinct (map fst acc @ map fst ms) \<Longrightarrow>
    foldl (\<lambda>acc e. AList.update (fst e) (snd e) acc) acc ms = acc @ ms"
proof (induction ms arbitrary: acc)
  case Nil
  then show ?case by simp
next
  case (Cons m ms)
  have "AList.update (fst m) (snd m) acc = acc @ [m]" if "fst m \<notin> set (map fst acc)" for acc
    using that by (induction acc) auto
  with Cons show ?case by simp
qed

lemma map_fst_pair [simp]: "map fst (map (\<lambda>m. (fst m, f (snd m))) ms) = map fst ms"
  by simp

lemma of_json_obj:
  "distinct (map fst ms) \<Longrightarrow> of_json (JObj ms) = GMap (map (\<lambda>m. (fst m, of_json (snd m))) ms)"
  using foldl_update_distinct [of "[]" "map (\<lambda>m. (fst m, of_json (snd m))) ms"]
  by (simp add: comp_def)

lemma to_json_of_json: "canonical j \<Longrightarrow> to_json (of_json j) = j"
proof (induction j)
  case (JArr vs)
  then show ?case by (simp add: map_idI)
next
  case (JObj ms)
  let ?g = "map (\<lambda>m. (fst m, of_json (snd m))) ms"
  have ms: "map (\<lambda>e. (fst e, to_json (snd e))) ?g = ms"
    using JObj by (auto simp: comp_def intro!: map_idI)
  have "sort_key fst ms = ms" using JObj.prems by (simp add: sorted_sort_id sort_key_id_if_sorted)
  with ms show ?case using JObj.prems of_json_obj by (simp del: of_json.simps)
qed simp_all

lemma distinct_map_sort_key [simp]: "distinct (map f (sort_key g xs)) \<longleftrightarrow> distinct (map f xs)"
proof -
  have "mset (map f (sort_key g xs)) = mset (map f xs)" by simp
  then show ?thesis by (rule mset_eq_imp_distinct_iff)
qed

lemma canonical_to_json: "gval_ok g \<Longrightarrow> canonical (to_json g)"
proof (induction g rule: to_json.induct)
  case (7 ss)
  then show ?case by simp
next
  case (9 m)
  have "distinct (map fst (sort_key fst (map (\<lambda>e. (fst e, to_json (snd e))) m)))"
    using 9 by (simp add: comp_def)
  then show ?case using 9 by auto
qed simp_all

lemma json_ok_to_json: "gval_ok g \<Longrightarrow> json_ok (to_json g)"
  by (induction g rule: to_json.induct) auto

text \<open>What a map becomes when it is written and read back: keys sorted, integers as floats, native
  string slices as arrays.\<close>

definition gnorm :: "gval \<Rightarrow> gval" where
  "gnorm g = of_json (to_json g)"

lemma to_json_gnorm [simp]: "gval_ok g \<Longrightarrow> to_json (gnorm g) = to_json g"
  by (simp add: gnorm_def to_json_of_json canonical_to_json)

end
