(* ===== verification/GoTime.thy ===== *)
theory GoTime
  imports Prelude
begin

text \<open>
  Wall-clock instants in UTC, as the calendar fields that Go's \<^verbatim>\<open>time.Time\<close> formats, with the three
  layouts the program uses: \<^verbatim>\<open>RFC3339Nano\<close> (JSON), \<^verbatim>\<open>RFC3339\<close> and the millisecond layout of the
  signing payload. Every instant the program handles is in UTC, so \<^verbatim>\<open>Time.UTC\<close> is the identity; a
  timestamp with a numeric zone offset is rejected by the model's parser.
\<close>

record gtime =
  t_year :: nat
  t_month :: nat
  t_day :: nat
  t_hour :: nat
  t_min :: nat
  t_sec :: nat
  t_nano :: nat

definition zero_time :: gtime where
  "zero_time = \<lparr>t_year = 1, t_month = 1, t_day = 1, t_hour = 0, t_min = 0, t_sec = 0, t_nano = 0\<rparr>"

definition leap :: "nat \<Rightarrow> bool" where
  "leap y \<longleftrightarrow> y mod 4 = 0 \<and> (y mod 100 \<noteq> 0 \<or> y mod 400 = 0)"

definition days_in :: "nat \<Rightarrow> nat \<Rightarrow> nat" where
  "days_in m y =
    (if m = 2 then (if leap y then 29 else 28) else if m = 4 \<or> m = 6 \<or> m = 9 \<or> m = 11 then 30 else 31)"

definition time_ok :: "gtime \<Rightarrow> bool" where
  "time_ok t \<longleftrightarrow> t_year t \<le> 9999 \<and> 1 \<le> t_month t \<and> t_month t \<le> 12 \<and> 1 \<le> t_day t
    \<and> t_day t \<le> days_in (t_month t) (t_year t) \<and> t_hour t < 24 \<and> t_min t < 60 \<and> t_sec t < 60
    \<and> t_nano t < 1000000000"

text \<open>The order of instants, for \<^verbatim>\<open>Time.Before\<close> and \<^verbatim>\<open>Time.After\<close>.\<close>

definition time_key :: "gtime \<Rightarrow> nat list" where
  "time_key t = [t_year t, t_month t, t_day t, t_hour t, t_min t, t_sec t, t_nano t]"

definition time_before :: "gtime \<Rightarrow> gtime \<Rightarrow> bool" where
  "time_before a b \<longleftrightarrow> time_key a < time_key b"

text \<open>\<^verbatim>\<open>Time.UnixNano\<close> before its result is cut to 64 bits: days since 1970 by the civil calendar.\<close>

definition unix_days :: "gtime \<Rightarrow> int" where
  "unix_days t =
    (let y = int (t_year t) - (if t_month t \<le> 2 then 1 else 0);
         mp = (if 2 < t_month t then int (t_month t) - 3 else int (t_month t) + 9)
     in 365 * y + y div 4 - y div 100 + y div 400 + (153 * mp + 2) div 5 + int (t_day t) - 1 - 719468)"

definition unix_nanos :: "gtime \<Rightarrow> int" where
  "unix_nanos t =
    ((unix_days t * 24 + int (t_hour t)) * 3600 + int (t_min t) * 60 + int (t_sec t)) * 1000000000 + int (t_nano t)"

section \<open>Formatting\<close>

definition pad :: "nat \<Rightarrow> nat \<Rightarrow> string" where
  "pad k n = replicate (k - length (dec n)) (CHR ''0'') @ dec n"

definition strip0 :: "string \<Rightarrow> string" where
  "strip0 s = rev (dropWhile (\<lambda>c. c = CHR ''0'') (rev s))"

definition fmt_seconds :: "gtime \<Rightarrow> string" where
  "fmt_seconds t = pad 4 (t_year t) @ ''-'' @ pad 2 (t_month t) @ ''-'' @ pad 2 (t_day t) @ ''T''
    @ pad 2 (t_hour t) @ '':'' @ pad 2 (t_min t) @ '':'' @ pad 2 (t_sec t)"

definition fmt_rfc3339 :: "gtime \<Rightarrow> string" where
  "fmt_rfc3339 t = fmt_seconds t @ ''Z''"

definition fmt_rfc3339_nano :: "gtime \<Rightarrow> string" where
  "fmt_rfc3339_nano t = fmt_seconds t
    @ (if t_nano t = 0 then [] else CHR ''.'' # strip0 (pad 9 (t_nano t))) @ ''Z''"

definition fmt_millis :: "gtime \<Rightarrow> string" where
  "fmt_millis t = fmt_seconds t @ CHR ''.'' # pad 3 (t_nano t div 1000000) @ ''Z''"

section \<open>Parsing\<close>

definition num_at :: "nat \<Rightarrow> nat \<Rightarrow> string \<Rightarrow> nat" where
  "num_at i n s = undec (take n (drop i s))"

definition digits_at :: "nat \<Rightarrow> nat \<Rightarrow> string \<Rightarrow> bool" where
  "digits_at i n s \<longleftrightarrow> list_all is_digit (take n (drop i s))"

definition parse_frac :: "string \<Rightarrow> nat option" where
  "parse_frac r =
    (if r = ''Z'' then Some 0
     else if r \<noteq> [] \<and> hd r = CHR ''.'' then
       (let ds = takeWhile is_digit (tl r)
        in if ds \<noteq> [] \<and> dropWhile is_digit (tl r) = ''Z''
           then Some (undec (take 9 (ds @ replicate 9 (CHR ''0'')))) else None)
     else None)"

definition parse_rfc3339 :: "string \<Rightarrow> gtime option" where
  "parse_rfc3339 s =
    (if 20 \<le> length s \<and> digits_at 0 4 s \<and> digits_at 5 2 s \<and> digits_at 8 2 s \<and> digits_at 11 2 s
        \<and> digits_at 14 2 s \<and> digits_at 17 2 s \<and> s ! 4 = CHR ''-'' \<and> s ! 7 = CHR ''-''
        \<and> s ! 10 = CHR ''T'' \<and> s ! 13 = CHR '':'' \<and> s ! 16 = CHR '':''
     then (case parse_frac (drop 19 s) of
         None \<Rightarrow> None
       | Some ns \<Rightarrow>
          (let t = \<lparr>t_year = num_at 0 4 s, t_month = num_at 5 2 s, t_day = num_at 8 2 s,
                    t_hour = num_at 11 2 s, t_min = num_at 14 2 s, t_sec = num_at 17 2 s, t_nano = ns\<rparr>
           in if time_ok t then Some t else None))
     else None)"

section \<open>Formatted instants parse back\<close>

lemma replicate_zero_undec [simp]: "undec (replicate k (CHR ''0'') @ s) = undec s"
  by (induction k) (simp_all add: undec_Cons digit_val_def)

lemma undec_pad [simp]: "undec (pad k n) = n"
  by (simp add: pad_def)

lemma length_pad: "n < 10 ^ k \<Longrightarrow> 0 < k \<Longrightarrow> length (pad k n) = k"
  using length_dec_le [of n k] by (simp add: pad_def)

lemma pad_digits: "list_all is_digit (pad k n)"
  using dec_digits [of n] by (auto simp: pad_def list_all_iff is_digit_def)

lemma strip0_pad: obtains k where "s = strip0 s @ replicate k (CHR ''0'')"
proof -
  let ?z = "\<lambda>c. c = CHR ''0''"
  have "rev s = takeWhile ?z (rev s) @ dropWhile ?z (rev s)" by simp
  then have "s = strip0 s @ rev (takeWhile ?z (rev s))"
    by (metis rev_append rev_rev_ident strip0_def)
  moreover have "takeWhile ?z (rev s) = replicate (length (takeWhile ?z (rev s))) (CHR ''0'')"
    by (rule replicate_length_same [symmetric]) (auto dest: set_takeWhileD)
  ultimately have "s = strip0 s @ replicate (length (takeWhile ?z (rev s))) (CHR ''0'')"
    by (metis rev_replicate)
  then show thesis by (rule that)
qed

lemma parse_frac_nano:
  assumes "0 < n" "n < 1000000000"
  shows "parse_frac (CHR ''.'' # strip0 (pad 9 n) @ ''Z'') = Some n"
proof -
  let ?p = "pad 9 n" and ?f = "strip0 (pad 9 n)"
  have len: "length ?p = 9" using length_pad [of n 9] assms(2) by simp
  obtain k where k: "?p = ?f @ replicate k (CHR ''0'')" by (rule strip0_pad)
  have dig: "list_all is_digit ?f" using pad_digits [of 9 n] k by (metis list_all_append)
  have "?f \<noteq> []"
  proof
    assume "?f = []"
    with k have "undec ?p = undec (replicate k (CHR ''0'') @ [])" by simp
    with assms(1) show False by (simp only: replicate_zero_undec undec_pad) simp
  qed
  moreover have "takeWhile is_digit (?f @ ''Z'') = ?f" "dropWhile is_digit (?f @ ''Z'') = ''Z''"
    using dig by (auto simp: takeWhile_append dropWhile_append list_all_iff is_digit_def)
  moreover have "take 9 (?f @ replicate 9 (CHR ''0'')) = ?p"
  proof -
    have kf: "length ?f + k = 9" using len k by (metis length_append length_replicate)
    then have "?f @ replicate 9 (CHR ''0'') = ?p @ replicate (9 - k) (CHR ''0'')"
      using k by (metis append.assoc le_add2 le_add_diff_inverse replicate_add)
    then show ?thesis using len by simp
  qed
  ultimately show ?thesis by (simp add: parse_frac_def Let_def)
qed

lemma time_ok_bounds:
  assumes "time_ok t"
  shows "t_year t < 10 ^ 4" "t_month t < 10 ^ 2" "t_day t < 10 ^ 2" "t_hour t < 10 ^ 2"
    "t_min t < 10 ^ 2" "t_sec t < 10 ^ 2" "t_nano t < 10 ^ 9"
  using assms by (auto simp: time_ok_def days_in_def split: if_splits)

lemma fmt_seconds_fields:
  assumes "time_ok t"
  obtains y1 y2 y3 y4 m1 m2 d1 d2 h1 h2 i1 i2 s1 s2 where
    "pad 4 (t_year t) = [y1, y2, y3, y4]" "pad 2 (t_month t) = [m1, m2]" "pad 2 (t_day t) = [d1, d2]"
    "pad 2 (t_hour t) = [h1, h2]" "pad 2 (t_min t) = [i1, i2]" "pad 2 (t_sec t) = [s1, s2]"
proof -
  have two: "\<exists>a b. xs = [a, b]" if "length xs = 2" for xs :: string
    using that by (auto simp: numeral_2_eq_2 length_Suc_conv)
  have four: "\<exists>a b c d. xs = [a, b, c, d]" if "length xs = 4" for xs :: string
    using that by (auto simp: numeral_eq_Suc length_Suc_conv)
  note b = time_ok_bounds [OF assms]
  have "length (pad 4 (t_year t)) = 4" "length (pad 2 (t_month t)) = 2" "length (pad 2 (t_day t)) = 2"
    "length (pad 2 (t_hour t)) = 2" "length (pad 2 (t_min t)) = 2" "length (pad 2 (t_sec t)) = 2"
    using b by (auto intro!: length_pad)
  then show thesis using that two four by metis
qed

lemma parse_fmt_rfc3339_nano:
  assumes "time_ok t"
  shows "parse_rfc3339 (fmt_rfc3339_nano t) = Some t"
proof -
  obtain y1 y2 y3 y4 m1 m2 d1 d2 h1 h2 i1 i2 s1 s2 where f:
    "pad 4 (t_year t) = [y1, y2, y3, y4]" "pad 2 (t_month t) = [m1, m2]" "pad 2 (t_day t) = [d1, d2]"
    "pad 2 (t_hour t) = [h1, h2]" "pad 2 (t_min t) = [i1, i2]" "pad 2 (t_sec t) = [s1, s2]"
    by (rule fmt_seconds_fields [OF assms])
  let ?r = "(if t_nano t = 0 then [] else CHR ''.'' # strip0 (pad 9 (t_nano t))) @ ''Z''"
  have dig: "list_all is_digit [y1, y2, y3, y4]" "list_all is_digit [m1, m2]" "list_all is_digit [d1, d2]"
    "list_all is_digit [h1, h2]" "list_all is_digit [i1, i2]" "list_all is_digit [s1, s2]"
    using f pad_digits by metis+
  have num: "undec [y1, y2, y3, y4] = t_year t" "undec [m1, m2] = t_month t" "undec [d1, d2] = t_day t"
    "undec [h1, h2] = t_hour t" "undec [i1, i2] = t_min t" "undec [s1, s2] = t_sec t"
    using f undec_pad by metis+
  have txt': "fmt_rfc3339_nano t = [y1, y2, y3, y4, CHR ''-'', m1, m2, CHR ''-'', d1, d2, CHR ''T'',
      h1, h2, CHR '':'', i1, i2, CHR '':'', s1, s2] @ ?r"
    by (simp add: fmt_rfc3339_nano_def fmt_seconds_def f)
  have "t_nano t < 1000000000" using assms by (simp add: time_ok_def)
  then have fr: "parse_frac ?r = Some (t_nano t)"
    using parse_frac_nano [of "t_nano t"] by (simp add: parse_frac_def)
  have "time_ok \<lparr>t_year = t_year t, t_month = t_month t, t_day = t_day t, t_hour = t_hour t,
      t_min = t_min t, t_sec = t_sec t, t_nano = t_nano t\<rparr>"
    using assms by (simp add: time_ok_def)
  moreover have "1 \<le> length ?r" by simp
  ultimately show ?thesis
    unfolding txt' parse_rfc3339_def
    using fr dig num assms by (simp add: digits_at_def num_at_def nth_append Let_def)
qed

lemma pad_ascii: "x \<in> set (pad k n) \<Longrightarrow> byte x < 128"
  using pad_digits [of k n] by (auto simp: list_all_iff is_digit_def)

lemma fmt_seconds_ascii: "x \<in> set (fmt_seconds t) \<Longrightarrow> byte x < 128"
  using pad_ascii by (auto simp: fmt_seconds_def)

lemma fmt_rfc3339_ascii: "x \<in> set (fmt_rfc3339 t) \<Longrightarrow> byte x < 128"
  using fmt_seconds_ascii by (auto simp: fmt_rfc3339_def)

lemma fmt_rfc3339_nano_ascii: "x \<in> set (fmt_rfc3339_nano t) \<Longrightarrow> byte x < 128"
proof -
  have s: "y \<in> set s" if "y \<in> set (strip0 s)" for y s
    using that unfolding strip0_def using set_dropWhileD by fastforce
  assume "x \<in> set (fmt_rfc3339_nano t)"
  then show "byte x < 128"
    by (auto simp: fmt_rfc3339_nano_def split: if_splits dest!: s pad_ascii fmt_seconds_ascii)
qed

end
