(* ===== verification/Structs.thy ===== *)
theory Structs
  imports Gval GoTime
begin

text \<open>
  Encoding and decoding of Go structs by \<^verbatim>\<open>encoding/json\<close>. A struct is written as an object with one
  member per field in declaration order, an \<^verbatim>\<open>omitempty\<close> field only when it is not empty. Reading an
  object assigns its members to the fields in textual order; a member matches a field when the names
  agree up to ASCII case, \<^verbatim>\<open>null\<close> leaves a scalar field as it is, members that match no field are
  ignored, and a member of the wrong type makes the whole decoding fail.
\<close>

definition omit :: "bool \<Rightarrow> string \<Rightarrow> json \<Rightarrow> (string \<times> json) list" where
  "omit e n v = (if e then [] else [(n, v)])"

definition members :: "string \<Rightarrow> (string \<times> json) list \<Rightarrow> json list" where
  "members n ms = map snd (filter (\<lambda>m. to_lower (fst m) = to_lower n) ms)"

fun assign :: "('a \<Rightarrow> json \<Rightarrow> 'a option) \<Rightarrow> 'a \<Rightarrow> json list \<Rightarrow> 'a option" where
  "assign f x [] = Some x"
| "assign f x (v # vs) = (case f x v of None \<Rightarrow> None | Some y \<Rightarrow> assign f y vs)"

definition field :: "('a \<Rightarrow> json \<Rightarrow> 'a option) \<Rightarrow> 'a \<Rightarrow> string \<Rightarrow> (string \<times> json) list \<Rightarrow> 'a option" where
  "field f x n ms = assign f x (members n ms)"

lemma members_Nil [simp]: "members n [] = []"
  by (simp add: members_def)

lemma members_append [simp]: "members n (a @ b) = members n a @ members n b"
  by (simp add: members_def)

lemma members_Cons:
  "members n ((k, v) # ms) = (if to_lower k = to_lower n then v # members n ms else members n ms)"
  by (simp add: members_def)

lemma members_omit:
  "members n (omit e k v) = (if \<not> e \<and> to_lower k = to_lower n then [v] else [])"
  by (simp add: members_def omit_def)

lemmas member_simps = members_Cons members_omit to_lower_def lower_char_def

section \<open>Field types\<close>

definition d_str :: "string \<Rightarrow> json \<Rightarrow> string option" where
  "d_str x v = (case v of JStr s \<Rightarrow> Some s | JNull \<Rightarrow> Some x | _ \<Rightarrow> None)"

definition d_bool :: "bool \<Rightarrow> json \<Rightarrow> bool option" where
  "d_bool x v = (case v of JBool b \<Rightarrow> Some b | JNull \<Rightarrow> Some x | _ \<Rightarrow> None)"

definition int64 :: "int \<Rightarrow> bool" where
  "int64 i \<longleftrightarrow> - (2 ^ 63) \<le> i \<and> i < 2 ^ 63"

definition d_int :: "int \<Rightarrow> json \<Rightarrow> int option" where
  "d_int x v = (case v of JNum i \<Rightarrow> if int64 i then Some i else None | JNull \<Rightarrow> Some x | _ \<Rightarrow> None)"

definition d_int_ptr :: "int option \<Rightarrow> json \<Rightarrow> int option option" where
  "d_int_ptr x v =
    (case v of JNum i \<Rightarrow> if int64 i then Some (Some i) else None | JNull \<Rightarrow> Some None | _ \<Rightarrow> None)"

fun str_elems :: "json list \<Rightarrow> string list option" where
  "str_elems [] = Some []"
| "str_elems (v # vs) =
    (case v of
       JStr s \<Rightarrow> map_option ((#) s) (str_elems vs)
     | JNull \<Rightarrow> map_option ((#) []) (str_elems vs)
     | _ \<Rightarrow> None)"

definition d_strs :: "string list \<Rightarrow> json \<Rightarrow> string list option" where
  "d_strs x v = (case v of JArr vs \<Rightarrow> str_elems vs | JNull \<Rightarrow> Some [] | _ \<Rightarrow> None)"

definition d_map :: "gmap option \<Rightarrow> json \<Rightarrow> gmap option option" where
  "d_map x v = (case v of
     JObj ms \<Rightarrow>
       Some (Some (foldl (\<lambda>acc e. AList.update (fst e) (snd e) acc)
         (case x of None \<Rightarrow> [] | Some m \<Rightarrow> m) (map (\<lambda>m. (fst m, of_json (snd m))) ms)))
   | JNull \<Rightarrow> Some None
   | _ \<Rightarrow> None)"

definition d_time :: "gtime \<Rightarrow> json \<Rightarrow> gtime option" where
  "d_time x v = (case v of JStr s \<Rightarrow> parse_rfc3339 s | JNull \<Rightarrow> Some x | _ \<Rightarrow> None)"

lemma str_elems_map [simp]: "str_elems (map JStr ss) = Some ss"
  by (induction ss) auto

lemma d_str_JStr [simp]: "d_str x (JStr s) = Some s"
  by (simp add: d_str_def)

lemma d_bool_JBool [simp]: "d_bool x (JBool b) = Some b"
  by (simp add: d_bool_def)

lemma d_int_JNum [simp]: "int64 i \<Longrightarrow> d_int x (JNum i) = Some i"
  by (simp add: d_int_def)

lemma d_strs_JArr [simp]: "d_strs x (JArr (map JStr ss)) = Some ss"
  by (simp add: d_strs_def)

lemma d_time_JStr [simp]: "time_ok t \<Longrightarrow> d_time x (JStr (fmt_rfc3339_nano t)) = Some t"
  by (simp add: d_time_def parse_fmt_rfc3339_nano)

text \<open>A map field: \<^const>\<open>None\<close> is the nil map and is written as \<^verbatim>\<open>null\<close>.\<close>

definition map_json :: "gmap option \<Rightarrow> json" where
  "map_json m = (case m of None \<Rightarrow> JNull | Some kvs \<Rightarrow> to_json (GMap kvs))"

definition map_ok :: "gmap option \<Rightarrow> bool" where
  "map_ok m \<longleftrightarrow> (case m of None \<Rightarrow> True | Some kvs \<Rightarrow> gval_ok (GMap kvs))"

definition map_norm :: "gmap option \<Rightarrow> gmap option" where
  "map_norm m = (case m of
     None \<Rightarrow> None
   | Some kvs \<Rightarrow> (case gnorm (GMap kvs) of GMap kvs' \<Rightarrow> Some kvs' | _ \<Rightarrow> None))"

lemma d_map_map_json: "d_map None (map_json m) = Some (map_norm m)"
  by (cases m) (simp_all add: d_map_def map_json_def map_norm_def gnorm_def)

lemma map_json_norm [simp]: "map_ok m \<Longrightarrow> map_json (map_norm m) = map_json m"
proof (cases m)
  case None
  then show ?thesis by (simp add: map_norm_def)
next
  case (Some kvs)
  assume "map_ok m"
  with Some have "to_json (gnorm (GMap kvs)) = to_json (GMap kvs)"
    by (intro to_json_gnorm) (simp add: map_ok_def)
  moreover obtain kvs' where "gnorm (GMap kvs) = GMap kvs'" by (simp add: gnorm_def)
  ultimately show ?thesis using Some by (simp add: map_norm_def map_json_def)
qed

lemma json_ok_map_json: "map_ok m \<Longrightarrow> json_ok (map_json m)"
  by (cases m) (simp_all only: map_ok_def map_json_def option.case json_ok_to_json json_ok.simps)

end
