(* ===== verification/Invocation.thy ===== *)
theory Invocation
  imports Structs
begin

text \<open>
  \<^verbatim>\<open>pkg/invocation\<close>: the request every evaluation path starts from, and its structural validation.
\<close>

record actor =
  a_type :: string
  a_id :: string
  a_origin :: string

record tool_invocation =
  ti_actor :: actor
  ti_tool :: string
  ti_operation :: string
  ti_params :: "gmap option"
  ti_context :: "gmap option"
  ti_environment :: string

definition KeyTarget :: string where "KeyTarget = ''target''"
definition KeyPayload :: string where "KeyPayload = ''payload''"
definition KeyRiskTags :: string where "KeyRiskTags = ''risk_tags''"
definition KeyScenarioID :: string where "KeyScenarioID = ''scenario_id''"
definition KeyAction :: string where "KeyAction = ''action''"
definition KeySource :: string where "KeySource = ''source''"
definition KeyIntent :: string where "KeyIntent = ''intent''"

lemmas key_defs = KeyTarget_def KeyPayload_def KeyRiskTags_def KeyScenarioID_def KeyAction_def
  KeySource_def KeyIntent_def

definition allowedParamKeys :: "string list" where
  "allowedParamKeys = [KeyTarget, KeyPayload, KeyRiskTags, KeyScenarioID, KeyAction]"

text \<open>The errors of \<^verbatim>\<open>ValidateStructure\<close>, one constructor per message form.\<close>

datatype inv_err =
    Required string
  | MustBeObject string
  | RiskTagsNotList
  | UnknownKey string string

definition validateMap :: "gmap \<Rightarrow> string \<Rightarrow> inv_err option" where
  "validateMap params key = (case gget params key of
     None \<Rightarrow> None
   | Some GNil \<Rightarrow> None
   | Some (GMap _) \<Rightarrow> None
   | Some _ \<Rightarrow> Some (MustBeObject key))"

definition is_gstr :: "gval \<Rightarrow> bool" where
  "is_gstr v \<longleftrightarrow> (case v of GStr _ \<Rightarrow> True | _ \<Rightarrow> False)"

definition validateRiskTags :: "gval option \<Rightarrow> inv_err option" where
  "validateRiskTags val = (case val of
     None \<Rightarrow> None
   | Some GNil \<Rightarrow> None
   | Some (GStrs _) \<Rightarrow> None
   | Some (GArr vs) \<Rightarrow> if list_all is_gstr vs then None else Some RiskTagsNotList
   | Some _ \<Rightarrow> Some RiskTagsNotList)"

fun rejectUnknownKeys :: "gmap \<Rightarrow> string list \<Rightarrow> string \<Rightarrow> inv_err option" where
  "rejectUnknownKeys [] allowed section = None"
| "rejectUnknownKeys ((k, v) # m) allowed section =
    (if k \<notin> set allowed then Some (UnknownKey section k) else rejectUnknownKeys m allowed section)"

text \<open>The first error of a sequence of checks.\<close>

fun first_err :: "'e option list \<Rightarrow> 'e option" where
  "first_err [] = None"
| "first_err (e # es) = (case e of Some x \<Rightarrow> Some x | None \<Rightarrow> first_err es)"

definition ValidateStructure :: "tool_invocation \<Rightarrow> inv_err option" where
  "ValidateStructure ti =
    (if a_type (ti_actor ti) = [] then Some (Required ''actor.type'')
     else if a_id (ti_actor ti) = [] then Some (Required ''actor.id'')
     else if a_origin (ti_actor ti) = [] then Some (Required ''actor.origin'')
     else if ti_tool ti = [] then Some (Required ''tool'')
     else if ti_operation ti = [] then Some (Required ''operation'')
     else (case ti_params ti of
        None \<Rightarrow> Some (Required ''params'')
      | Some params \<Rightarrow>
         first_err
          [validateMap params KeyTarget, validateMap params KeyPayload, validateMap params KeyAction,
           validateRiskTags (gget params KeyRiskTags),
           rejectUnknownKeys params allowedParamKeys ''params'']))"

section \<open>What validation guarantees\<close>

text \<open>The specification: the shape of a request the evaluators accept.\<close>

definition object_or_absent :: "gval option \<Rightarrow> bool" where
  "object_or_absent v \<longleftrightarrow> v = None \<or> v = Some GNil \<or> (\<exists>m. v = Some (GMap m))"

definition string_list_or_absent :: "gval option \<Rightarrow> bool" where
  "string_list_or_absent v \<longleftrightarrow> v = None \<or> v = Some GNil \<or> (\<exists>ss. v = Some (GStrs ss))
    \<or> (\<exists>vs. v = Some (GArr vs) \<and> (\<forall>x \<in> set vs. \<exists>s. x = GStr s))"

definition well_formed_request :: "tool_invocation \<Rightarrow> bool" where
  "well_formed_request ti \<longleftrightarrow>
    a_type (ti_actor ti) \<noteq> [] \<and> a_id (ti_actor ti) \<noteq> [] \<and> a_origin (ti_actor ti) \<noteq> []
    \<and> ti_tool ti \<noteq> [] \<and> ti_operation ti \<noteq> []
    \<and> (\<exists>m. ti_params ti = Some m \<and> object_or_absent (gget m KeyTarget)
        \<and> object_or_absent (gget m KeyPayload) \<and> object_or_absent (gget m KeyAction)
        \<and> string_list_or_absent (gget m KeyRiskTags) \<and> fst ` set m \<subseteq> set allowedParamKeys)"

lemma validateMap_None: "validateMap m k = None \<longleftrightarrow> object_or_absent (gget m k)"
  by (auto simp: validateMap_def object_or_absent_def split: option.splits gval.splits)

lemma is_gstr_iff: "is_gstr v \<longleftrightarrow> (\<exists>s. v = GStr s)"
  by (cases v) (auto simp: is_gstr_def)

lemma validateRiskTags_None: "validateRiskTags v = None \<longleftrightarrow> string_list_or_absent v"
  by (auto simp: validateRiskTags_def string_list_or_absent_def list_all_iff is_gstr_iff
      split: option.splits gval.splits if_splits)

lemma rejectUnknownKeys_None: "rejectUnknownKeys m allowed sec = None \<longleftrightarrow> fst ` set m \<subseteq> set allowed"
  by (induction m allowed sec rule: rejectUnknownKeys.induct) auto

lemma first_err_None: "first_err es = None \<longleftrightarrow> (\<forall>e \<in> set es. e = None)"
  by (induction es) (auto split: option.splits)

lemma ValidateStructure_None: "ValidateStructure ti = None \<longleftrightarrow> well_formed_request ti"
  by (cases "ti_params ti")
    (auto simp: ValidateStructure_def well_formed_request_def first_err_None validateMap_None
      validateRiskTags_None rejectUnknownKeys_None simp del: first_err.simps)

end
