(* ===== verification/Policy.thy ===== *)
theory Policy
  imports Invocation
begin

text \<open>
  \<^verbatim>\<open>pkg/policy\<close>, \<^verbatim>\<open>pkg/runtime\<close> and \<^verbatim>\<open>internal/engine\<close>: preparing the policy query and turning its result
  into a decision. The query engine is third-party code and a parameter: \<open>prepare\<close> compiles the
  modules (in name order) with the data document into a query, and a query maps an input document to
  an error or to the values of the expressions of each result.
\<close>

type_synonym opa_query = "gval \<Rightarrow> string + gval list list"
type_synonym opa_prepare = "(string \<times> string) list \<Rightarrow> gmap option \<Rightarrow> string + opa_query"

record decision =
  dc_allow :: bool
  dc_risk_level :: string
  dc_reason :: string
  dc_policy_ref :: string
  dc_bundle_revision :: string
  dc_profile_name :: string
  dc_reasons :: "string list"
  dc_hints :: "string list"
  dc_hits :: "string list"

datatype pol_err =
    PInvalidAction
  | PEval string
  | PMalformed string
  | PLoad string

definition zero_decision :: decision where
  "zero_decision = \<lparr>dc_allow = False, dc_risk_level = [], dc_reason = [], dc_policy_ref = [],
     dc_bundle_revision = [], dc_profile_name = [], dc_reasons = [], dc_hints = [], dc_hits = []\<rparr>"

definition refusal :: "string \<Rightarrow> decision" where
  "refusal reason = zero_decision\<lparr>dc_risk_level := ''high'', dc_reason := reason\<rparr>"

section \<open>The engine\<close>

definition is_test_module :: "string \<Rightarrow> bool" where
  "is_test_module name \<longleftrightarrow> prefix ''tests/'' name \<or> contains_str name ''/tests/''"

definition NewOPAEngine :: "opa_prepare \<Rightarrow> (string \<times> string) list \<Rightarrow> string \<Rightarrow> pol_err + opa_query" where
  "NewOPAEngine prepare policyModules dataBytes =
    (if policyModules = [] then Inl (PLoad ''policy source contains no modules'')
     else
       (let filtered = filter (\<lambda>m. \<not> is_test_module (fst m)) policyModules;
            modules = sort_key fst (if filtered \<noteq> [] \<and> length filtered < length policyModules
                                    then filtered else policyModules);
            parsed = (if dataBytes = [] then Some None
                      else (case json_parse dataBytes of
                          None \<Rightarrow> None
                        | Some v \<Rightarrow> (case d_map None v of
                              None \<Rightarrow> None
                            | Some m \<Rightarrow> Some (Some (case m of None \<Rightarrow> [] | Some kvs \<Rightarrow> kvs)))))
        in case parsed of
             None \<Rightarrow> Inl (PLoad ''parse policy data JSON'')
           | Some dataObj \<Rightarrow> (case prepare modules dataObj of
               Inl _ \<Rightarrow> Inl (PLoad ''prepare policy query'')
             | Inr q \<Rightarrow> Inr q)))"

definition isMCPOrigin :: "string \<Rightarrow> bool" where
  "isMCPOrigin origin \<longleftrightarrow> origin = ''mcp'' \<or> origin = ''mcp-server''"

definition normalizeAction :: "gval \<Rightarrow> gmap option" where
  "normalizeAction raw = as_map (Some raw)"

definition buildActionList :: "gmap option \<Rightarrow> string \<Rightarrow> pol_err + gmap list" where
  "buildActionList params origin = (case params of
     None \<Rightarrow> Inr []
   | Some m \<Rightarrow>
       (case Option.bind (gget m ''action'') normalizeAction of
          Some action \<Rightarrow> Inr [action]
        | None \<Rightarrow>
            (case gget m ''actions'' of
               None \<Rightarrow> Inr []
             | Some raw \<Rightarrow>
                 if isMCPOrigin origin then Inl PInvalidAction
                 else (case as_arr (Some raw) of
                     None \<Rightarrow> Inr []
                   | Some arr \<Rightarrow> Inr (List.map_filter normalizeAction arr)))))"

definition gmap_val :: "gmap option \<Rightarrow> gval" where
  "gmap_val m = (case m of None \<Rightarrow> GNil | Some kvs \<Rightarrow> GMap kvs)"

definition opa_input :: "tool_invocation \<Rightarrow> gmap list \<Rightarrow> gval" where
  "opa_input ti actions = GMap
    ([(''actor'', GMap [(''type'', GStr (a_type (ti_actor ti))), (''id'', GStr (a_id (ti_actor ti))),
                        (''origin'', GStr (a_origin (ti_actor ti)))]),
      (''tool'', GStr (ti_tool ti)), (''operation'', GStr (ti_operation ti)),
      (''params'', gmap_val (ti_params ti)), (''context'', gmap_val (ti_context ti))]
     @ (if actions = [] then [] else [(''actions'', GArr (map GMap actions))])
     @ (if ti_environment ti = [] then [] else [(''environment'', GStr (ti_environment ti))]))"

definition isValidRiskLevel :: "string \<Rightarrow> bool" where
  "isValidRiskLevel level \<longleftrightarrow> level = ''high'' \<or> level = ''medium'' \<or> level = ''low''"

definition nonempty_str :: "gval \<Rightarrow> string option" where
  "nonempty_str v = (case v of GStr s \<Rightarrow> if s = [] then None else Some s | _ \<Rightarrow> None)"

definition readStringSlice :: "gmap \<Rightarrow> string \<Rightarrow> string list option" where
  "readStringSlice m key = map_option (List.map_filter nonempty_str) (as_arr (gget m key))"

definition decode_decision :: "gmap \<Rightarrow> decision \<times> pol_err option" where
  "decode_decision out =
    (let dec0 = refusal ''policy_evaluation_failed'' in
     case as_bool (gget out ''allow'') of
       None \<Rightarrow> (dec0, Some (PMalformed ''allow''))
     | Some allow \<Rightarrow>
        (case as_str (gget out ''reason'') of
           None \<Rightarrow> (dec0, Some (PMalformed ''reason''))
         | Some reason \<Rightarrow>
            if reason = [] then (dec0, Some (PMalformed ''reason''))
            else (case as_str (gget out ''risk_level'') of
               None \<Rightarrow> (dec0, Some (PMalformed ''risk_level''))
             | Some riskLevel \<Rightarrow>
                if \<not> isValidRiskLevel riskLevel then (dec0, Some (PMalformed ''risk_level''))
                else
                  (let opt = (\<lambda>key. case readStringSlice out key of None \<Rightarrow> [] | Some ss \<Rightarrow> ss);
                       reasons = opt ''reasons''
                   in (dec0\<lparr>dc_allow := allow, dc_risk_level := riskLevel, dc_reason := reason,
                            dc_reasons := (if reasons = [] \<and> reason \<noteq> [] then [reason] else reasons),
                            dc_hints := opt ''hints'', dc_hits := opt ''hits''\<rparr>, None)))))"

definition Engine_Evaluate :: "opa_query \<Rightarrow> tool_invocation \<Rightarrow> decision \<times> pol_err option" where
  "Engine_Evaluate query ti = (case buildActionList (ti_params ti) (a_origin (ti_actor ti)) of
     Inl err \<Rightarrow> (refusal ''invalid_input'', Some err)
   | Inr actions \<Rightarrow> (case query (opa_input ti actions) of
       Inl msg \<Rightarrow> (refusal ''policy_evaluation_failed'', Some (PEval msg))
     | Inr results \<Rightarrow>
         if results = [] \<or> hd results = [] then
           (refusal ''policy_evaluation_failed'', Some (PMalformed ''policy decision not found''))
         else (case hd (hd results) of
             GMap out \<Rightarrow> decode_decision out
           | _ \<Rightarrow> (refusal ''policy_evaluation_failed'', Some (PMalformed ''policy decision has invalid type'')))))"

section \<open>The evaluator and the adapter\<close>

text \<open>What a \<^verbatim>\<open>PolicySource\<close> returns.\<close>

record policy_source =
  ps_load_policy :: "pol_err + (string \<times> string) list"
  ps_load_data :: "pol_err + string"
  ps_policy_ref :: "pol_err + string"
  ps_bundle_revision :: string
  ps_profile_name :: string

record evaluator =
  ev_engine :: opa_query
  ev_policy_ref :: string
  ev_bundle_revision :: string
  ev_profile_name :: string

definition NewEvaluator :: "opa_prepare \<Rightarrow> policy_source \<Rightarrow> pol_err + evaluator" where
  "NewEvaluator prepare src =
    bind_res (ps_load_policy src) (\<lambda>modules.
    bind_res (ps_load_data src) (\<lambda>dataBytes.
    bind_res (NewOPAEngine prepare modules dataBytes) (\<lambda>eng.
    bind_res (ps_policy_ref src) (\<lambda>ref.
    Inr \<lparr>ev_engine = eng, ev_policy_ref = ref, ev_bundle_revision = ps_bundle_revision src,
         ev_profile_name = ps_profile_name src\<rparr>))))"

definition EvaluateInvocation :: "evaluator \<Rightarrow> tool_invocation \<Rightarrow> pol_err + decision" where
  "EvaluateInvocation ev ti = (case Engine_Evaluate (ev_engine ev) ti of
     (_, Some err) \<Rightarrow> Inl err
   | (d, None) \<Rightarrow> Inr (d\<lparr>dc_policy_ref := ev_policy_ref ev, dc_bundle_revision := ev_bundle_revision ev,
                         dc_profile_name := ev_profile_name ev\<rparr>))"

datatype engine_err = EngInvalid inv_err | EngPolicy pol_err

definition Adapter_Evaluate :: "evaluator \<Rightarrow> tool_invocation \<Rightarrow> engine_err + decision" where
  "Adapter_Evaluate ev ti = (case ValidateStructure ti of
     Some err \<Rightarrow> Inl (EngInvalid err)
   | None \<Rightarrow> (case EvaluateInvocation ev ti of Inl err \<Rightarrow> Inl (EngPolicy err) | Inr d \<Rightarrow> Inr d))"

section \<open>Fail-closed evaluation\<close>

lemma decode_decision_fail_closed:
  "decode_decision out = (d, Some err) \<Longrightarrow> \<not> dc_allow d \<and> dc_risk_level d = ''high''"
  by (auto simp: decode_decision_def Let_def refusal_def zero_decision_def split: option.splits if_splits)

lemma Engine_Evaluate_fail_closed:
  "Engine_Evaluate q ti = (d, Some err) \<Longrightarrow> \<not> dc_allow d \<and> dc_risk_level d = ''high''"
  by (auto simp: Engine_Evaluate_def refusal_def zero_decision_def
      dest!: decode_decision_fail_closed split: sum.splits if_splits gval.splits)

text \<open>The document of a decision that is accepted, field by field.\<close>

definition well_formed_decision :: "gmap \<Rightarrow> bool \<Rightarrow> string \<Rightarrow> string \<Rightarrow> bool" where
  "well_formed_decision out allow reason risk \<longleftrightarrow> gget out ''allow'' = Some (GBool allow)
    \<and> gget out ''reason'' = Some (GStr reason) \<and> reason \<noteq> []
    \<and> gget out ''risk_level'' = Some (GStr risk) \<and> risk \<in> {''high'', ''medium'', ''low''}"

lemma as_bool_Some [simp]: "as_bool v = Some b \<longleftrightarrow> v = Some (GBool b)"
  by (auto simp: as_bool_def split: option.splits gval.splits)

lemma as_str_Some [simp]: "as_str v = Some s \<longleftrightarrow> v = Some (GStr s)"
  by (auto simp: as_str_def split: option.splits gval.splits)

lemma decode_decision_ok:
  assumes "decode_decision out = (d, None)"
  shows "well_formed_decision out (dc_allow d) (dc_reason d) (dc_risk_level d)" "dc_reasons d \<noteq> []"
proof -
  obtain allow where a: "as_bool (gget out ''allow'') = Some allow"
    using assms by (cases "as_bool (gget out ''allow'')") (simp_all add: decode_decision_def)
  obtain reason where r: "as_str (gget out ''reason'') = Some reason"
    using assms a by (cases "as_str (gget out ''reason'')") (simp_all add: decode_decision_def)
  have ne: "reason \<noteq> []" using assms unfolding decode_decision_def a r by (auto simp: Let_def)
  obtain risk where k: "as_str (gget out ''risk_level'') = Some risk"
    using assms a r ne by (cases "as_str (gget out ''risk_level'')") (simp_all add: decode_decision_def)
  have v: "isValidRiskLevel risk"
    using assms ne unfolding decode_decision_def a r k by (cases "isValidRiskLevel risk") (auto simp: Let_def)
  have d: "dc_allow d = allow" "dc_reason d = reason" "dc_risk_level d = risk" "dc_reasons d \<noteq> []"
    using assms ne v unfolding decode_decision_def a r k by (auto simp: Let_def split: if_splits)
  show "well_formed_decision out (dc_allow d) (dc_reason d) (dc_risk_level d)"
    using a r ne k v d by (simp add: well_formed_decision_def isValidRiskLevel_def)
  show "dc_reasons d \<noteq> []" by (fact d)
qed

lemma decode_decision_accepts:
  assumes "well_formed_decision out allow reason risk"
  shows "\<exists>d. decode_decision out = (d, None) \<and> dc_allow d = allow \<and> dc_reason d = reason \<and> dc_risk_level d = risk"
  using assms
  by (auto simp: decode_decision_def Let_def well_formed_decision_def isValidRiskLevel_def as_bool_def as_str_def)

lemma Engine_Evaluate_ok:
  assumes "Engine_Evaluate q ti = (d, None)"
  obtains actions out rest more where "buildActionList (ti_params ti) (a_origin (ti_actor ti)) = Inr actions"
    "q (opa_input ti actions) = Inr ((GMap out # rest) # more)" "decode_decision out = (d, None)"
proof -
  obtain actions where a: "buildActionList (ti_params ti) (a_origin (ti_actor ti)) = Inr actions"
    using assms by (auto simp: Engine_Evaluate_def split: sum.splits)
  obtain results where r: "q (opa_input ti actions) = Inr results"
    using assms a by (auto simp: Engine_Evaluate_def split: sum.splits)
  have ne: "results \<noteq> []" "hd results \<noteq> []"
    using assms a r by (auto simp: Engine_Evaluate_def split: if_splits)
  then obtain out where o: "hd (hd results) = GMap out" "decode_decision out = (d, None)"
    using assms a r by (cases "hd (hd results)") (auto simp: Engine_Evaluate_def)
  have "results = (GMap out # tl (hd results)) # tl results"
    using ne o(1) by (metis list.collapse)
  with a r o(2) show ?thesis by (intro that [of actions out "tl (hd results)" "tl results"]) simp_all
qed

lemma EvaluateInvocation_ok:
  "EvaluateInvocation ev ti = Inr d \<longleftrightarrow> (\<exists>d0. Engine_Evaluate (ev_engine ev) ti = (d0, None)
    \<and> d = d0\<lparr>dc_policy_ref := ev_policy_ref ev, dc_bundle_revision := ev_bundle_revision ev,
             dc_profile_name := ev_profile_name ev\<rparr>)"
  by (auto simp: EvaluateInvocation_def split: prod.splits option.splits)

lemma EvaluateInvocation_reasons: "EvaluateInvocation ev ti = Inr d \<Longrightarrow> dc_reasons d \<noteq> []"
  by (auto simp: EvaluateInvocation_ok elim!: Engine_Evaluate_ok dest: decode_decision_ok(2))

lemma readStringSlice_nonempty: "readStringSlice m k = Some ss \<Longrightarrow> [] \<notin> set ss"
proof -
  have "[] \<notin> set (List.map_filter nonempty_str vs)" for vs
    by (induction vs) (auto simp: List.map_filter_simps nonempty_str_def split: gval.splits if_splits option.splits)
  then show "readStringSlice m k = Some ss \<Longrightarrow> [] \<notin> set ss"
    by (auto simp: readStringSlice_def)
qed

end
