(* ===== verification/GoInt.thy ===== *)
theory GoInt
  imports Structs "HOL-Library.Word"
begin

text \<open>
  Go's 64-bit integers: wrap-around of a product, and the decimal parser \<^verbatim>\<open>strconv.ParseInt(s, 10, 64)\<close>
  (also \<^verbatim>\<open>strconv.Atoi\<close>), which fails on anything but an optional sign and digits, and on values out
  of range.
\<close>

definition wrap64 :: "int \<Rightarrow> int" where
  "wrap64 i = sint (word_of_int i :: 64 word)"

definition parse_int :: "string \<Rightarrow> int option" where
  "parse_int s =
    (let neg = (s \<noteq> [] \<and> hd s = CHR ''-'');
         ds = (if s \<noteq> [] \<and> (hd s = CHR ''-'' \<or> hd s = CHR ''+'') then tl s else s);
         v = (if neg then - int (undec ds) else int (undec ds))
     in if ds \<noteq> [] \<and> list_all is_digit ds \<and> int64 v then Some v else None)"

lemma wrap64_range: "int64 (wrap64 i)"
  using sint_ge [of "word_of_int i :: 64 word"] sint_lt [of "word_of_int i :: 64 word"]
  by (simp add: int64_def wrap64_def)

lemma wrap64_id: "int64 i \<Longrightarrow> wrap64 i = i"
  using signed_take_bit_int_eq_self [of 63 i] by (simp add: wrap64_def int64_def signed_of_int)

lemma is_digit_no_sign: "is_digit c \<Longrightarrow> c \<noteq> CHR ''-'' \<and> c \<noteq> CHR ''+''"
  by (auto simp: is_digit_def)

lemma parse_int_itoa: "int64 i \<Longrightarrow> parse_int (itoa i) = Some i"
proof -
  assume i: "int64 i"
  have hd: "is_digit (hd (dec n))" for n
    using dec_digits [of n] by (cases "dec n") auto
  show ?thesis
    using i is_digit_no_sign [OF hd] dec_digits by (simp add: parse_int_def itoa_def Let_def)
qed

lemma parse_int_range: "parse_int s = Some i \<Longrightarrow> int64 i"
  by (auto simp: parse_int_def Let_def split: if_splits)

end
