(* ===== verification/FileSystem.thy ===== *)
theory FileSystem
  imports Prelude "HOL-Library.AList"
begin

text \<open>
  Paths and files. A \<open>path\<close> is a cleaned path of Go's \<^verbatim>\<open>filepath\<close> package on a Unix system: whether it
  is rooted, and its components; \<open>clean_path\<close> is \<^verbatim>\<open>filepath.Clean\<close> and \<open>path_join\<close> is
  \<^verbatim>\<open>filepath.Join\<close> of a cleaned path and one more element. A file system maps paths to directories and
  regular files with their bytes, and has a predicate saying which operations the operating system
  refuses, so that every I/O error branch of the code can be taken. There are no symbolic links, and
  \<^verbatim>\<open>filepath.Glob\<close> is modelled for a directory whose path has no pattern characters.
\<close>

section \<open>Paths\<close>

datatype path = Path (rooted: bool) (comps: "string list")

fun clean_comps :: "bool \<Rightarrow> string list \<Rightarrow> string list \<Rightarrow> string list" where
  "clean_comps r acc [] = rev acc"
| "clean_comps r acc (c # cs) =
    (if c = [] \<or> c = ''.'' then clean_comps r acc cs
     else if c = ''..'' then
       (case acc of
          [] \<Rightarrow> if r then clean_comps r [] cs else clean_comps r [c] cs
        | a # as \<Rightarrow> if a = ''..'' then clean_comps r (c # acc) cs else clean_comps r as cs)
     else clean_comps r (c # acc) cs)"

definition clean_path :: "string \<Rightarrow> path" where
  "clean_path s =
    (let r = (s \<noteq> [] \<and> hd s = CHR ''/'') in Path r (clean_comps r [] (split_on (CHR ''/'') s)))"

definition path_join :: "path \<Rightarrow> string \<Rightarrow> path" where
  "path_join p s = Path (rooted p) (clean_comps (rooted p) [] (comps p @ split_on (CHR ''/'') s))"

definition path_dir :: "path \<Rightarrow> path" where
  "path_dir p = Path (rooted p) (butlast (comps p))"

definition path_base :: "path \<Rightarrow> string" where
  "path_base p = (if comps p = [] then (if rooted p then ''/'' else ''.'') else last (comps p))"

text \<open>\<^verbatim>\<open>filepath.Ext\<close>: the suffix of the last component from its last dot.\<close>

definition path_ext :: "path \<Rightarrow> string" where
  "path_ext p =
    (let b = path_base p in
     if CHR ''.'' \<in> set b then CHR ''.'' # rev (takeWhile (\<lambda>c. c \<noteq> CHR ''.'') (rev b)) else [])"

text \<open>A component that \<^verbatim>\<open>Clean\<close> leaves alone.\<close>

definition plain_name :: "string \<Rightarrow> bool" where
  "plain_name n \<longleftrightarrow> n \<noteq> [] \<and> n \<noteq> ''.'' \<and> n \<noteq> ''..'' \<and> CHR ''/'' \<notin> set n"

fun ok_stack :: "bool \<Rightarrow> string list \<Rightarrow> bool" where
  "ok_stack r [] = True"
| "ok_stack r (c # acc) =
    (c \<noteq> [] \<and> c \<noteq> ''.'' \<and> (c = ''..'' \<longrightarrow> \<not> r \<and> (acc = [] \<or> hd acc = ''..'')) \<and> ok_stack r acc)"

definition wf_path :: "path \<Rightarrow> bool" where
  "wf_path p \<longleftrightarrow> ok_stack (rooted p) (rev (comps p))"

lemma ok_stack_appendD: "ok_stack r (xs @ ys) \<Longrightarrow> ok_stack r ys"
  by (induction xs) auto

lemma clean_comps_ok: "ok_stack r acc \<Longrightarrow> ok_stack r (rev (clean_comps r acc cs))"
  by (induction r acc cs rule: clean_comps.induct) (auto split: list.splits)

lemma clean_comps_id: "ok_stack r (rev cs @ acc) \<Longrightarrow> clean_comps r acc cs = rev acc @ cs"
proof (induction cs arbitrary: acc)
  case Nil
  then show ?case by simp
next
  case (Cons c cs)
  from Cons.prems have "ok_stack r (rev cs @ c # acc)" by simp
  with Cons.IH have rest: "clean_comps r (c # acc) cs = rev acc @ c # cs" by fastforce
  have "ok_stack r (c # acc)"
    using ok_stack_appendD [of r "rev cs" "c # acc"] Cons.prems by simp
  with rest show ?case by (cases acc) auto
qed

lemma wf_clean_path [simp]: "wf_path (clean_path s)"
  by (simp add: wf_path_def clean_path_def Let_def clean_comps_ok)

lemma wf_path_join [simp]: "wf_path (path_join p s)"
  by (simp add: wf_path_def path_join_def clean_comps_ok)

lemma clean_comps_snoc: "plain_name n \<Longrightarrow> clean_comps r acc (cs @ [n]) = clean_comps r acc cs @ [n]"
  by (induction r acc cs rule: clean_comps.induct) (auto simp: plain_name_def split: list.splits)

lemma path_join_plain:
  assumes "wf_path p" "plain_name n"
  shows "path_join p n = Path (rooted p) (comps p @ [n])"
proof -
  have "clean_comps (rooted p) [] (comps p) = comps p"
    using assms(1) clean_comps_id [of "rooted p" "comps p" "[]"] by (simp add: wf_path_def)
  moreover have "split_on (CHR ''/'') n = [n]"
    using assms(2) by (simp add: plain_name_def split_on_no_sep)
  ultimately show ?thesis using assms(2) by (simp add: path_join_def clean_comps_snoc)
qed

section \<open>Files\<close>

datatype node = Dir | File string

datatype fsop = OpStat | OpRead | OpWrite | OpAppend | OpMkdir | OpRename | OpRemove

datatype ioerr = NotExist | NotDir | IsDir | Refused

record fs =
  nodes :: "(path \<times> node) list"
  refused :: "fsop \<Rightarrow> path \<Rightarrow> bool"

abbreviation node_at :: "fs \<Rightarrow> path \<Rightarrow> node option" where
  "node_at f p \<equiv> map_of (nodes f) p"

definition put_node :: "path \<Rightarrow> node \<Rightarrow> fs \<Rightarrow> fs" where
  "put_node p n f = f\<lparr>nodes := AList.update p n (nodes f)\<rparr>"

lemma node_at_put [simp]: "node_at (put_node p n f) q = (if q = p then Some n else node_at f q)"
  by (simp add: put_node_def update_conv')

lemma refused_put [simp]: "refused (put_node p n f) = refused f"
  by (simp add: put_node_def)

text \<open>The proper ancestors of a path, and whether one of them is a regular file.\<close>

definition ancestors :: "path \<Rightarrow> path list" where
  "ancestors p = map (\<lambda>i. Path (rooted p) (take i (comps p))) [0..<length (comps p)]"

definition is_file :: "node option \<Rightarrow> bool" where
  "is_file n \<longleftrightarrow> (case n of Some (File _) \<Rightarrow> True | _ \<Rightarrow> False)"

lemma is_file_simps [simp]:
  "is_file None = False" "is_file (Some Dir) = False" "is_file (Some (File s)) = True"
  by (simp_all add: is_file_def)

definition blocked :: "fs \<Rightarrow> path \<Rightarrow> bool" where
  "blocked f p \<longleftrightarrow> (\<exists>q \<in> set (ancestors p). is_file (node_at f q))"

definition stat :: "fs \<Rightarrow> path \<Rightarrow> ioerr + node" where
  "stat f p =
    (if refused f OpStat p then Inl Refused
     else if blocked f p then Inl NotDir
     else (case node_at f p of None \<Rightarrow> Inl NotExist | Some n \<Rightarrow> Inr n))"

definition read_file :: "fs \<Rightarrow> path \<Rightarrow> ioerr + string" where
  "read_file f p =
    (if refused f OpRead p then Inl Refused
     else if blocked f p then Inl NotDir
     else (case node_at f p of None \<Rightarrow> Inl NotExist | Some Dir \<Rightarrow> Inl IsDir | Some (File s) \<Rightarrow> Inr s))"

text \<open>Opening a file for writing: the parent must be a directory, the path itself must not be one.\<close>

definition open_check :: "fs \<Rightarrow> path \<Rightarrow> ioerr option" where
  "open_check f p =
    (if blocked f p then Some NotDir
     else if node_at f p = Some Dir then Some IsDir
     else if node_at f (path_dir p) \<noteq> Some Dir then Some NotExist
     else None)"

definition write_file :: "fs \<Rightarrow> path \<Rightarrow> string \<Rightarrow> ioerr option \<times> fs" where
  "write_file f p s =
    (if refused f OpWrite p then (Some Refused, f)
     else (case open_check f p of Some e \<Rightarrow> (Some e, f) | None \<Rightarrow> (None, put_node p (File s) f)))"

definition content :: "node option \<Rightarrow> string" where
  "content n = (case n of Some (File s) \<Rightarrow> s | _ \<Rightarrow> [])"

lemma content_simps [simp]: "content (Some (File s)) = s" "content None = []"
  by (simp_all add: content_def)

definition append_file :: "fs \<Rightarrow> path \<Rightarrow> string \<Rightarrow> ioerr option \<times> fs" where
  "append_file f p s =
    (if refused f OpAppend p then (Some Refused, f)
     else (case open_check f p of
         Some e \<Rightarrow> (Some e, f)
       | None \<Rightarrow> (None, put_node p (File (content (node_at f p) @ s)) f)))"

text \<open>\<^verbatim>\<open>os.MkdirAll\<close>: every missing directory on the way is made; a file on the way is an error.\<close>

fun mkdirs :: "path list \<Rightarrow> fs \<Rightarrow> ioerr option \<times> fs" where
  "mkdirs [] f = (None, f)"
| "mkdirs (p # ps) f = (case node_at f p of
     Some Dir \<Rightarrow> mkdirs ps f
   | Some (File _) \<Rightarrow> (Some NotDir, f)
   | None \<Rightarrow> if refused f OpMkdir p then (Some Refused, f) else mkdirs ps (put_node p Dir f))"

definition mkdir_all :: "fs \<Rightarrow> path \<Rightarrow> ioerr option \<times> fs" where
  "mkdir_all f p = mkdirs (ancestors p @ [p]) f"

definition rename_file :: "fs \<Rightarrow> path \<Rightarrow> path \<Rightarrow> ioerr option \<times> fs" where
  "rename_file f p q =
    (if refused f OpRename q then (Some Refused, f)
     else (case node_at f p of
         None \<Rightarrow> (Some NotExist, f)
       | Some n \<Rightarrow>
           if node_at f q = Some Dir then (Some IsDir, f)
           else (None, f\<lparr>nodes := AList.update q n (AList.delete p (nodes f))\<rparr>)))"

text \<open>The names in a directory that satisfy a predicate, in the order \<^verbatim>\<open>filepath.Glob\<close> returns them.\<close>

definition list_dir :: "fs \<Rightarrow> path \<Rightarrow> (string \<Rightarrow> bool) \<Rightarrow> string list" where
  "list_dir f d P =
    sort (remdups (filter P (map (\<lambda>e. last (comps (fst e)))
      (filter (\<lambda>e. comps (fst e) \<noteq> [] \<and> path_dir (fst e) = d) (nodes f)))))"

section \<open>Laws\<close>

definition child :: "path \<Rightarrow> string \<Rightarrow> path" where
  "child d n = Path (rooted d) (comps d @ [n])"

lemma child_inject [simp]: "child d m = child e n \<longleftrightarrow> d = e \<and> m = n"
  by (cases d; cases e) (auto simp: child_def)

lemma path_dir_child [simp]: "path_dir (child d n) = d"
  by (cases d) (simp add: path_dir_def child_def)

lemma path_base_child [simp]: "path_base (child d n) = n"
  by (simp add: path_base_def child_def)

lemma child_neq [simp]: "child d n \<noteq> d" "d \<noteq> child d n"
  by (cases d; simp add: child_def)+

lemma path_join_child [simp]: "wf_path p \<Longrightarrow> plain_name n \<Longrightarrow> path_join p n = child p n"
  by (simp add: child_def path_join_plain)

lemma wf_child [simp]: "wf_path p \<Longrightarrow> plain_name n \<Longrightarrow> wf_path (child p n)"
  using wf_path_join [of p n] by simp

lemma ancestors_child [simp]: "ancestors (child d n) = ancestors d @ [d]"
  by (cases d) (simp add: ancestors_def child_def)

lemma child_iff: "p = child d n \<longleftrightarrow> comps p \<noteq> [] \<and> path_dir p = d \<and> last (comps p) = n"
  by (cases p; cases d) (auto simp: child_def path_dir_def)

lemma set_list_dir: "set (list_dir f d P) = {n. P n \<and> node_at f (child d n) \<noteq> None}"
proof (rule set_eqI)
  fix n
  have "n \<in> set (list_dir f d P) \<longleftrightarrow> P n \<and> (\<exists>e \<in> set (nodes f). fst e = child d n)"
    unfolding child_iff by (auto simp: list_dir_def)
  also have "(\<exists>e \<in> set (nodes f). fst e = child d n) \<longleftrightarrow> node_at f (child d n) \<noteq> None"
    by (metis imageE imageI map_of_eq_None_iff)
  finally show "n \<in> set (list_dir f d P) \<longleftrightarrow> n \<in> {n. P n \<and> node_at f (child d n) \<noteq> None}"
    by simp
qed

lemma list_dir_sorted: "sorted (list_dir f d P)" "distinct (list_dir f d P)"
  by (simp_all add: list_dir_def)

lemma list_dir_eqI:
  assumes "sorted ns" "distinct ns" "set ns = {n. P n \<and> node_at f (child d n) \<noteq> None}"
  shows "list_dir f d P = ns"
  using assms by (intro sorted_distinct_set_unique list_dir_sorted) (auto simp: set_list_dir)

section \<open>Operations inside an existing directory\<close>

definition dir_at :: "fs \<Rightarrow> path \<Rightarrow> bool" where
  "dir_at f d \<longleftrightarrow> (\<forall>q \<in> set (ancestors d @ [d]). node_at f q = Some Dir)"

definition unrefused :: "fs \<Rightarrow> bool" where
  "unrefused f \<longleftrightarrow> refused f = (\<lambda>_ _. False)"

lemma unrefused_put [simp]: "unrefused (put_node p n f) \<longleftrightarrow> unrefused f"
  by (simp add: unrefused_def)

lemma dir_at_child [simp]: "dir_at f (child d n) \<longleftrightarrow> dir_at f d \<and> node_at f (child d n) = Some Dir"
  by (auto simp: dir_at_def)

lemma dir_at_self: "dir_at f d \<Longrightarrow> node_at f d = Some Dir"
  by (simp add: dir_at_def)

lemma dir_at_put_file: "dir_at f d \<Longrightarrow> node_at f p \<noteq> Some Dir \<Longrightarrow> dir_at (put_node p (File s) f) d"
  by (auto simp: dir_at_def)

lemma mkdirs_present: "\<forall>q \<in> set ps. node_at f q = Some Dir \<Longrightarrow> mkdirs ps f = (None, f)"
  by (induction ps) auto

lemma mkdir_all_present [simp]: "dir_at f d \<Longrightarrow> mkdir_all f d = (None, f)"
  unfolding mkdir_all_def dir_at_def by (rule mkdirs_present)

lemma not_blocked: "dir_at f d \<Longrightarrow> \<not> blocked f (child d n)"
  by (auto simp: dir_at_def blocked_def)

lemma not_blocked_dir: "dir_at f d \<Longrightarrow> \<not> blocked f d"
  by (auto simp: dir_at_def blocked_def)

lemma open_check_child: "dir_at f d \<Longrightarrow> node_at f (child d n) \<noteq> Some Dir \<Longrightarrow> open_check f (child d n) = None"
  by (simp add: open_check_def not_blocked dir_at_self)

lemma write_file_child:
  "unrefused f \<Longrightarrow> dir_at f d \<Longrightarrow> node_at f (child d n) \<noteq> Some Dir \<Longrightarrow>
    write_file f (child d n) s = (None, put_node (child d n) (File s) f)"
  by (simp add: write_file_def unrefused_def open_check_child)

lemma append_file_child:
  "unrefused f \<Longrightarrow> dir_at f d \<Longrightarrow> node_at f (child d n) \<noteq> Some Dir \<Longrightarrow>
    append_file f (child d n) s =
      (None, put_node (child d n) (File (content (node_at f (child d n)) @ s)) f)"
  by (simp add: append_file_def unrefused_def open_check_child)

lemma read_file_child:
  "unrefused f \<Longrightarrow> dir_at f d \<Longrightarrow> node_at f (child d n) = Some (File s) \<Longrightarrow> read_file f (child d n) = Inr s"
  by (simp add: read_file_def unrefused_def not_blocked)

lemma read_file_child_missing:
  "unrefused f \<Longrightarrow> dir_at f d \<Longrightarrow> node_at f (child d n) = None \<Longrightarrow> read_file f (child d n) = Inl NotExist"
  by (simp add: read_file_def unrefused_def not_blocked)

lemma stat_child:
  "unrefused f \<Longrightarrow> dir_at f d \<Longrightarrow>
    stat f (child d n) = (case node_at f (child d n) of None \<Rightarrow> Inl NotExist | Some x \<Rightarrow> Inr x)"
  by (simp add: stat_def unrefused_def not_blocked)

lemma stat_dir: "unrefused f \<Longrightarrow> dir_at f d \<Longrightarrow> stat f d = Inr Dir"
  by (simp add: stat_def unrefused_def not_blocked_dir dir_at_self)

text \<open>Replacing a file by renaming a freshly written one over it.\<close>

definition moved :: "path \<Rightarrow> path \<Rightarrow> node \<Rightarrow> fs \<Rightarrow> fs" where
  "moved p q n f = f\<lparr>nodes := AList.update q n (AList.delete p (nodes f))\<rparr>"

lemma node_at_moved [simp]:
  "node_at (moved p q n f) r = (if r = q then Some n else if r = p then None else node_at f r)"
  by (simp add: moved_def update_conv' delete_conv')

lemma unrefused_moved [simp]: "unrefused (moved p q n f) \<longleftrightarrow> unrefused f"
  by (simp add: unrefused_def moved_def)

lemma rename_file_moved:
  "unrefused f \<Longrightarrow> node_at f p = Some n \<Longrightarrow> node_at f q \<noteq> Some Dir \<Longrightarrow> rename_file f p q = (None, moved p q n f)"
  by (simp add: rename_file_def unrefused_def moved_def)

lemma dir_at_moved:
  "dir_at f d \<Longrightarrow> node_at f p \<noteq> Some Dir \<Longrightarrow> node_at f q \<noteq> Some Dir \<Longrightarrow> dir_at (moved p q n f) d"
  by (auto simp: dir_at_def)

end
