(* ===== verification/Scenario.thy ===== *)
theory Scenario
  imports Invocation GoInt FileSystem "HOL-Library.Monad_Syntax"
begin

text \<open>
  \<^verbatim>\<open>pkg/scenario\<close>: the scenario envelope, its JSON form, and loading a scenario file in one of three
  formats (a scenario, a Terraform plan, a Kubernetes manifest). The YAML decoder is third-party code
  and a parameter: \<open>yaml raw\<close> is what its successive calls on the text give, up to the end of the text.
  \<open>sha\<close> is the hexadecimal SHA-256 digest.
\<close>

record sc_actor =
  sa_type :: string
  sa_id :: string
  sa_origin :: string

record sc_action =
  ac_kind :: string
  ac_target :: "gmap option"
  ac_intent :: string
  ac_payload :: "gmap option"
  ac_risk_tags :: "string list option"

record scenario =
  sc_id :: string
  sc_actor :: sc_actor
  sc_source :: string
  sc_timestamp :: gtime
  sc_actions :: "sc_action list"

section \<open>JSON\<close>

definition sc_actor_json :: "sc_actor \<Rightarrow> json" where
  "sc_actor_json a = JObj ([(''type'', JStr (sa_type a))]
    @ omit (sa_id a = []) ''id'' (JStr (sa_id a)) @ omit (sa_origin a = []) ''origin'' (JStr (sa_origin a)))"

definition strs_json :: "string list option \<Rightarrow> json" where
  "strs_json ss = (case ss of None \<Rightarrow> JNull | Some l \<Rightarrow> JArr (map JStr l))"

definition sc_action_json :: "sc_action \<Rightarrow> json" where
  "sc_action_json a = JObj
    [(''kind'', JStr (ac_kind a)), (''target'', map_json (ac_target a)), (''intent'', JStr (ac_intent a)),
     (''payload'', map_json (ac_payload a)), (''risk_tags'', strs_json (ac_risk_tags a))]"

definition scenario_json :: "scenario \<Rightarrow> json" where
  "scenario_json sc = JObj
    [(''scenario_id'', JStr (sc_id sc)), (''actor'', sc_actor_json (sc_actor sc)),
     (''source'', JStr (sc_source sc)), (''timestamp'', JStr (fmt_rfc3339_nano (sc_timestamp sc))),
     (''actions'', JArr (map sc_action_json (sc_actions sc)))]"

text \<open>\<^verbatim>\<open>DisallowUnknownFields\<close>: every member must be one of the fields, up to case.\<close>

definition only_fields :: "string list \<Rightarrow> (string \<times> json) list \<Rightarrow> bool" where
  "only_fields ns ms = list_all (\<lambda>m. to_lower (fst m) \<in> set ns) ms"

definition d_strs_ptr :: "string list option \<Rightarrow> json \<Rightarrow> string list option option" where
  "d_strs_ptr x v =
    (case v of JArr vs \<Rightarrow> map_option Some (str_elems vs) | JNull \<Rightarrow> Some None | _ \<Rightarrow> None)"

definition d_sc_actor :: "sc_actor \<Rightarrow> json \<Rightarrow> sc_actor option" where
  "d_sc_actor x v = (case v of
     JNull \<Rightarrow> Some x
   | JObj ms \<Rightarrow>
       if \<not> only_fields [''type'', ''id'', ''origin''] ms then None
       else do {
         t \<leftarrow> field d_str (sa_type x) ''type'' ms;
         i \<leftarrow> field d_str (sa_id x) ''id'' ms;
         p \<leftarrow> field d_str (sa_origin x) ''origin'' ms;
         Some \<lparr>sa_type = t, sa_id = i, sa_origin = p\<rparr> }
   | _ \<Rightarrow> None)"

definition d_sc_action :: "json \<Rightarrow> sc_action option" where
  "d_sc_action v = (case v of
     JNull \<Rightarrow> Some \<lparr>ac_kind = [], ac_target = None, ac_intent = [], ac_payload = None, ac_risk_tags = None\<rparr>
   | JObj ms \<Rightarrow>
       if \<not> only_fields [''kind'', ''target'', ''intent'', ''payload'', ''risk_tags''] ms then None
       else do {
         k \<leftarrow> field d_str [] ''kind'' ms;
         t \<leftarrow> field d_map None ''target'' ms;
         i \<leftarrow> field d_str [] ''intent'' ms;
         p \<leftarrow> field d_map None ''payload'' ms;
         r \<leftarrow> field d_strs_ptr None ''risk_tags'' ms;
         Some \<lparr>ac_kind = k, ac_target = t, ac_intent = i, ac_payload = p, ac_risk_tags = r\<rparr> }
   | _ \<Rightarrow> None)"

fun d_all :: "('j \<Rightarrow> 'a option) \<Rightarrow> 'j list \<Rightarrow> 'a list option" where
  "d_all d [] = Some []"
| "d_all d (v # vs) = (case d v of None \<Rightarrow> None | Some x \<Rightarrow> map_option ((#) x) (d_all d vs))"

definition d_sc_actions :: "sc_action list \<Rightarrow> json \<Rightarrow> sc_action list option" where
  "d_sc_actions x v = (case v of JArr vs \<Rightarrow> d_all d_sc_action vs | JNull \<Rightarrow> Some [] | _ \<Rightarrow> None)"

definition d_scenario :: "json \<Rightarrow> scenario option" where
  "d_scenario v = (case v of
     JNull \<Rightarrow> Some \<lparr>sc_id = [], sc_actor = \<lparr>sa_type = [], sa_id = [], sa_origin = []\<rparr>, sc_source = [],
                    sc_timestamp = zero_time, sc_actions = []\<rparr>
   | JObj ms \<Rightarrow>
       if \<not> only_fields [''scenario_id'', ''actor'', ''source'', ''timestamp'', ''actions''] ms then None
       else do {
         i \<leftarrow> field d_str [] ''scenario_id'' ms;
         a \<leftarrow> field d_sc_actor \<lparr>sa_type = [], sa_id = [], sa_origin = []\<rparr> ''actor'' ms;
         s \<leftarrow> field d_str [] ''source'' ms;
         t \<leftarrow> field d_time zero_time ''timestamp'' ms;
         acts \<leftarrow> field d_sc_actions [] ''actions'' ms;
         Some \<lparr>sc_id = i, sc_actor = a, sc_source = s, sc_timestamp = t, sc_actions = acts\<rparr> }
   | _ \<Rightarrow> None)"

section \<open>Loading\<close>

datatype sc_err = ScOpen ioerr | ScDecode | ScIDRequired | ScNoActions | ScYaml | ScUnsupported

definition validate_scenario :: "scenario \<Rightarrow> sc_err option" where
  "validate_scenario sc =
    (if trim_space (sc_id sc) = [] then Some ScIDRequired
     else if sc_actions sc = [] then Some ScNoActions else None)"

text \<open>
  \<^verbatim>\<open>decodeScenario\<close>. It is called on texts that are one JSON value (\<^verbatim>\<open>looksLikeScenarioJSON\<close>), so the
  decoder never finds a second value after the first.
\<close>

definition decodeScenario :: "string \<Rightarrow> sc_err + scenario" where
  "decodeScenario raw = (case Option.bind (json_parse raw) d_scenario of
     None \<Rightarrow> Inl ScDecode
   | Some sc \<Rightarrow> (case validate_scenario sc of Some e \<Rightarrow> Inl e | None \<Rightarrow> Inr sc))"

definition json_object :: "string \<Rightarrow> gmap option" where
  "json_object raw = (case Option.bind (json_parse raw) (d_map None) of
     None \<Rightarrow> None | Some None \<Rightarrow> Some [] | Some (Some m) \<Rightarrow> Some m)"

definition looksLikeScenarioJSON :: "string \<Rightarrow> bool" where
  "looksLikeScenarioJSON raw = (case json_object raw of
     None \<Rightarrow> False | Some probe \<Rightarrow> gget probe ''actions'' \<noteq> None)"

definition looksLikeTerraformPlan :: "gmap \<Rightarrow> bool" where
  "looksLikeTerraformPlan payload \<longleftrightarrow> gget payload ''resource_changes'' \<noteq> None
    \<or> gget payload ''planned_values'' \<noteq> None \<or> gget payload ''configuration'' \<noteq> None"

definition sub_map :: "gval option \<Rightarrow> gmap" where
  "sub_map v = (case as_map v of None \<Rightarrow> [] | Some m \<Rightarrow> m)"

definition sub_arr :: "gval option \<Rightarrow> gval list" where
  "sub_arr v = (case as_arr v of None \<Rightarrow> [] | Some vs \<Rightarrow> vs)"

definition is_delete :: "gval \<Rightarrow> bool" where
  "is_delete v = (case v of GStr s \<Rightarrow> to_lower s = ''delete'' | _ \<Rightarrow> False)"

definition entry_address :: "gval \<Rightarrow> string" where
  "entry_address v = (case as_str (gget (sub_map (Some v)) ''address'') of None \<Rightarrow> [] | Some s \<Rightarrow> s)"

definition entry_destroys :: "gval \<Rightarrow> bool" where
  "entry_destroys v = list_ex is_delete (sub_arr (gget (sub_map (gget (sub_map (Some v)) ''change'')) ''actions''))"

definition summarizeTerraformPlan :: "gmap \<Rightarrow> nat \<times> nat \<times> string list" where
  "summarizeTerraformPlan payload =
    (let entries = sub_arr (gget payload ''resource_changes'')
     in (length entries, length (filter entry_destroys entries),
         dedup_from [] (filter (\<lambda>s. s \<noteq> []) (map entry_address entries))))"

definition path_base_str :: "string \<Rightarrow> string" where
  "path_base_str p = path_base (clean_path p)"

definition terraformScenarioID :: "(string \<Rightarrow> string) \<Rightarrow> string \<Rightarrow> string \<Rightarrow> string" where
  "terraformScenarioID sha path raw = ''tf-'' @ path_base_str path @ ''-'' @ take 8 (sha raw)"

definition kubernetesScenarioID :: "(string \<Rightarrow> string) \<Rightarrow> string \<Rightarrow> string \<Rightarrow> string" where
  "kubernetesScenarioID sha path raw = ''k8s-'' @ path_base_str path @ ''-'' @ take 8 (sha raw)"

definition cli_actor :: sc_actor where
  "cli_actor = \<lparr>sa_type = ''human'', sa_id = ''cli'', sa_origin = []\<rparr>"

definition scenarioFromTerraformPlan :: "(string \<Rightarrow> string) \<Rightarrow> gtime \<Rightarrow> string \<Rightarrow> string \<Rightarrow> sc_err + scenario" where
  "scenarioFromTerraformPlan sha now raw path = (case json_object raw of
     None \<Rightarrow> Inl ScUnsupported
   | Some payload \<Rightarrow>
      if \<not> looksLikeTerraformPlan payload then Inl ScUnsupported
      else (case summarizeTerraformPlan payload of (resourceCount, destroyCount, addresses) \<Rightarrow>
        Inr \<lparr>sc_id = terraformScenarioID sha path raw, sc_actor = cli_actor, sc_source = ''cli'',
             sc_timestamp = now,
             sc_actions = [\<lparr>ac_kind = ''terraform.plan'',
               ac_target = Some [(''file'', GStr (path_base_str path))],
               ac_intent = ''plan detected from '' @ path_base_str path,
               ac_payload = Some
                 [(''resource_count'', GInt (int resourceCount)), (''destroy_count'', GInt (int destroyCount)),
                  (''publicly_exposed'', GBool False), (''plan_json'', GStr (path_base_str path)),
                  (''resource_addresses'', GStrs (if addresses = [] then None else Some addresses))],
               ac_risk_tags = None\<rparr>]\<rparr>))"

definition manifestNamespace :: "gmap \<Rightarrow> string" where
  "manifestNamespace manifest =
    (case as_str (gget (sub_map (gget manifest ''metadata'')) ''namespace'') of None \<Rightarrow> [] | Some ns \<Rightarrow> ns)"

text \<open>One call of the decoder: a document or an error; the calls end with the text.\<close>

datatype yaml_step = YamlDoc gmap | YamlFail

fun parse_docs :: "yaml_step list \<Rightarrow> gmap list \<Rightarrow> gmap list option" where
  "parse_docs [] docs = Some docs"
| "parse_docs (YamlDoc doc # steps) docs = parse_docs steps (docs @ [doc])"
| "parse_docs (YamlFail # steps) docs = None"

definition parseYAMLDocs :: "(string \<Rightarrow> yaml_step list) \<Rightarrow> string \<Rightarrow> gmap list option" where
  "parseYAMLDocs yaml raw = parse_docs (yaml raw) []"

definition scenarioFromKubernetesManifest ::
  "(string \<Rightarrow> string) \<Rightarrow> (string \<Rightarrow> yaml_step list) \<Rightarrow> gtime \<Rightarrow> string \<Rightarrow> string \<Rightarrow> sc_err + scenario" where
  "scenarioFromKubernetesManifest sha yaml now raw path = (case parseYAMLDocs yaml raw of
     None \<Rightarrow> Inl ScYaml
   | Some [] \<Rightarrow> Inl ScUnsupported
   | Some (manifest # _) \<Rightarrow>
      if gget manifest ''apiVersion'' = None \<or> gget manifest ''kind'' = None then Inl ScUnsupported
      else (let ns = manifestNamespace manifest in
        Inr \<lparr>sc_id = kubernetesScenarioID sha path raw, sc_actor = cli_actor, sc_source = ''cli'',
             sc_timestamp = now,
             sc_actions = [\<lparr>ac_kind = ''kubectl.apply'',
               ac_target = Some [(''namespace'', GStr ns)],
               ac_intent = ''apply manifest detected from CLI'',
               ac_payload = Some [(''manifests_ref'', GStr ''inline''), (''inline_yaml'', GStr raw),
                                  (''namespace'', GStr ns)],
               ac_risk_tags = None\<rparr>]\<rparr>))"

definition LoadFile ::
  "(string \<Rightarrow> string) \<Rightarrow> (string \<Rightarrow> yaml_step list) \<Rightarrow> gtime \<Rightarrow> fs \<Rightarrow> string \<Rightarrow> sc_err + scenario" where
  "LoadFile sha yaml now f path = (case read_file f (clean_path path) of
     Inl e \<Rightarrow> Inl (ScOpen e)
   | Inr raw \<Rightarrow>
      if looksLikeScenarioJSON raw then decodeScenario raw
      else (case scenarioFromTerraformPlan sha now raw path of
          Inr sc \<Rightarrow> Inr sc
        | Inl e \<Rightarrow>
           if e \<noteq> ScUnsupported then Inl e
           else (case scenarioFromKubernetesManifest sha yaml now raw path of
               Inr sc \<Rightarrow> Inr sc
             | Inl e' \<Rightarrow> if e' \<noteq> ScUnsupported then Inl e' else Inl ScUnsupported)))"

section \<open>Every loaded scenario has an id and an action\<close>

lemma LoadFile_nonempty:
  assumes "LoadFile sha yaml now f path = Inr sc"
  shows "sc_actions sc \<noteq> []"
  using assms
  by (auto simp: LoadFile_def decodeScenario_def validate_scenario_def scenarioFromTerraformPlan_def
      scenarioFromKubernetesManifest_def Let_def
      split: sum.splits option.splits if_splits prod.splits list.splits)

lemma summarize_bounds:
  "summarizeTerraformPlan p = (r, d, as) \<Longrightarrow> d \<le> r \<and> length as \<le> r \<and> distinct as \<and> [] \<notin> set as"
proof -
  assume s: "summarizeTerraformPlan p = (r, d, as)"
  let ?es = "sub_arr (gget p ''resource_changes'')"
  have l: "length (dedup_from seen xs) \<le> length xs" for seen and xs :: "string list"
    by (induction seen xs rule: dedup_from.induct) (auto simp: le_SucI)
  have "length (dedup_from [] (filter (\<lambda>s. s \<noteq> []) (map entry_address ?es))) \<le> length ?es"
    by (rule order_trans [OF l]) (metis length_filter_le length_map)
  then show ?thesis
    using s by (auto simp: summarizeTerraformPlan_def Let_def distinct_dedup_from set_dedup_from)
qed

end
