(* ===== verification/EvidenceTypes.thy ===== *)
theory EvidenceTypes
  imports Invocation "HOL-Library.Monad_Syntax"
begin

text \<open>
  \<^verbatim>\<open>pkg/evidence/types.go\<close> and \<^verbatim>\<open>hash.go\<close>: the evidence record, its JSON form in both directions, and
  the record hash. SHA-256 is a parameter \<open>sha\<close> (the hexadecimal digest of a byte string).
\<close>

record policy_decision =
  pd_allow :: bool
  pd_risk_level :: string
  pd_reason :: string
  pd_reasons :: "string list"
  pd_hints :: "string list"
  pd_rule_ids :: "string list"
  pd_advisory :: bool

record execution_result =
  xr_status :: string
  xr_exit_code :: "int option"
  xr_stdout :: string
  xr_stderr :: string
  xr_stdout_truncated :: bool
  xr_stderr_truncated :: bool

record evidence_record =
  er_event_id :: string
  er_timestamp :: gtime
  er_policy_ref :: string
  er_bundle_revision :: string
  er_profile_name :: string
  er_environment_label :: string
  er_input_hash :: string
  er_source :: string
  er_actor :: actor
  er_tool :: string
  er_operation :: string
  er_params :: "gmap option"
  er_policy_decision :: policy_decision
  er_execution_result :: execution_result
  er_previous_hash :: string
  er_hash :: string

section \<open>Encoding\<close>

definition actor_json :: "actor \<Rightarrow> json" where
  "actor_json a = JObj [(''type'', JStr (a_type a)), (''id'', JStr (a_id a)), (''origin'', JStr (a_origin a))]"

definition policy_decision_json :: "policy_decision \<Rightarrow> json" where
  "policy_decision_json d = JObj
    ([(''allow'', JBool (pd_allow d)), (''risk_level'', JStr (pd_risk_level d)), (''reason'', JStr (pd_reason d))]
     @ omit (pd_reasons d = []) ''reasons'' (JArr (map JStr (pd_reasons d)))
     @ omit (pd_hints d = []) ''hints'' (JArr (map JStr (pd_hints d)))
     @ omit (pd_rule_ids d = []) ''rule_ids'' (JArr (map JStr (pd_rule_ids d)))
     @ [(''advisory'', JBool (pd_advisory d))])"

definition int_ptr_json :: "int option \<Rightarrow> json" where
  "int_ptr_json p = (case p of None \<Rightarrow> JNull | Some i \<Rightarrow> JNum i)"

definition execution_result_json :: "execution_result \<Rightarrow> json" where
  "execution_result_json x = JObj
    ([(''status'', JStr (xr_status x)), (''exit_code'', int_ptr_json (xr_exit_code x))]
     @ omit (xr_stdout x = []) ''stdout'' (JStr (xr_stdout x))
     @ omit (xr_stderr x = []) ''stderr'' (JStr (xr_stderr x))
     @ omit (\<not> xr_stdout_truncated x) ''stdout_truncated'' (JBool (xr_stdout_truncated x))
     @ omit (\<not> xr_stderr_truncated x) ''stderr_truncated'' (JBool (xr_stderr_truncated x)))"

text \<open>The members of \<^verbatim>\<open>canonicalEvidenceRecord\<close>, which are those of \<^verbatim>\<open>EvidenceRecord\<close> up to its hash.\<close>

definition canonical_members :: "evidence_record \<Rightarrow> (string \<times> json) list" where
  "canonical_members r =
    [(''event_id'', JStr (er_event_id r)),
     (''timestamp'', JStr (fmt_rfc3339_nano (er_timestamp r))),
     (''policy_ref'', JStr (er_policy_ref r))]
    @ omit (er_bundle_revision r = []) ''bundle_revision'' (JStr (er_bundle_revision r))
    @ omit (er_profile_name r = []) ''profile_name'' (JStr (er_profile_name r))
    @ omit (er_environment_label r = []) ''environment_label'' (JStr (er_environment_label r))
    @ omit (er_input_hash r = []) ''input_hash'' (JStr (er_input_hash r))
    @ omit (er_source r = []) ''source'' (JStr (er_source r))
    @ [(''actor'', actor_json (er_actor r)),
       (''tool'', JStr (er_tool r)),
       (''operation'', JStr (er_operation r)),
       (''params'', map_json (er_params r)),
       (''policy_decision'', policy_decision_json (er_policy_decision r)),
       (''execution_result'', execution_result_json (er_execution_result r)),
       (''previous_hash'', JStr (er_previous_hash r))]"

definition record_json :: "evidence_record \<Rightarrow> json" where
  "record_json r = JObj (canonical_members r @ [(''hash'', JStr (er_hash r))])"

text \<open>\<^verbatim>\<open>json.Marshal\<close> fails on a record only when the year of its timestamp has more than four digits.\<close>

definition marshal_record :: "evidence_record \<Rightarrow> string option" where
  "marshal_record r =
    (if t_year (er_timestamp r) \<le> 9999 then Some (marshal (record_json r)) else None)"

text \<open>
  \<^verbatim>\<open>ComputeHash\<close> copies ten of the fields into the canonical record; the fields it does not copy stay
  empty and are omitted from the hashed text.
\<close>

definition hash_payload :: "evidence_record \<Rightarrow> evidence_record" where
  "hash_payload r = \<lparr>
     er_event_id = er_event_id r, er_timestamp = er_timestamp r, er_policy_ref = er_policy_ref r,
     er_bundle_revision = [], er_profile_name = [], er_environment_label = [], er_input_hash = [],
     er_source = [], er_actor = er_actor r, er_tool = er_tool r, er_operation = er_operation r,
     er_params = er_params r, er_policy_decision = er_policy_decision r,
     er_execution_result = er_execution_result r, er_previous_hash = er_previous_hash r, er_hash = []\<rparr>"

definition canonical_text :: "evidence_record \<Rightarrow> string" where
  "canonical_text r = marshal (JObj (canonical_members (hash_payload r)))"

definition ComputeHash :: "(string \<Rightarrow> string) \<Rightarrow> evidence_record \<Rightarrow> string option" where
  "ComputeHash sha r =
    (if t_year (er_timestamp r) \<le> 9999 then Some (sha (canonical_text r)) else None)"

section \<open>Decoding\<close>

definition zero_actor :: actor where
  "zero_actor = \<lparr>a_type = [], a_id = [], a_origin = []\<rparr>"

definition zero_policy_decision :: policy_decision where
  "zero_policy_decision = \<lparr>pd_allow = False, pd_risk_level = [], pd_reason = [], pd_reasons = [],
     pd_hints = [], pd_rule_ids = [], pd_advisory = False\<rparr>"

definition zero_execution_result :: execution_result where
  "zero_execution_result = \<lparr>xr_status = [], xr_exit_code = None, xr_stdout = [], xr_stderr = [],
     xr_stdout_truncated = False, xr_stderr_truncated = False\<rparr>"

definition zero_record :: evidence_record where
  "zero_record = \<lparr>er_event_id = [], er_timestamp = zero_time, er_policy_ref = [],
     er_bundle_revision = [], er_profile_name = [], er_environment_label = [], er_input_hash = [],
     er_source = [], er_actor = zero_actor, er_tool = [], er_operation = [], er_params = None,
     er_policy_decision = zero_policy_decision, er_execution_result = zero_execution_result,
     er_previous_hash = [], er_hash = []\<rparr>"

definition d_actor :: "actor \<Rightarrow> json \<Rightarrow> actor option" where
  "d_actor x v = (case v of
     JNull \<Rightarrow> Some x
   | JObj ms \<Rightarrow> do {
       t \<leftarrow> field d_str (a_type x) ''type'' ms;
       i \<leftarrow> field d_str (a_id x) ''id'' ms;
       p \<leftarrow> field d_str (a_origin x) ''origin'' ms;
       Some \<lparr>a_type = t, a_id = i, a_origin = p\<rparr> }
   | _ \<Rightarrow> None)"

definition d_policy_decision :: "policy_decision \<Rightarrow> json \<Rightarrow> policy_decision option" where
  "d_policy_decision x v = (case v of
     JNull \<Rightarrow> Some x
   | JObj ms \<Rightarrow> do {
       al \<leftarrow> field d_bool (pd_allow x) ''allow'' ms;
       rl \<leftarrow> field d_str (pd_risk_level x) ''risk_level'' ms;
       re \<leftarrow> field d_str (pd_reason x) ''reason'' ms;
       rs \<leftarrow> field d_strs (pd_reasons x) ''reasons'' ms;
       hs \<leftarrow> field d_strs (pd_hints x) ''hints'' ms;
       ri \<leftarrow> field d_strs (pd_rule_ids x) ''rule_ids'' ms;
       ad \<leftarrow> field d_bool (pd_advisory x) ''advisory'' ms;
       Some \<lparr>pd_allow = al, pd_risk_level = rl, pd_reason = re, pd_reasons = rs, pd_hints = hs,
             pd_rule_ids = ri, pd_advisory = ad\<rparr> }
   | _ \<Rightarrow> None)"

definition d_execution_result :: "execution_result \<Rightarrow> json \<Rightarrow> execution_result option" where
  "d_execution_result x v = (case v of
     JNull \<Rightarrow> Some x
   | JObj ms \<Rightarrow> do {
       st \<leftarrow> field d_str (xr_status x) ''status'' ms;
       ec \<leftarrow> field d_int_ptr (xr_exit_code x) ''exit_code'' ms;
       ou \<leftarrow> field d_str (xr_stdout x) ''stdout'' ms;
       er \<leftarrow> field d_str (xr_stderr x) ''stderr'' ms;
       ot \<leftarrow> field d_bool (xr_stdout_truncated x) ''stdout_truncated'' ms;
       et \<leftarrow> field d_bool (xr_stderr_truncated x) ''stderr_truncated'' ms;
       Some \<lparr>xr_status = st, xr_exit_code = ec, xr_stdout = ou, xr_stderr = er,
             xr_stdout_truncated = ot, xr_stderr_truncated = et\<rparr> }
   | _ \<Rightarrow> None)"

definition d_record :: "json \<Rightarrow> evidence_record option" where
  "d_record v = (case v of
     JNull \<Rightarrow> Some zero_record
   | JObj ms \<Rightarrow> do {
       ei \<leftarrow> field d_str [] ''event_id'' ms;
       ts \<leftarrow> field d_time zero_time ''timestamp'' ms;
       pr \<leftarrow> field d_str [] ''policy_ref'' ms;
       br \<leftarrow> field d_str [] ''bundle_revision'' ms;
       pn \<leftarrow> field d_str [] ''profile_name'' ms;
       el \<leftarrow> field d_str [] ''environment_label'' ms;
       ih \<leftarrow> field d_str [] ''input_hash'' ms;
       so \<leftarrow> field d_str [] ''source'' ms;
       ac \<leftarrow> field d_actor zero_actor ''actor'' ms;
       tl \<leftarrow> field d_str [] ''tool'' ms;
       op \<leftarrow> field d_str [] ''operation'' ms;
       pa \<leftarrow> field d_map None ''params'' ms;
       pd \<leftarrow> field d_policy_decision zero_policy_decision ''policy_decision'' ms;
       xr \<leftarrow> field d_execution_result zero_execution_result ''execution_result'' ms;
       ph \<leftarrow> field d_str [] ''previous_hash'' ms;
       ha \<leftarrow> field d_str [] ''hash'' ms;
       Some \<lparr>er_event_id = ei, er_timestamp = ts, er_policy_ref = pr, er_bundle_revision = br,
         er_profile_name = pn, er_environment_label = el, er_input_hash = ih, er_source = so,
         er_actor = ac, er_tool = tl, er_operation = op, er_params = pa, er_policy_decision = pd,
         er_execution_result = xr, er_previous_hash = ph, er_hash = ha\<rparr> }
   | _ \<Rightarrow> None)"

definition unmarshal_record :: "string \<Rightarrow> evidence_record option" where
  "unmarshal_record s = Option.bind (json_parse s) d_record"

section \<open>Records survive being written and read\<close>

definition actor_ok :: "actor \<Rightarrow> bool" where
  "actor_ok a \<longleftrightarrow> utf8_valid (a_type a) \<and> utf8_valid (a_id a) \<and> utf8_valid (a_origin a)"

definition strs_ok :: "string list \<Rightarrow> bool" where
  "strs_ok ss \<longleftrightarrow> (\<forall>s \<in> set ss. utf8_valid s)"

definition record_ok :: "evidence_record \<Rightarrow> bool" where
  "record_ok r \<longleftrightarrow> utf8_valid (er_event_id r) \<and> time_ok (er_timestamp r) \<and> utf8_valid (er_policy_ref r)
    \<and> utf8_valid (er_bundle_revision r) \<and> utf8_valid (er_profile_name r)
    \<and> utf8_valid (er_environment_label r) \<and> utf8_valid (er_input_hash r) \<and> utf8_valid (er_source r)
    \<and> actor_ok (er_actor r) \<and> utf8_valid (er_tool r) \<and> utf8_valid (er_operation r) \<and> map_ok (er_params r)
    \<and> (let d = er_policy_decision r in utf8_valid (pd_risk_level d) \<and> utf8_valid (pd_reason d)
        \<and> strs_ok (pd_reasons d) \<and> strs_ok (pd_hints d) \<and> strs_ok (pd_rule_ids d))
    \<and> (let x = er_execution_result r in utf8_valid (xr_status x) \<and> utf8_valid (xr_stdout x)
        \<and> utf8_valid (xr_stderr x) \<and> (case xr_exit_code x of None \<Rightarrow> True | Some i \<Rightarrow> int64 i))
    \<and> utf8_valid (er_previous_hash r)"

definition norm_record :: "evidence_record \<Rightarrow> evidence_record" where
  "norm_record r = r\<lparr>er_params := map_norm (er_params r)\<rparr>"

lemma d_actor_json [simp]: "d_actor zero_actor (actor_json a) = Some a"
  by (simp add: d_actor_def actor_json_def field_def member_simps)

lemma d_policy_decision_json [simp]:
  "d_policy_decision zero_policy_decision (policy_decision_json d) = Some d"
  by (simp add: d_policy_decision_def policy_decision_json_def field_def member_simps
      zero_policy_decision_def)

lemma d_int_ptr_json:
  "(case p of None \<Rightarrow> True | Some i \<Rightarrow> int64 i) \<Longrightarrow> d_int_ptr x (int_ptr_json p) = Some p"
  by (cases p) (simp_all add: d_int_ptr_def int_ptr_json_def)

lemma d_execution_result_json:
  "(case xr_exit_code x of None \<Rightarrow> True | Some i \<Rightarrow> int64 i) \<Longrightarrow>
    d_execution_result zero_execution_result (execution_result_json x) = Some x"
  by (simp add: d_execution_result_def execution_result_json_def field_def member_simps
      zero_execution_result_def d_int_ptr_json)

lemma d_record_json:
  assumes "record_ok r"
  shows "d_record (record_json r) = Some (norm_record r)"
proof -
  have t: "time_ok (er_timestamp r)"
    and x: "case xr_exit_code (er_execution_result r) of None \<Rightarrow> True | Some i \<Rightarrow> int64 i"
    using assms by (auto simp: record_ok_def Let_def)
  show ?thesis
    unfolding d_record_def record_json_def canonical_members_def
    by (simp add: field_def member_simps t d_execution_result_json [OF x] d_map_map_json norm_record_def)
qed

lemma json_ok_JArr_strs [simp]: "json_ok (JArr (map JStr ss)) \<longleftrightarrow> strs_ok ss"
  by (auto simp: strs_ok_def)

lemma json_ok_omit:
  "(\<forall>m \<in> set (omit e n v). utf8_valid (fst m) \<and> json_ok (snd m)) \<longleftrightarrow> e \<or> utf8_valid n \<and> json_ok v"
  by (simp add: omit_def)

lemma utf8_time [simp]: "utf8_valid (fmt_rfc3339_nano t)"
  by (rule utf8_valid_ascii) (rule fmt_rfc3339_nano_ascii)

lemma json_ok_canonical_members:
  assumes "record_ok r"
  shows "json_ok (JObj (canonical_members r))"
proof -
  have "json_ok (actor_json (er_actor r))"
    using assms by (simp add: record_ok_def actor_ok_def actor_json_def rune_len_ascii)
  moreover have "json_ok (policy_decision_json (er_policy_decision r))"
    using assms by (simp add: record_ok_def Let_def policy_decision_json_def ball_Un json_ok_omit
        rune_len_ascii del: json_ok.simps(2)) 
  moreover have "json_ok (execution_result_json (er_execution_result r))"
    using assms by (simp add: record_ok_def Let_def execution_result_json_def int_ptr_json_def ball_Un
        json_ok_omit rune_len_ascii split: option.splits)
  ultimately show ?thesis
    using assms json_ok_map_json [of "er_params r"]
    by (simp add: record_ok_def canonical_members_def ball_Un json_ok_omit rune_len_ascii)
qed

lemma unmarshal_marshal_record:
  assumes "record_ok r" "utf8_valid (er_hash r)"
  shows "unmarshal_record (marshal (record_json r)) = Some (norm_record r)"
proof -
  have "json_ok (record_json r)"
    using json_ok_canonical_members [OF assms(1)] assms(2) by (simp add: record_json_def rune_len_ascii ball_Un)
  then show ?thesis using d_record_json [OF assms(1)] by (simp add: unmarshal_record_def)
qed

lemma record_ok_norm_fields [simp]:
  "er_event_id (norm_record r) = er_event_id r" "er_policy_ref (norm_record r) = er_policy_ref r"
  "er_previous_hash (norm_record r) = er_previous_hash r" "er_hash (norm_record r) = er_hash r"
  "er_timestamp (norm_record r) = er_timestamp r"
  by (simp_all add: norm_record_def)

text \<open>The hash of a record that was read back is the hash of the record that was written.\<close>

lemma ComputeHash_norm:
  assumes "map_ok (er_params r)"
  shows "ComputeHash sha (norm_record r) = ComputeHash sha r"
  using assms
  by (simp add: ComputeHash_def canonical_text_def norm_record_def hash_payload_def canonical_members_def)

lemma ComputeHash_hash_irrelevant [simp]: "ComputeHash sha (r\<lparr>er_hash := h\<rparr>) = ComputeHash sha r"
  by (simp add: ComputeHash_def canonical_text_def hash_payload_def)

end
