(* ===== verification/EvidenceIO.thy ===== *)
theory EvidenceIO
  imports EvidenceTypes FileSystem
begin

text \<open>
  The effects of the evidence store: a computation reads and changes the file system and returns a
  value or an error (\<open>io\<close>), sequencing stops at the first error as the early returns of the code do.
  On top of it \<^verbatim>\<open>pkg/evidence/io.go\<close> (scanning and appending JSON lines), \<^verbatim>\<open>pkg/evlock\<close> and
  \<^verbatim>\<open>pkg/evidence/lock.go\<close>.
\<close>

datatype ev_err =
    EIO string ioerr
  | EParseManifest
  | EParseForwarder
  | EParseLine nat
  | EReadJSONL
  | EMarshalCanonical
  | EMarshalRecord
  | EChain nat string string
  | EMsg string
  | EBusy
  | ELockNotSupported
  | ELockFailed
  | ECursorSegmentNotFound
  | ECursorLineOutOfRange
  | EStop
  | EChainInvalid ev_err

definition is_not_exist :: "ev_err \<Rightarrow> bool" where
  "is_not_exist e \<longleftrightarrow> (case e of EIO _ NotExist \<Rightarrow> True | _ \<Rightarrow> False)"

text \<open>\<^verbatim>\<open>ErrorCode\<close> and \<^verbatim>\<open>IsStoreBusyError\<close>: the code of a \<^verbatim>\<open>StoreError\<close> in the error chain.\<close>

fun ErrorCode :: "ev_err \<Rightarrow> string" where
  "ErrorCode EBusy = ''evidence_store_busy''"
| "ErrorCode ELockNotSupported = ''evidence_lock_not_supported_on_windows''"
| "ErrorCode _ = []"

definition IsStoreBusyError :: "ev_err \<Rightarrow> bool" where
  "IsStoreBusyError e \<longleftrightarrow> ErrorCode e = ''evidence_store_busy''"

type_synonym 'a io = "fs \<Rightarrow> (ev_err + 'a) \<times> fs"

definition io_ret :: "'a \<Rightarrow> 'a io" where
  "io_ret a f = (Inr a, f)"

definition io_fail :: "ev_err \<Rightarrow> 'a io" where
  "io_fail e f = (Inl e, f)"

definition io_bind :: "'a io \<Rightarrow> ('a \<Rightarrow> 'b io) \<Rightarrow> 'b io" where
  "io_bind m k f = (case m f of (Inl e, f') \<Rightarrow> (Inl e, f') | (Inr a, f') \<Rightarrow> k a f')"

text \<open>A file operation that returns an error or nothing, with the context its error is wrapped in.\<close>

definition io_do :: "string \<Rightarrow> (fs \<Rightarrow> ioerr option \<times> fs) \<Rightarrow> unit io" where
  "io_do ctx g f = (case g f of (Some e, f') \<Rightarrow> (Inl (EIO ctx e), f') | (None, f') \<Rightarrow> (Inr (), f'))"

text \<open>A query of the file system, its error passed on as a value.\<close>

definition io_get :: "(fs \<Rightarrow> 'a) \<Rightarrow> 'a io" where
  "io_get g f = (Inr (g f), f)"

lemma io_bind_Inr: "m f = (Inr a, f') \<Longrightarrow> io_bind m k f = k a f'"
  by (simp add: io_bind_def)

lemma io_bind_Inl: "m f = (Inl e, f') \<Longrightarrow> io_bind m k f = (Inl e, f')"
  by (simp add: io_bind_def)

lemma io_bind_eq_Inr:
  "io_bind m k f = (Inr b, f'') \<longleftrightarrow> (\<exists>a f'. m f = (Inr a, f') \<and> k a f' = (Inr b, f''))"
  by (auto simp: io_bind_def split: prod.splits sum.splits)

lemma io_simps [simp]:
  "io_ret a f = (Inr a, f)" "io_fail e f = (Inl e, f)" "io_get g f = (Inr (g f), f)"
  by (simp_all add: io_ret_def io_fail_def io_get_def)

lemma io_do_simps:
  "g f = (None, f') \<Longrightarrow> io_do ctx g f = (Inr (), f')"
  "g f = (Some e, f') \<Longrightarrow> io_do ctx g f = (Inl (EIO ctx e), f')"
  by (simp_all add: io_do_def)

section \<open>Lines of a file\<close>

text \<open>The lines \<^verbatim>\<open>bufio.ScanLines\<close> yields: an unterminated last line counts, an empty rest does not.\<close>

definition raw_lines :: "string \<Rightarrow> string list" where
  "raw_lines s = (let ls = split_on (CHR 0x0A) s in if last ls = [] then butlast ls else ls)"

definition drop_cr :: "string \<Rightarrow> string" where
  "drop_cr l = (if l \<noteq> [] \<and> last l = CHR 0x0D then butlast l else l)"

text \<open>\<^verbatim>\<open>bufio.MaxScanTokenSize\<close>: a line of this many bytes or more does not fit the scanner's buffer.\<close>

definition maxScanTokenSize :: nat where
  "maxScanTokenSize = 65536"

fun stream_lines ::
  "(evidence_record \<Rightarrow> 's \<Rightarrow> ev_err option \<times> 's) \<Rightarrow> nat \<Rightarrow> string list \<Rightarrow> 's \<Rightarrow> ev_err option \<times> 's" where
  "stream_lines fn n [] s = (None, s)"
| "stream_lines fn n (l # ls) s =
    (if maxScanTokenSize \<le> length l then (Some EReadJSONL, s)
     else (let line = trim_space (drop_cr l) in
       if line = [] then stream_lines fn (Suc n) ls s
       else (case unmarshal_record line of
           None \<Rightarrow> (Some (EParseLine (Suc n)), s)
         | Some rec \<Rightarrow> (case fn rec s of
             (Some e, s') \<Rightarrow> (Some e, s')
           | (None, s') \<Rightarrow> stream_lines fn (Suc n) ls s'))))"

definition streamFileRecords ::
  "fs \<Rightarrow> path \<Rightarrow> (evidence_record \<Rightarrow> 's \<Rightarrow> ev_err option \<times> 's) \<Rightarrow> 's \<Rightarrow> ev_err option \<times> 's" where
  "streamFileRecords f p fn s = (case read_file f p of
     Inl e \<Rightarrow> (Some (EIO [] e), s)
   | Inr txt \<Rightarrow> stream_lines fn 0 (raw_lines txt) s)"

text \<open>
  \<^verbatim>\<open>appendRecordLine\<close>: the file is opened (and created) first, then the record is rendered, then the
  line is written.
\<close>

definition write_line :: "path \<Rightarrow> string \<Rightarrow> fs \<Rightarrow> ioerr option \<times> fs" where
  "write_line p s f = (if refused f OpWrite p then (Some Refused, f) else append_file f p s)"

definition appendRecordLine :: "path \<Rightarrow> evidence_record \<Rightarrow> unit io" where
  "appendRecordLine p r =
    io_bind (io_do ''open evidence log'' (\<lambda>f. append_file f p [])) (\<lambda>_.
    (case marshal_record r of
       None \<Rightarrow> io_fail EMarshalRecord
     | Some line \<Rightarrow> io_do ''append record'' (write_line p (line @ [CHR 0x0A]))))"

section \<open>The records of a file\<close>

text \<open>
  What a reader gets from a list of lines, independently of its callback: the records up to the
  first line that cannot be read, and that line's error.
\<close>

fun read_lines :: "nat \<Rightarrow> string list \<Rightarrow> evidence_record list \<times> ev_err option" where
  "read_lines n [] = ([], None)"
| "read_lines n (l # ls) =
    (if maxScanTokenSize \<le> length l then ([], Some EReadJSONL)
     else if trim_space (drop_cr l) = [] then read_lines (Suc n) ls
     else (case unmarshal_record (trim_space (drop_cr l)) of
         None \<Rightarrow> ([], Some (EParseLine (Suc n)))
       | Some rec \<Rightarrow> (case read_lines (Suc n) ls of (rs, e) \<Rightarrow> (rec # rs, e))))"

text \<open>Running a callback over records, stopping at the first error it returns.\<close>

fun each :: "('r \<Rightarrow> 's \<Rightarrow> 'e option \<times> 's) \<Rightarrow> 'r list \<Rightarrow> 's \<Rightarrow> 'e option \<times> 's" where
  "each fn [] s = (None, s)"
| "each fn (r # rs) s = (case fn r s of (Some e, s') \<Rightarrow> (Some e, s') | (None, s') \<Rightarrow> each fn rs s')"

lemma each_append:
  "each fn (rs @ qs) s = (case each fn rs s of (Some e, s') \<Rightarrow> (Some e, s') | (None, s') \<Rightarrow> each fn qs s')"
  by (induction rs arbitrary: s) (auto split: prod.splits option.splits)

lemma stream_lines_each:
  "stream_lines fn n ls s =
    (case each fn (fst (read_lines n ls)) s of
       (Some e, s') \<Rightarrow> (Some e, s')
     | (None, s') \<Rightarrow> (snd (read_lines n ls), s'))"
  by (induction fn n ls s rule: stream_lines.induct)
    (auto simp: Let_def split: prod.splits option.splits)

lemma split_on_snoc_line:
  "split_on c (s @ [c]) = (if s = [] then [[], []] else split_on c s @ [[]])"
  by (induction s) (auto split: list.splits)

lemma raw_lines_Nil [simp]: "raw_lines [] = []"
  by (simp add: raw_lines_def)

text \<open>Texts that end in a newline, the only ones the appenders leave behind.\<close>

definition terminated :: "string \<Rightarrow> bool" where
  "terminated s \<longleftrightarrow> s = [] \<or> last s = CHR 0x0A"

lemma split_on_append_terminated:
  "s \<noteq> [] \<Longrightarrow> last s = c \<Longrightarrow> split_on c (s @ t) = butlast (split_on c s) @ split_on c t"
proof (induction s)
  case Nil
  then show ?case by simp
next
  case (Cons x s)
  show ?case
  proof (cases s)
    case Nil
    with Cons.prems show ?thesis by simp
  next
    case (Cons y s')
    with Cons.IH Cons.prems have IH: "split_on c (s @ t) = butlast (split_on c s) @ split_on c t"
      by simp
    show ?thesis
    proof (cases "butlast (split_on c s)")
      case Nil
      then have "length (split_on c s) \<le> 1"
        by (metis One_nat_def diff_is_0_eq length_butlast list.size(3))
      moreover have "c \<in> set s" using Cons.prems Cons by auto
      moreover have "2 \<le> length (split_on c u)" if "c \<in> set u" for u
        using that by (induction u) (auto split: list.splits simp: Suc_le_eq)
      ultimately show ?thesis by fastforce
    next
      case (Cons w ws)
      then obtain z where z: "split_on c s = w # ws @ [z]"
        by (metis append_Cons append_butlast_last_id split_on_nonempty)
      with IH show ?thesis by simp
    qed
  qed
qed

lemma last_split_on_terminated: "s \<noteq> [] \<Longrightarrow> last s = c \<Longrightarrow> last (split_on c s) = []"
proof -
  assume "s \<noteq> []" "last s = c"
  then obtain u where "s = u @ [c]" by (metis append_butlast_last_id)
  then show ?thesis by (simp add: split_on_snoc_line)
qed

lemma raw_lines_append_line:
  assumes "terminated s" "CHR 0x0A \<notin> set l"
  shows "raw_lines (s @ l @ [CHR 0x0A]) = raw_lines s @ [l]"
proof -
  have l: "split_on (CHR 0x0A) (l @ [CHR 0x0A]) = [l, []]"
    using split_on_append [OF assms(2), of "[]"] by simp
  show ?thesis
  proof (cases "s = []")
    case True
    then show ?thesis by (simp add: raw_lines_def l)
  next
    case False
    then have last: "last s = CHR 0x0A" using assms(1) by (simp add: terminated_def)
    have "split_on (CHR 0x0A) (s @ l @ [CHR 0x0A]) = butlast (split_on (CHR 0x0A) s) @ [l, []]"
      using split_on_append_terminated [OF False last] l by simp
    then show ?thesis
      using last_split_on_terminated [OF False last] by (simp add: raw_lines_def Let_def butlast_append)
  qed
qed

lemma read_lines_append:
  "snd (read_lines n ls) = None \<Longrightarrow>
    read_lines n (ls @ ks) =
      (fst (read_lines n ls) @ fst (read_lines (n + length ls) ks), snd (read_lines (n + length ls) ks))"
  by (induction n ls rule: read_lines.induct) (auto split: prod.splits option.splits if_splits)

section \<open>Appending a record to a file\<close>

definition record_line :: "evidence_record \<Rightarrow> string" where
  "record_line r = marshal (record_json r)"

definition fits_scanner :: "evidence_record \<Rightarrow> bool" where
  "fits_scanner r \<longleftrightarrow> length (record_line r) < maxScanTokenSize"

lemma drop_cr_record_line [simp]: "drop_cr (record_line r) = record_line r"
  by (simp add: drop_cr_def record_line_def record_json_def marshal_obj_ends)

lemma read_record_line:
  assumes "record_ok r" "utf8_valid (er_hash r)" "fits_scanner r"
  shows "read_lines k [record_line r] = ([norm_record r], None)"
proof -
  have "trim_space (record_line r) = record_line r" "record_line r \<noteq> []"
    by (simp_all add: record_line_def record_json_def marshal_obj_ends)
  moreover have "unmarshal_record (record_line r) = Some (norm_record r)"
    using unmarshal_marshal_record [OF assms(1,2)] by (simp add: record_line_def)
  ultimately show ?thesis using assms(3) by (simp add: fits_scanner_def)
qed

lemma time_ok_record: "record_ok r \<Longrightarrow> t_year (er_timestamp r) \<le> 9999"
  by (simp add: record_ok_def time_ok_def)

text \<open>The files after one of them was given new content.\<close>

definition wrote :: "path \<Rightarrow> string \<Rightarrow> fs \<Rightarrow> fs \<Rightarrow> bool" where
  "wrote p s f f' \<longleftrightarrow> refused f' = refused f
    \<and> (\<forall>q. node_at f' q = (if q = p then Some (File s) else node_at f q))"

lemma wrote_node: "wrote p s f f' \<Longrightarrow> node_at f' q = (if q = p then Some (File s) else node_at f q)"
  by (simp add: wrote_def)

lemma wrote_unrefused: "wrote p s f f' \<Longrightarrow> unrefused f' \<longleftrightarrow> unrefused f"
  by (simp add: wrote_def unrefused_def)

lemma wrote_dir_at: "wrote p s f f' \<Longrightarrow> dir_at f d \<Longrightarrow> node_at f p \<noteq> Some Dir \<Longrightarrow> dir_at f' d"
  by (auto simp: dir_at_def wrote_node)

lemma appendRecordLine_ok:
  assumes "unrefused f" "dir_at f d" "node_at f (child d n) \<noteq> Some Dir" "t_year (er_timestamp r) \<le> 9999"
  obtains f' where "appendRecordLine (child d n) r f = (Inr (), f')"
    "wrote (child d n) (content (node_at f (child d n)) @ record_line r @ [CHR 0x0A]) f f'"
proof -
  let ?p = "child d n" and ?c = "content (node_at f (child d n))"
  let ?f1 = "put_node ?p (File ?c) f"
  let ?f2 = "put_node ?p (File (?c @ record_line r @ [CHR 0x0A])) ?f1"
  have 1: "append_file f ?p [] = (None, ?f1)" using append_file_child [OF assms(1,2,3)] by simp
  have "dir_at ?f1 d" using assms by (intro dir_at_put_file) auto
  then have 2: "append_file ?f1 ?p (record_line r @ [CHR 0x0A]) = (None, ?f2)"
    using append_file_child [of ?f1 d n] assms(1) by simp
  then have 3: "write_line ?p (record_line r @ [CHR 0x0A]) ?f1 = (None, ?f2)"
    using assms(1) by (simp add: write_line_def unrefused_def)
  show ?thesis
  proof (rule that)
    show "appendRecordLine ?p r f = (Inr (), ?f2)"
      using 1 3 assms(4)
      by (simp add: appendRecordLine_def io_bind_def io_do_def marshal_record_def record_line_def)
    show "wrote ?p (?c @ record_line r @ [CHR 0x0A]) f ?f2"
      by (simp add: wrote_def)
  qed
qed

lemma raw_lines_append_record:
  "terminated s \<Longrightarrow> raw_lines (s @ record_line r @ [CHR 0x0A]) = raw_lines s @ [record_line r]"
  by (rule raw_lines_append_line) (simp_all add: record_line_def marshal_no_newline)

end
