(* ===== verification/EvidenceLock.thy ===== *)
theory EvidenceLock
  imports EvidenceIO GoInt
begin

text \<open>
  \<^verbatim>\<open>pkg/evlock\<close> and \<^verbatim>\<open>pkg/evidence/lock.go\<close>: the file lock every store operation runs under, the two
  settings read from the environment, and \<^verbatim>\<open>detectStoreMode\<close>. What the operating system contributes is
  an \<open>env\<close>: the environment variables, the answers of successive \<^verbatim>\<open>flock\<close> calls, the time that passes
  between two of them beyond the 25 ms the loop sleeps (\<^verbatim>\<open>time.Sleep\<close> pauses for at least its
  argument), the readings of the wall clock and whether the build is the Unix one.
\<close>

datatype flock_res = FOk | FWouldBlock | FErr

datatype lock_res = LkAcquired | LkBusy | LkNotSupported | LkFailed

record env =
  e_getenv :: "string \<Rightarrow> string"
  e_flock :: "nat \<Rightarrow> flock_res"
  e_delay :: "nat \<Rightarrow> nat"
  e_now :: "nat \<Rightarrow> gtime"
  e_unix :: bool

definition sleep_ns :: int where
  "sleep_ns = 25 * 1000000"

text \<open>
  The retry loop of \<^verbatim>\<open>Acquire\<close>; \<open>now\<close> is the clock at the deadline check of attempt \<open>i\<close>, in
  nanoseconds.
\<close>

function acquire_loop :: "(nat \<Rightarrow> flock_res) \<Rightarrow> (nat \<Rightarrow> nat) \<Rightarrow> int \<Rightarrow> int \<Rightarrow> nat \<Rightarrow> lock_res" where
  "acquire_loop flock delay deadline now i =
    (case flock i of
       FOk \<Rightarrow> LkAcquired
     | FErr \<Rightarrow> LkFailed
     | FWouldBlock \<Rightarrow>
         if deadline < now then LkBusy
         else acquire_loop flock delay deadline (now + sleep_ns + int (delay (Suc i))) (Suc i))"
  by pat_completeness auto
termination
  by (relation "measure (\<lambda>(flock, delay, deadline, now, i). nat (deadline + 1 - now))")
    (auto simp: sleep_ns_def)

declare acquire_loop.simps [simp del]

text \<open>
  \<^verbatim>\<open>evlock.Acquire\<close>: the lock's directory and the lock file are made first; the clock reads 0 when the
  deadline is computed.
\<close>

definition open_create :: "path \<Rightarrow> fs \<Rightarrow> ioerr option \<times> fs" where
  "open_create p f = append_file f p []"

definition Acquire :: "env \<Rightarrow> path \<Rightarrow> int \<Rightarrow> lock_res io" where
  "Acquire e p timeout0 =
    (if \<not> e_unix e then io_ret LkNotSupported
     else (let timeout = (if timeout0 \<le> 0 then 2 * 1000000000 else timeout0) in
       io_bind (io_do ''create lock directory'' (\<lambda>f. mkdir_all f (path_dir p))) (\<lambda>_.
       io_bind (io_do ''open lock file'' (open_create p)) (\<lambda>_.
       io_ret (acquire_loop (e_flock e) (e_delay e) timeout (int (e_delay e 0)) 0)))))"

text \<open>
  \<^verbatim>\<open>Release\<close>: the first of the errors of unlocking and of closing the file; a released or nil lock is
  left alone. The state is whether the lock still has its file.
\<close>

definition Release :: "bool \<Rightarrow> bool \<Rightarrow> bool \<Rightarrow> string option \<times> bool" where
  "Release has_file unlock_ok close_ok =
    (if \<not> has_file then (None, False)
     else (if \<not> unlock_ok then Some ''release file lock''
           else if \<not> close_ok then Some ''close lock file'' else None, False))"

section \<open>Settings\<close>

definition lockTimeoutEnv :: string where "lockTimeoutEnv = ''EVIDRA_EVIDENCE_LOCK_TIMEOUT_MS''"
definition segmentMaxBytesEnv :: string where "segmentMaxBytesEnv = ''EVIDRA_EVIDENCE_SEGMENT_MAX_BYTES''"
definition defaultLockTimeoutMS :: int where "defaultLockTimeoutMS = 2000"
definition defaultSegmentMaxBytes :: int where "defaultSegmentMaxBytes = 5000000"
definition lockFileName :: string where "lockFileName = ''.evidra.lock''"

definition positive_setting :: "int \<Rightarrow> string \<Rightarrow> int" where
  "positive_setting dflt raw =
    (case parse_int (trim_space raw) of None \<Rightarrow> dflt | Some v \<Rightarrow> if v \<le> 0 then dflt else v)"

definition lockTimeoutFromEnv :: "env \<Rightarrow> int" where
  "lockTimeoutFromEnv e =
    wrap64 (positive_setting defaultLockTimeoutMS (e_getenv e lockTimeoutEnv) * 1000000)"

definition segmentMaxBytesFromEnv :: "env \<Rightarrow> int" where
  "segmentMaxBytesFromEnv e = positive_setting defaultSegmentMaxBytes (e_getenv e segmentMaxBytesEnv)"

section \<open>Store mode\<close>

datatype mode = Segmented | Legacy

text \<open>\<^verbatim>\<open>detectStoreMode\<close> on a cleaned path; a resolved path that is passed on is clean already.\<close>

definition detect_mode :: "fs \<Rightarrow> path \<Rightarrow> ev_err + (mode \<times> path)" where
  "detect_mode f clean =
    (case stat f clean of
       Inr Dir \<Rightarrow> Inr (Segmented, clean)
     | Inr (File _) \<Rightarrow> Inr (Legacy, clean)
     | Inl NotExist \<Rightarrow>
         (let ext = to_lower (path_ext clean)
          in Inr (if ext = ''.log'' \<or> ext = ''.jsonl'' then Legacy else Segmented, clean))
     | Inl e \<Rightarrow> Inl (EIO [] e))"

definition detectStoreMode :: "fs \<Rightarrow> string \<Rightarrow> ev_err + (mode \<times> path)" where
  "detectStoreMode f path = detect_mode f (clean_path path)"

definition with_mode :: "string \<Rightarrow> (mode \<Rightarrow> path \<Rightarrow> 'a io) \<Rightarrow> 'a io" where
  "with_mode path k =
    io_bind (io_get (\<lambda>f. detectStoreMode f path))
      (\<lambda>r. case r of Inl e \<Rightarrow> io_fail e | Inr (m, resolved) \<Rightarrow> k m resolved)"

definition lockRootForPath :: "fs \<Rightarrow> string \<Rightarrow> ev_err + path" where
  "lockRootForPath f path = (case detectStoreMode f path of
     Inl e \<Rightarrow> Inl e
   | Inr (Legacy, resolved) \<Rightarrow> Inr (path_dir resolved)
   | Inr (Segmented, resolved) \<Rightarrow> Inr resolved)"

definition withStoreLock :: "env \<Rightarrow> string \<Rightarrow> 'a io \<Rightarrow> 'a io" where
  "withStoreLock e path fn =
    io_bind (io_get (\<lambda>f. lockRootForPath f path)) (\<lambda>r. case r of
      Inl err \<Rightarrow> io_fail err
    | Inr root \<Rightarrow>
        io_bind (Acquire e (path_join root lockFileName) (lockTimeoutFromEnv e)) (\<lambda>lk. case lk of
          LkBusy \<Rightarrow> io_fail EBusy
        | LkNotSupported \<Rightarrow> io_fail ELockNotSupported
        | LkFailed \<Rightarrow> io_fail ELockFailed
        | LkAcquired \<Rightarrow> fn))"

section \<open>The lock loop ends\<close>

text \<open>
  The loop makes at most one attempt per 25 ms up to the deadline and one more: its result is that of
  the first attempt that is not refused, if that comes before the deadline check fails.
\<close>

lemma acquire_loop_busy_means_contended:
  "acquire_loop flock delay deadline now i = LkBusy \<Longrightarrow>
    \<exists>k. (\<forall>j. i \<le> j \<and> j \<le> k \<longrightarrow> flock j = FWouldBlock) \<and> i \<le> k
      \<and> deadline < now + (\<Sum>j=i..<k. sleep_ns + int (delay (Suc j)))"
proof (induction flock delay deadline now i rule: acquire_loop.induct)
  case (1 flock delay deadline now i)
  from "1.prems" have wb: "flock i = FWouldBlock"
    by (subst (asm) acquire_loop.simps) (auto split: flock_res.splits)
  show ?case
  proof (cases "deadline < now")
    case True
    with wb show ?thesis by (intro exI [of _ i]) auto
  next
    case False
    with wb "1.prems" have "acquire_loop flock delay deadline (now + sleep_ns + int (delay (Suc i))) (Suc i) = LkBusy"
      by (subst (asm) acquire_loop.simps) simp
    from "1.IH" [OF wb False this] obtain k where k:
      "\<forall>j. Suc i \<le> j \<and> j \<le> k \<longrightarrow> flock j = FWouldBlock" "Suc i \<le> k"
      "deadline < now + sleep_ns + int (delay (Suc i)) + (\<Sum>j=Suc i..<k. sleep_ns + int (delay (Suc j)))"
      by blast
    have "flock j = FWouldBlock" if "i \<le> j \<and> j \<le> k" for j
      using that k(1) wb by (cases "j = i") auto
    moreover have "(\<Sum>j=i..<k. sleep_ns + int (delay (Suc j)))
      = sleep_ns + int (delay (Suc i)) + (\<Sum>j=Suc i..<k. sleep_ns + int (delay (Suc j)))"
      using k(2) by (simp add: sum.atLeast_Suc_lessThan)
    ultimately show ?thesis using k(2,3) by (intro exI [of _ k]) auto
  qed
qed

lemma acquire_loop_acquires:
  assumes "\<And>j. i \<le> j \<Longrightarrow> j < k \<Longrightarrow> flock j = FWouldBlock" "i \<le> k" "flock k = FOk"
    "i < k \<Longrightarrow> now + (\<Sum>j=i..<k - 1. sleep_ns + int (delay (Suc j))) \<le> deadline"
  shows "acquire_loop flock delay deadline now i = LkAcquired"
  using assms
proof (induction "k - i" arbitrary: i now)
  case 0
  then show ?case by (subst acquire_loop.simps) simp
next
  case (Suc n)
  then have ik: "i < k" by simp
  then have wb: "flock i = FWouldBlock" using Suc.prems(1) by simp
  have nn: "0 \<le> (\<Sum>j=i..<k - 1. sleep_ns + int (delay (Suc j)))"
    by (intro sum_nonneg) (simp add: sleep_ns_def)
  with Suc.prems(4) ik have now: "\<not> deadline < now" by linarith
  have "acquire_loop flock delay deadline (now + sleep_ns + int (delay (Suc i))) (Suc i) = LkAcquired"
  proof (rule Suc.hyps)
    show "Suc i < k \<Longrightarrow> now + sleep_ns + int (delay (Suc i))
        + (\<Sum>j=Suc i..<k - 1. sleep_ns + int (delay (Suc j))) \<le> deadline"
      using Suc.prems(4) ik by (simp add: sum.atLeast_Suc_lessThan)
  qed (use Suc ik in auto)
  with wb now show ?case by (subst acquire_loop.simps) simp
qed

lemma lockTimeoutFromEnv_default:
  "parse_int (trim_space (e_getenv e lockTimeoutEnv)) = None \<Longrightarrow> lockTimeoutFromEnv e = 2000000000"
  by (simp add: lockTimeoutFromEnv_def positive_setting_def defaultLockTimeoutMS_def wrap64_id int64_def)

lemma segmentMaxBytes_pos [simp]: "0 < segmentMaxBytesFromEnv e"
  by (auto simp: segmentMaxBytesFromEnv_def positive_setting_def defaultSegmentMaxBytes_def
      split: option.splits)

lemma segmentMaxBytes_int64 [simp]: "int64 (segmentMaxBytesFromEnv e)"
proof (cases "parse_int (trim_space (e_getenv e segmentMaxBytesEnv))")
  case None
  then show ?thesis
    by (simp add: segmentMaxBytesFromEnv_def positive_setting_def defaultSegmentMaxBytes_def int64_def)
next
  case (Some i)
  from parse_int_range [OF this] Some show ?thesis
    by (simp add: segmentMaxBytesFromEnv_def positive_setting_def defaultSegmentMaxBytes_def int64_def)
qed

end
