(* ===== verification/Config.thy ===== *)
theory Config
  imports EvidenceLock
begin

text \<open>
  \<^verbatim>\<open>pkg/config\<close> (where policy and evidence are found, environment labels), \<^verbatim>\<open>pkg/outputlimit\<close>, and
  the precedence functions of \<^verbatim>\<open>pkg/validate\<close> that read the same settings. \<^verbatim>\<open>os.UserHomeDir\<close> on Unix is
  the variable \<^verbatim>\<open>HOME\<close>.
\<close>

definition join_slash :: "string list \<Rightarrow> string" where
  "join_slash cs = concat (case cs of [] \<Rightarrow> [] | c # cs' \<Rightarrow> c # map (\<lambda>x. CHR ''/'' # x) cs')"

definition path_str :: "path \<Rightarrow> string" where
  "path_str p =
    (if comps p = [] then (if rooted p then ''/'' else ''.'')
     else (if rooted p then ''/'' else []) @ join_slash (comps p))"

text \<open>The first candidate that is not blank.\<close>

fun first_set :: "string list \<Rightarrow> string option" where
  "first_set [] = None"
| "first_set (s # ss) = (if trim_space s \<noteq> [] then Some (trim_space s) else first_set ss)"

definition DefaultBundlePath :: string where "DefaultBundlePath = ''policy/bundles/ops-v0.1''"
definition DefaultPolicyPath :: string where
  "DefaultPolicyPath = DefaultBundlePath @ ''/evidra/policy/policy.rego''"
definition DefaultDataPath :: string where
  "DefaultDataPath = DefaultBundlePath @ ''/evidra/data/params/data.json''"
definition DefaultEvidenceRelativeDir :: string where "DefaultEvidenceRelativeDir = ''.evidra/evidence''"

definition fileExists :: "fs \<Rightarrow> string \<Rightarrow> bool" where
  "fileExists f p = (case stat f (clean_path p) of Inr _ \<Rightarrow> True | Inl _ \<Rightarrow> False)"

definition config_ResolveBundlePath :: "env \<Rightarrow> string \<Rightarrow> string" where
  "config_ResolveBundlePath e flagValue =
    (if trim_space flagValue \<noteq> [] then trim_space flagValue
     else trim_space (e_getenv e ''EVIDRA_BUNDLE_PATH''))"

definition ResolvePolicyData :: "env \<Rightarrow> fs \<Rightarrow> string \<Rightarrow> string \<Rightarrow> (string \<times> string) option" where
  "ResolvePolicyData e f policyFlag dataFlag =
    (let p = trim_space policyFlag; d = trim_space dataFlag;
         pe = trim_space (e_getenv e ''EVIDRA_POLICY_PATH''); de = trim_space (e_getenv e ''EVIDRA_DATA_PATH'') in
     if p \<noteq> [] \<and> d \<noteq> [] then Some (p, d)
     else if pe \<noteq> [] \<and> de \<noteq> [] then Some (pe, de)
     else if fileExists f DefaultPolicyPath \<and> fileExists f DefaultDataPath
       then Some (DefaultPolicyPath, DefaultDataPath)
     else None)"

definition NormalizeEnvironment :: "string \<Rightarrow> string" where
  "NormalizeEnvironment s =
    (let v = to_lower (trim_space s) in
     if v = ''prod'' \<or> v = ''prd'' then ''production''
     else if v = ''stg'' \<or> v = ''stage'' then ''staging''
     else v)"

definition resolveHomeDir :: "env \<Rightarrow> string option" where
  "resolveHomeDir e =
    (if trim_space (e_getenv e ''EVIDRA_HOME'') \<noteq> [] then Some (trim_space (e_getenv e ''EVIDRA_HOME''))
     else if e_getenv e ''HOME'' \<noteq> [] \<and> trim_space (e_getenv e ''HOME'') \<noteq> [] then Some (e_getenv e ''HOME'')
     else first_set [e_getenv e ''HOME'', e_getenv e ''USERPROFILE''])"

definition ResolveEvidencePath :: "env \<Rightarrow> string \<Rightarrow> string option" where
  "ResolveEvidencePath e explicit =
    (case first_set [explicit, e_getenv e ''EVIDRA_EVIDENCE_DIR'', e_getenv e ''EVIDRA_EVIDENCE_PATH''] of
       Some p \<Rightarrow> Some p
     | None \<Rightarrow> map_option (\<lambda>home. path_str (path_join (clean_path home) DefaultEvidenceRelativeDir)) (resolveHomeDir e))"

definition ResolveEvidenceDir :: "env \<Rightarrow> string \<Rightarrow> string" where
  "ResolveEvidenceDir e flagValue = (case ResolveEvidencePath e flagValue of None \<Rightarrow> [] | Some p \<Rightarrow> p)"

definition DefaultEvidencePathDescription :: "env \<Rightarrow> string" where
  "DefaultEvidencePathDescription e = (case ResolveEvidencePath e [] of
     None \<Rightarrow> path_str (path_join (clean_path ''$HOME'') DefaultEvidenceRelativeDir)
   | Some p \<Rightarrow> p)"

text \<open>\<^verbatim>\<open>resolveBundlePath\<close> and \<^verbatim>\<open>resolveEnvironment\<close> of \<^verbatim>\<open>pkg/validate\<close>.\<close>

definition resolveBundlePath :: "env \<Rightarrow> fs \<Rightarrow> string \<Rightarrow> string" where
  "resolveBundlePath e f explicit = (case first_set [explicit, e_getenv e ''EVIDRA_BUNDLE_PATH''] of
     Some p \<Rightarrow> p
   | None \<Rightarrow> if fileExists f DefaultBundlePath then DefaultBundlePath else [])"

definition resolveEnvironment :: "env \<Rightarrow> string \<Rightarrow> string" where
  "resolveEnvironment e explicit =
    (if trim_space explicit \<noteq> [] then trim_space explicit else trim_space (e_getenv e ''EVIDRA_ENVIRONMENT''))"

section \<open>Output limits\<close>

definition Suffix :: string where "Suffix = CHR 0x0A # ''...[truncated]''"

definition MaxBytesFromEnv :: "env \<Rightarrow> string \<Rightarrow> int \<Rightarrow> int" where
  "MaxBytesFromEnv e key fallback = positive_setting fallback (e_getenv e key)"

text \<open>Dropping bytes from the end until the rest is valid UTF-8; the list is kept reversed.\<close>

fun shrink :: "string \<Rightarrow> string" where
  "shrink [] = []"
| "shrink (c # cs) = (if utf8_valid (rev (c # cs)) then rev (c # cs) else shrink cs)"

definition Truncate :: "string \<Rightarrow> int \<Rightarrow> string \<times> bool" where
  "Truncate s maxBytes =
    (if maxBytes \<le> 0 \<or> int (length s) \<le> maxBytes then (s, False)
     else (let b = shrink (rev (take (nat maxBytes) s)) in (b @ Suffix, True)))"

section \<open>Laws\<close>

lemma shrink_props:
  "utf8_valid (shrink cs)" "prefix (shrink cs) (rev cs)"
  by (induction cs) (auto intro: prefix_order.trans)

lemma shrink_id: "utf8_valid (rev cs) \<Longrightarrow> shrink cs = rev cs"
  by (cases cs) auto

text \<open>The kept part is the longest valid prefix within the limit.\<close>

lemma shrink_maximal: "prefix p (rev cs) \<Longrightarrow> utf8_valid p \<Longrightarrow> prefix p (shrink cs)"
proof (induction cs)
  case Nil
  then show ?case by simp
next
  case (Cons c cs)
  show ?case
  proof (cases "utf8_valid (rev (c # cs))")
    case True
    then show ?thesis using Cons.prems by simp
  next
    case False
    then have "p \<noteq> rev (c # cs)" using Cons.prems by auto
    then have "prefix p (rev cs)" using Cons.prems by (auto simp: prefix_snoc)
    then show ?thesis using Cons False by simp
  qed
qed

lemma trim_to_lower: "to_lower s = [] \<longleftrightarrow> s = []"
  by (simp add: to_lower_def)

end
