(* ===== verification/EvidenceManifest.thy ===== *)
theory EvidenceManifest
  imports EvidenceLock
begin

text \<open>
  \<^verbatim>\<open>pkg/evidence/manifest.go\<close> and the segment names of \<^verbatim>\<open>pkg/evidence/segment.go\<close>: the manifest of a
  segmented store, its JSON text, reading it (with the defaults filled in), creating a new store, and
  replacing the manifest by a rename. \<open>e_now e k\<close> is the reading of the clock at the \<open>k\<close>-th place of an
  operation that reads it: 0 when a new manifest is made, 1 for a record without a timestamp, 2 when
  the manifest is updated.
\<close>

record store_manifest =
  sm_format :: string
  sm_created_at :: string
  sm_updated_at :: string
  sm_segments_dir :: string
  sm_current_segment :: string
  sm_sealed_segments :: "string list"
  sm_segment_max_bytes :: int
  sm_records_total :: int
  sm_last_hash :: string
  sm_policy_ref :: string
  sm_notes :: string

definition manifestFileName :: string where "manifestFileName = ''manifest.json''"
definition segmentsDirName :: string where "segmentsDirName = ''segments''"

section \<open>Segment names\<close>

definition segmentName :: "nat \<Rightarrow> string" where
  "segmentName idx = ''evidence-'' @ pad 6 idx @ ''.jsonl''"

text \<open>
  \<^verbatim>\<open>fmt.Sscanf(name, "evidence-%06d.jsonl", &idx)\<close>: the verb takes at most six characters, and text
  after the pattern is not an error. Inputs with spaces or a sign before the digits, which the verb
  would also take, are no segment names and are refused by the comparison that follows.
\<close>

definition scan_segment :: "string \<Rightarrow> nat option" where
  "scan_segment name =
    (if prefix ''evidence-'' name then
       (let r = drop 9 name; ds = takeWhile is_digit (take 6 r)
        in if ds \<noteq> [] \<and> prefix ''.jsonl'' (drop (length ds) r) then Some (undec ds) else None)
     else None)"

definition parseSegmentIndex :: "string \<Rightarrow> nat option" where
  "parseSegmentIndex name = (case scan_segment name of
     None \<Rightarrow> None
   | Some idx \<Rightarrow> if idx = 0 then None else if name \<noteq> segmentName idx then None else Some idx)"

definition normalizeSealedSegments :: "string list \<Rightarrow> string list" where
  "normalizeSealedSegments xs = sort (dedup_from [] (filter (\<lambda>s. s \<noteq> []) xs))"

definition removeSegment :: "string list \<Rightarrow> string \<Rightarrow> string list" where
  "removeSegment xs segment = filter (\<lambda>s. s \<noteq> segment) xs"

definition containsSegment :: "string list \<Rightarrow> string \<Rightarrow> bool" where
  "containsSegment xs segment = list_ex (\<lambda>s. s = segment) xs"

section \<open>The manifest as JSON\<close>

definition manifest_json :: "store_manifest \<Rightarrow> json" where
  "manifest_json m = JObj
    [(''format'', JStr (sm_format m)), (''created_at'', JStr (sm_created_at m)),
     (''updated_at'', JStr (sm_updated_at m)), (''segments_dir'', JStr (sm_segments_dir m)),
     (''current_segment'', JStr (sm_current_segment m)),
     (''sealed_segments'', JArr (map JStr (sm_sealed_segments m))),
     (''segment_max_bytes'', JNum (sm_segment_max_bytes m)),
     (''records_total'', JNum (sm_records_total m)), (''last_hash'', JStr (sm_last_hash m)),
     (''policy_ref'', JStr (sm_policy_ref m)), (''notes'', JStr (sm_notes m))]"

definition zero_manifest :: store_manifest where
  "zero_manifest = \<lparr>sm_format = [], sm_created_at = [], sm_updated_at = [], sm_segments_dir = [],
     sm_current_segment = [], sm_sealed_segments = [], sm_segment_max_bytes = 0, sm_records_total = 0,
     sm_last_hash = [], sm_policy_ref = [], sm_notes = []\<rparr>"

definition d_manifest :: "json \<Rightarrow> store_manifest option" where
  "d_manifest v = (case v of
     JNull \<Rightarrow> Some zero_manifest
   | JObj ms \<Rightarrow> do {
       fo \<leftarrow> field d_str [] ''format'' ms;
       ca \<leftarrow> field d_str [] ''created_at'' ms;
       ua \<leftarrow> field d_str [] ''updated_at'' ms;
       sd \<leftarrow> field d_str [] ''segments_dir'' ms;
       cs \<leftarrow> field d_str [] ''current_segment'' ms;
       ss \<leftarrow> field d_strs [] ''sealed_segments'' ms;
       mb \<leftarrow> field d_int 0 ''segment_max_bytes'' ms;
       rt \<leftarrow> field d_int 0 ''records_total'' ms;
       lh \<leftarrow> field d_str [] ''last_hash'' ms;
       pr \<leftarrow> field d_str [] ''policy_ref'' ms;
       no \<leftarrow> field d_str [] ''notes'' ms;
       Some \<lparr>sm_format = fo, sm_created_at = ca, sm_updated_at = ua, sm_segments_dir = sd,
         sm_current_segment = cs, sm_sealed_segments = ss, sm_segment_max_bytes = mb,
         sm_records_total = rt, sm_last_hash = lh, sm_policy_ref = pr, sm_notes = no\<rparr> }
   | _ \<Rightarrow> None)"

definition unmarshal_manifest :: "string \<Rightarrow> store_manifest option" where
  "unmarshal_manifest s = Option.bind (json_parse s) d_manifest"

definition manifest_text :: "store_manifest \<Rightarrow> string" where
  "manifest_text m = marshal_indent (manifest_json m) @ [CHR 0x0A]"

section \<open>Reading and writing the manifest\<close>

definition ManifestPath :: "path \<Rightarrow> path" where
  "ManifestPath root = path_join root manifestFileName"

definition ManifestTmpPath :: "path \<Rightarrow> path" where
  "ManifestTmpPath root = path_join root (manifestFileName @ ''.tmp'')"

definition segments_path :: "path \<Rightarrow> path" where
  "segments_path root = path_join root segmentsDirName"

definition manifestFormat :: string where
  "manifestFormat = ''evidra-evidence-manifest-v0.1''"

definition fill_for_write :: "store_manifest \<Rightarrow> store_manifest" where
  "fill_for_write m0 =
    (let m1 = (if sm_format m0 = [] then m0\<lparr>sm_format := manifestFormat\<rparr> else m0);
         m2 = (if sm_segments_dir m1 = [] then m1\<lparr>sm_segments_dir := segmentsDirName\<rparr> else m1);
         m3 = (if sm_current_segment m2 = [] then m2\<lparr>sm_current_segment := segmentName 1\<rparr> else m2)
     in m3\<lparr>sm_sealed_segments :=
          removeSegment (normalizeSealedSegments (sm_sealed_segments m3)) (sm_current_segment m3)\<rparr>)"

definition writeManifestAtomic :: "path \<Rightarrow> store_manifest \<Rightarrow> unit io" where
  "writeManifestAtomic root m0 =
    (let m = fill_for_write m0 in
     io_bind (io_do ''create evidence root'' (\<lambda>f. mkdir_all f root)) (\<lambda>_.
     io_bind (io_do ''create segments directory'' (\<lambda>f. mkdir_all f (segments_path root))) (\<lambda>_.
     io_bind (io_do ''write manifest tmp'' (\<lambda>f. write_file f (ManifestTmpPath root) (manifest_text m))) (\<lambda>_.
     io_do ''rename manifest tmp'' (\<lambda>f. rename_file f (ManifestTmpPath root) (ManifestPath root))))))"

definition fill_after_read :: "int \<Rightarrow> store_manifest \<Rightarrow> store_manifest" where
  "fill_after_read segmentMaxBytes m0 =
    (let m1 = (if sm_segment_max_bytes m0 \<le> 0 then m0\<lparr>sm_segment_max_bytes := segmentMaxBytes\<rparr> else m0);
         m2 = (if sm_segments_dir m1 = [] then m1\<lparr>sm_segments_dir := segmentsDirName\<rparr> else m1);
         m3 = (if sm_current_segment m2 = [] then m2\<lparr>sm_current_segment := segmentName 1\<rparr> else m2)
     in m3\<lparr>sm_sealed_segments := normalizeSealedSegments (sm_sealed_segments m3)\<rparr>)"

definition new_manifest :: "string \<Rightarrow> int \<Rightarrow> store_manifest" where
  "new_manifest now segmentMaxBytes = \<lparr>sm_format = manifestFormat, sm_created_at = now, sm_updated_at = now,
     sm_segments_dir = segmentsDirName, sm_current_segment = segmentName 1, sm_sealed_segments = [],
     sm_segment_max_bytes = segmentMaxBytes, sm_records_total = 0, sm_last_hash = [], sm_policy_ref = [],
     sm_notes = ''Local segmented evidence store''\<rparr>"

definition loadOrInitManifest :: "env \<Rightarrow> path \<Rightarrow> int \<Rightarrow> bool \<Rightarrow> store_manifest io" where
  "loadOrInitManifest e root segmentMaxBytes createIfMissing =
    io_bind (io_get (\<lambda>f. read_file f (ManifestPath root))) (\<lambda>raw. case raw of
      Inr s \<Rightarrow> (case unmarshal_manifest s of
          None \<Rightarrow> io_fail EParseManifest
        | Some m \<Rightarrow> io_ret (fill_after_read segmentMaxBytes m))
    | Inl NotExist \<Rightarrow>
        if \<not> createIfMissing then io_fail (EIO [] NotExist)
        else (let m = new_manifest (fmt_rfc3339 (e_now e 0)) segmentMaxBytes in
          io_bind (io_do ''create segments directory'' (\<lambda>f. mkdir_all f (segments_path root))) (\<lambda>_.
          io_bind (io_do ''create first segment''
            (\<lambda>f. write_file f (path_join (segments_path root) (sm_current_segment m)) [])) (\<lambda>_.
          io_bind (writeManifestAtomic root m) (\<lambda>_.
          io_ret m))))
    | Inl err \<Rightarrow> io_fail (EIO [] err))"

section \<open>Laws of the names\<close>

lemma segmentName_neq_Nil [simp]: "segmentName n \<noteq> []"
  by (simp add: segmentName_def)

lemma pad_inject: "pad k m = pad k n \<longleftrightarrow> m = n"
  using undec_pad by metis

lemma segmentName_inject [simp]: "segmentName m = segmentName n \<longleftrightarrow> m = n"
  by (simp add: segmentName_def pad_inject)

lemma pad_no_slash: "CHR ''/'' \<notin> set (pad k n)"
  using pad_digits [of k n] by (auto simp: list_all_iff is_digit_def)

lemma plain_segmentName [simp]: "plain_name (segmentName n)"
  by (simp add: plain_name_def segmentName_def pad_no_slash)

lemma undec_less: "list_all is_digit t \<Longrightarrow> undec t < 10 ^ length t"
proof (induction t rule: rev_induct)
  case (snoc c t)
  then have "undec t < 10 ^ length t" "digit_val c < 10"
    by (auto simp: digit_val_less10)
  then show ?case by simp
qed simp

lemma undec_less_lex:
  "length s = length t \<Longrightarrow> list_all is_digit s \<Longrightarrow> list_all is_digit t \<Longrightarrow> s < t \<longleftrightarrow> undec s < undec t"
proof (induction s t rule: list_induct2)
  case Nil
  then show ?case by simp
next
  case (Cons c s d t)
  let ?p = "10 ^ length t :: nat"
  have b: "undec s < ?p" "undec t < ?p" using Cons undec_less [of s] undec_less [of t] by simp_all
  have dig: "is_digit c" "is_digit d" using Cons.prems by simp_all
  then have c1: "c < d \<longleftrightarrow> digit_val c < digit_val d"
    unfolding less_char_def digit_val_def is_digit_def by arith
  have c2: "c = d \<longleftrightarrow> digit_val c = digit_val d"
    using digit_char_digit_val [OF dig(1)] digit_char_digit_val [OF dig(2)] by metis
  have mono: "x * ?p + u < y * ?p + v" if "x < y" "u < ?p" for x y u v :: nat
  proof -
    have "Suc x * ?p \<le> y * ?p" using that(1) by (intro mult_right_mono) auto
    with that(2) show ?thesis by simp
  qed
  have IH: "s < t \<longleftrightarrow> undec s < undec t" using Cons by simp
  show ?case
    using mono [of "digit_val c" "digit_val d" "undec s" "undec t"] b
      mono [of "digit_val d" "digit_val c" "undec t" "undec s"] Cons.hyps
    by (cases "digit_val c" "digit_val d" rule: linorder_cases) (simp_all add: undec_Cons c1 c2 IH)
qed

lemma less_append_same_length: "length x = length y \<Longrightarrow> x < y \<Longrightarrow> x @ u < y @ (v :: 'a::order list)"
  by (induction x y rule: list_induct2) auto

lemma segmentName_less: "m < n \<Longrightarrow> n \<le> 999999 \<Longrightarrow> segmentName m < segmentName n"
proof -
  assume mn: "m < n" "n \<le> 999999"
  then have l: "length (pad 6 m) = length (pad 6 n)" by (simp add: length_pad)
  with mn have "pad 6 m < pad 6 n"
    by (subst undec_less_lex) (simp_all add: pad_digits)
  from less_append_same_length [OF l this] show ?thesis by (simp add: segmentName_def)
qed

lemma scan_segment_segmentName:
  assumes "n \<le> 999999"
  shows "scan_segment (segmentName n) = Some n"
proof -
  have l: "length (pad 6 n) = 6" using assms by (intro length_pad) auto
  then have t: "take 6 (drop 9 (segmentName n)) = pad 6 n"
    and d: "drop 6 (drop 9 (segmentName n)) = ''.jsonl''"
    by (simp_all add: segmentName_def)
  have w: "takeWhile is_digit (pad 6 n) = pad 6 n"
    using pad_digits [of 6 n] by (simp add: takeWhile_eq_all_conv list_all_iff)
  have p: "prefix ''evidence-'' (segmentName n)" by (simp add: segmentName_def)
  have "pad 6 n \<noteq> []" using l by auto
  then show ?thesis
    unfolding scan_segment_def Let_def t w l d using p by simp
qed

lemma scan_segment_bound:
  assumes "scan_segment s = Some n"
  shows "n \<le> 999999"
proof -
  let ?ds = "takeWhile is_digit (take 6 (drop 9 s))"
  from assms have n: "n = undec ?ds" by (auto simp: scan_segment_def Let_def split: if_splits)
  have "list_all is_digit ?ds" by (auto simp: list_all_iff dest: set_takeWhileD)
  then have "undec ?ds < 10 ^ length ?ds" by (rule undec_less)
  also have "\<dots> \<le> 10 ^ 6"
    using length_takeWhile_le [of is_digit "take 6 (drop 9 s)"] by (intro power_increasing) auto
  finally show ?thesis using n by simp
qed

lemma parseSegmentIndex_iff:
  "parseSegmentIndex s = Some n \<longleftrightarrow> 1 \<le> n \<and> n \<le> 999999 \<and> s = segmentName n"
  using scan_segment_segmentName [of n] scan_segment_bound [of s n]
  by (auto simp: parseSegmentIndex_def split: option.splits if_splits)

lemma set_normalizeSealedSegments [simp]: "set (normalizeSealedSegments xs) = set xs - {[]}"
  by (auto simp: normalizeSealedSegments_def set_dedup_from)

lemma normalizeSealedSegments_sorted [simp]:
  "sorted (normalizeSealedSegments xs)" "distinct (normalizeSealedSegments xs)"
  by (simp_all add: normalizeSealedSegments_def distinct_dedup_from)

lemma normalizeSealedSegments_id:
  "sorted xs \<Longrightarrow> distinct xs \<Longrightarrow> [] \<notin> set xs \<Longrightarrow> normalizeSealedSegments xs = xs"
  by (rule sorted_distinct_set_unique) auto

lemma normalizeSealedSegments_idem [simp]:
  "normalizeSealedSegments (normalizeSealedSegments xs) = normalizeSealedSegments xs"
  by (rule normalizeSealedSegments_id) auto

lemma containsSegment_iff [simp]: "containsSegment xs s \<longleftrightarrow> s \<in> set xs"
  by (auto simp: containsSegment_def list_ex_iff)

lemma removeSegment_id [simp]: "s \<notin> set xs \<Longrightarrow> removeSegment xs s = xs"
  by (auto simp: removeSegment_def intro: filter_True)

section \<open>The manifest survives being written and read\<close>

definition manifest_ok :: "store_manifest \<Rightarrow> bool" where
  "manifest_ok m \<longleftrightarrow> utf8_valid (sm_format m) \<and> utf8_valid (sm_created_at m) \<and> utf8_valid (sm_updated_at m)
    \<and> utf8_valid (sm_segments_dir m) \<and> utf8_valid (sm_current_segment m) \<and> strs_ok (sm_sealed_segments m)
    \<and> int64 (sm_segment_max_bytes m) \<and> int64 (sm_records_total m) \<and> utf8_valid (sm_last_hash m)
    \<and> utf8_valid (sm_policy_ref m) \<and> utf8_valid (sm_notes m)"

lemma d_manifest_json:
  assumes "int64 (sm_segment_max_bytes m)" "int64 (sm_records_total m)"
  shows "d_manifest (manifest_json m) = Some m"
  unfolding d_manifest_def manifest_json_def
  using assms by (simp add: field_def member_simps)

lemma unmarshal_manifest_text:
  assumes "manifest_ok m"
  shows "unmarshal_manifest (manifest_text m) = Some m"
proof -
  have "json_ok (manifest_json m)"
    using assms by (simp add: manifest_json_def manifest_ok_def rune_len_ascii del: json_ok.simps(2))
  then have "json_parse (manifest_text m) = Some (manifest_json m)"
    unfolding manifest_text_def by (rule json_parse_marshal_indent) (simp add: ws_str_def is_ws_def)
  then show ?thesis using assms d_manifest_json by (simp add: unmarshal_manifest_def manifest_ok_def)
qed

end
