(* ===== verification/EvidenceChain.thy ===== *)
theory EvidenceChain
  imports EvidenceIO
begin

text \<open>
  The hash chain: the check each record of a store goes through (the callbacks of
  \<^verbatim>\<open>validateSegmentedChain\<close> and \<^verbatim>\<open>validateLegacyChain\<close>), the specification of a linked list of records
  it decides, and what linked records guarantee.
\<close>

text \<open>The variables the callback closes over: \<^verbatim>\<open>prev\<close>, \<^verbatim>\<open>total\<close>, \<^verbatim>\<open>lastHash\<close> and \<^verbatim>\<open>policyRef\<close>.\<close>

record chain_state =
  cs_prev :: string
  cs_total :: nat
  cs_last :: string
  cs_policy :: string

definition chain_start :: chain_state where
  "chain_start = \<lparr>cs_prev = [], cs_total = 0, cs_last = [], cs_policy = []\<rparr>"

definition check_record ::
  "(string \<Rightarrow> string) \<Rightarrow> evidence_record \<Rightarrow> chain_state \<Rightarrow> ev_err option \<times> chain_state" where
  "check_record sha rec st =
    (if cs_total st = 0 \<and> er_previous_hash rec \<noteq> [] then
       (Some (EChain (cs_total st) (er_event_id rec) ''non-empty previous_hash in chain head''), st)
     else if cs_total st \<noteq> 0 \<and> er_previous_hash rec \<noteq> cs_prev st then
       (Some (EChain (cs_total st) (er_event_id rec) ''previous_hash mismatch''), st)
     else (case ComputeHash sha rec of
         None \<Rightarrow> (Some EMarshalCanonical, st)
       | Some expected \<Rightarrow>
           if er_hash rec \<noteq> expected then
             (Some (EChain (cs_total st) (er_event_id rec) ''hash mismatch''), st)
           else if er_policy_ref rec \<noteq> [] \<and> cs_policy st \<noteq> [] \<and> cs_policy st \<noteq> er_policy_ref rec then
             (Some (EMsg ''mixed policy_ref values detected''), st)
           else
             (None, \<lparr>cs_prev = er_hash rec, cs_total = cs_total st + 1, cs_last = er_hash rec,
                     cs_policy = (if er_policy_ref rec \<noteq> [] \<and> cs_policy st = [] then er_policy_ref rec
                                  else cs_policy st)\<rparr>)))"

section \<open>Specification\<close>

text \<open>Records linked from a given hash: each names its predecessor's hash and carries its own.\<close>

fun links :: "(string \<Rightarrow> string) \<Rightarrow> string \<Rightarrow> evidence_record list \<Rightarrow> bool" where
  "links sha p [] = True"
| "links sha p (r # rs) =
    (er_previous_hash r = p \<and> ComputeHash sha r = Some (er_hash r) \<and> links sha (er_hash r) rs)"

definition last_hash :: "string \<Rightarrow> evidence_record list \<Rightarrow> string" where
  "last_hash p rs = (if rs = [] then p else er_hash (last rs))"

text \<open>The one policy reference the records agree on, those without one left aside.\<close>

fun policy_end :: "string \<Rightarrow> evidence_record list \<Rightarrow> string" where
  "policy_end p [] = p"
| "policy_end p (r # rs) = policy_end (if p = [] then er_policy_ref r else p) rs"

definition policy_fits :: "string \<Rightarrow> string \<Rightarrow> bool" where
  "policy_fits p q \<longleftrightarrow> p = [] \<or> q = [] \<or> p = q"

definition one_policy :: "evidence_record list \<Rightarrow> bool" where
  "one_policy rs \<longleftrightarrow> (\<forall>r \<in> set rs. \<forall>q \<in> set rs. policy_fits (er_policy_ref r) (er_policy_ref q))"

definition valid_chain :: "(string \<Rightarrow> string) \<Rightarrow> evidence_record list \<Rightarrow> bool" where
  "valid_chain sha rs \<longleftrightarrow> links sha [] rs \<and> one_policy rs"

definition chain_end :: "chain_state \<Rightarrow> evidence_record list \<Rightarrow> chain_state" where
  "chain_end st rs = \<lparr>cs_prev = last_hash (cs_prev st) rs, cs_total = cs_total st + length rs,
     cs_last = last_hash (cs_last st) rs, cs_policy = policy_end (cs_policy st) rs\<rparr>"

lemma last_hash_simps [simp]:
  "last_hash p [] = p" "last_hash p (r # rs) = last_hash (er_hash r) rs"
  "last_hash p (rs @ [r]) = er_hash r"
  by (simp_all add: last_hash_def)

lemma links_append [simp]: "links sha p (rs @ qs) \<longleftrightarrow> links sha p rs \<and> links sha (last_hash p rs) qs"
  by (induction rs arbitrary: p) auto

lemma policy_end_append [simp]: "policy_end p (rs @ qs) = policy_end (policy_end p rs) qs"
  by (induction rs arbitrary: p) auto

text \<open>Policies seen one after the other, the way the callback compares them.\<close>

fun policies_from :: "string \<Rightarrow> evidence_record list \<Rightarrow> bool" where
  "policies_from p [] = True"
| "policies_from p (r # rs) =
    (policy_fits p (er_policy_ref r) \<and> policies_from (if p = [] then er_policy_ref r else p) rs)"

lemma policies_from_fixed: "p \<noteq> [] \<Longrightarrow> policies_from p rs \<longleftrightarrow> (\<forall>r \<in> set rs. policy_fits p (er_policy_ref r))"
  by (induction rs) auto

lemma policies_from_one_policy: "policies_from [] rs \<longleftrightarrow> one_policy rs"
proof (induction rs)
  case Nil
  then show ?case by (simp add: one_policy_def)
next
  case (Cons r rs)
  show ?case
  proof (cases "er_policy_ref r = []")
    case True
    then show ?thesis using Cons by (auto simp: one_policy_def policy_fits_def)
  next
    case False
    then have "policies_from [] (r # rs) \<longleftrightarrow> (\<forall>q \<in> set rs. policy_fits (er_policy_ref r) (er_policy_ref q))"
      by (simp add: policy_fits_def policies_from_fixed)
    also have "\<dots> \<longleftrightarrow> one_policy (r # rs)"
      using False unfolding one_policy_def policy_fits_def by (simp, metis)
    finally show ?thesis .
  qed
qed

lemma policies_from_append [simp]:
  "policies_from p (rs @ qs) \<longleftrightarrow> policies_from p rs \<and> policies_from (policy_end p rs) qs"
  by (induction rs arbitrary: p) auto

section \<open>The check decides the specification\<close>

lemma check_record_None:
  assumes "cs_total st = 0 \<longrightarrow> cs_prev st = []"
  shows "check_record sha r st = (None, st') \<longleftrightarrow>
    links sha (cs_prev st) [r] \<and> policy_fits (cs_policy st) (er_policy_ref r) \<and> st' = chain_end st [r]"
  using assms
  by (auto simp: check_record_def chain_end_def policy_fits_def split: option.splits if_splits)

lemma each_check_record:
  assumes "cs_total st = 0 \<longrightarrow> cs_prev st = []"
  shows "each (check_record sha) rs st = (None, st') \<longleftrightarrow>
    links sha (cs_prev st) rs \<and> policies_from (cs_policy st) rs \<and> st' = chain_end st rs"
  using assms
proof (induction rs arbitrary: st)
  case Nil
  then show ?case by (auto simp: chain_end_def)
next
  case (Cons r rs)
  show ?case
  proof (cases "check_record sha r st")
    case (Pair e st1)
    show ?thesis
    proof (cases e)
      case None
      with Pair Cons.prems have s: "links sha (cs_prev st) [r]" "policy_fits (cs_policy st) (er_policy_ref r)"
        "st1 = chain_end st [r]"
        using check_record_None by auto
      have "each (check_record sha) (r # rs) st = each (check_record sha) rs st1"
        using Pair None by simp
      moreover have "cs_total st1 = 0 \<longrightarrow> cs_prev st1 = []" using s(3) by (simp add: chain_end_def)
      ultimately show ?thesis
        using Cons.IH [of st1] s by (auto simp: chain_end_def)
    next
      case (Some x)
      then have "\<not> (links sha (cs_prev st) [r] \<and> policy_fits (cs_policy st) (er_policy_ref r))"
        using Pair check_record_None [OF Cons.prems, of sha r "chain_end st [r]"] by auto
      with Some Pair show ?thesis by auto
    qed
  qed
qed

lemma each_check_start:
  "each (check_record sha) rs chain_start = (None, st') \<longleftrightarrow> valid_chain sha rs \<and> st' = chain_end chain_start rs"
  using each_check_record [of chain_start sha rs st']
  by (simp add: chain_start_def valid_chain_def policies_from_one_policy)

section \<open>Tamper evidence\<close>

text \<open>
  Two linked lists that end in the same hash agree on every hashed field, if the hash function has no
  collision among the texts hashed for them: changing, dropping, inserting or reordering records
  changes the last hash.
\<close>

definition hashed_fields :: "evidence_record \<Rightarrow> evidence_record" where
  "hashed_fields r = hash_payload (norm_record r)"

lemma record_ok_hash_payload: "record_ok r \<Longrightarrow> record_ok (hash_payload r)"
  by (simp add: record_ok_def hash_payload_def Let_def)

lemma d_record_canonical_members:
  assumes "record_ok r"
  shows "d_record (JObj (canonical_members (hash_payload r))) = Some (hashed_fields r)"
proof -
  have t: "time_ok (er_timestamp r)"
    and x: "case xr_exit_code (er_execution_result r) of None \<Rightarrow> True | Some i \<Rightarrow> int64 i"
    using assms by (auto simp: record_ok_def Let_def)
  show ?thesis
    unfolding d_record_def canonical_members_def hash_payload_def
    by (simp add: field_def member_simps t d_execution_result_json [OF x] d_map_map_json norm_record_def
        hashed_fields_def hash_payload_def)
qed

lemma canonical_text_inject:
  assumes "record_ok r" "record_ok q" "canonical_text r = canonical_text q"
  shows "hashed_fields r = hashed_fields q"
proof -
  have "json_ok (JObj (canonical_members (hash_payload u)))" if "record_ok u" for u
    using json_ok_canonical_members [OF record_ok_hash_payload [OF that]] .
  with assms have "JObj (canonical_members (hash_payload r)) = JObj (canonical_members (hash_payload q))"
    by (simp add: canonical_text_def marshal_inject del: json_ok.simps json.inject)
  then show ?thesis
    using d_record_canonical_members [OF assms(1)] d_record_canonical_members [OF assms(2)] by simp
qed

definition no_collision :: "(string \<Rightarrow> string) \<Rightarrow> evidence_record list \<Rightarrow> bool" where
  "no_collision sha rs \<longleftrightarrow>
    (\<forall>r \<in> set rs. sha (canonical_text r) \<noteq> []
      \<and> (\<forall>q \<in> set rs. sha (canonical_text r) = sha (canonical_text q) \<longrightarrow> canonical_text r = canonical_text q))"

lemma no_collision_subset: "no_collision sha rs \<Longrightarrow> set qs \<subseteq> set rs \<Longrightarrow> no_collision sha qs"
  by (auto simp: no_collision_def)

lemma links_hash: "links sha p rs \<Longrightarrow> r \<in> set rs \<Longrightarrow> er_hash r = sha (canonical_text r)"
  by (induction rs arbitrary: p) (auto simp: ComputeHash_def split: if_splits)

lemma links_same_end:
  assumes "links sha [] rs" "links sha [] qs" "last_hash [] rs = last_hash [] qs"
    "\<And>r. r \<in> set rs \<union> set qs \<Longrightarrow> record_ok r" "no_collision sha (rs @ qs)"
  shows "map hashed_fields rs = map hashed_fields qs"
  using assms
proof (induction rs arbitrary: qs rule: rev_induct)
  case Nil
  have "qs = []"
  proof (rule ccontr)
    assume "qs \<noteq> []"
    then have "last qs \<in> set qs" "last_hash [] qs = er_hash (last qs)" by (simp_all add: last_hash_def)
    with Nil links_hash [OF Nil(2)] show False by (auto simp: no_collision_def)
  qed
  then show ?case by simp
next
  case (snoc r rs)
  have hr: "er_hash r = sha (canonical_text r)" using links_hash [OF snoc.prems(1)] by simp
  then have "er_hash r \<noteq> []" using snoc.prems(5) by (simp add: no_collision_def)
  with snoc.prems(3) obtain qs' q where qs: "qs = qs' @ [q]" by (cases qs rule: rev_exhaust) auto
  have hq: "er_hash q = sha (canonical_text q)" using links_hash [OF snoc.prems(2)] qs by simp
  have "sha (canonical_text r) = sha (canonical_text q)" using snoc.prems(3) hr hq qs by simp
  moreover have "r \<in> set ((rs @ [r]) @ qs)" "q \<in> set ((rs @ [r]) @ qs)" by (simp_all add: qs)
  ultimately have "canonical_text r = canonical_text q"
    using snoc.prems(5) unfolding no_collision_def by blast
  then have f: "hashed_fields r = hashed_fields q"
    using snoc.prems(4) qs by (intro canonical_text_inject) auto
  then have "er_previous_hash r = er_previous_hash q"
    by (simp add: hashed_fields_def hash_payload_def)
  with snoc.prems(1,2) qs have "last_hash [] rs = last_hash [] qs'" by simp
  moreover have "no_collision sha (rs @ qs')"
    using snoc.prems(5) by (rule no_collision_subset) (auto simp: qs)
  ultimately have "map hashed_fields rs = map hashed_fields qs'"
    using snoc.prems(1,2,4) qs by (intro snoc.IH) simp_all
  with f qs show ?case by simp
qed

end
