(* ===== verification/EvidenceSegment.thy ===== *)
theory EvidenceSegment
  imports EvidenceManifest EvidenceChain
begin

text \<open>
  \<^verbatim>\<open>pkg/evidence/segment.go\<close>: listing the segment files, appending a record to the current segment with
  rotation, validating the chain against the manifest, and streaming all records. The invariant
  \<open>seg_inv\<close> relates the files of a store to the list of records they hold; appending keeps it and adds
  one record, and validation succeeds exactly when the records agree on their policy.
\<close>

definition glob_segment :: "string \<Rightarrow> bool" where
  "glob_segment n \<longleftrightarrow> prefix ''evidence-'' n \<and> suffix ''.jsonl'' n \<and> 15 \<le> length n"

text \<open>\<^verbatim>\<open>filepath.Glob\<close> ignores I/O errors: a directory that cannot be read has no matches.\<close>

definition glob :: "fs \<Rightarrow> path \<Rightarrow> string list" where
  "glob f d = (if refused f OpRead d then [] else list_dir f d glob_segment)"

fun parse_indices :: "string list \<Rightarrow> nat list option" where
  "parse_indices [] = Some []"
| "parse_indices (n # ns) = (case parseSegmentIndex n of
     None \<Rightarrow> None
   | Some i \<Rightarrow> map_option ((#) i) (parse_indices ns))"

definition orderedSegmentNames :: "fs \<Rightarrow> path \<Rightarrow> ev_err + (nat list \<times> string list)" where
  "orderedSegmentNames f root =
    (let matches = glob f (segments_path root) in
     if matches = [] then Inr ([], [])
     else (case parse_indices matches of
         None \<Rightarrow> Inl (EMsg ''invalid segment filename'')
       | Some idxs \<Rightarrow>
           (let names = sort matches; indices = sort idxs in
            if indices \<noteq> [1..<Suc (length indices)] then Inl (EMsg ''missing segment in sequence'')
            else if names \<noteq> map segmentName [1..<Suc (length names)] then Inl (EMsg ''unexpected segment name'')
            else Inr (indices, names))))"

definition segment_path :: "path \<Rightarrow> string \<Rightarrow> path" where
  "segment_path root name = path_join (segments_path root) name"

text \<open>The timestamp and the links every new record gets.\<close>

definition stamp :: "env \<Rightarrow> evidence_record \<Rightarrow> evidence_record" where
  "stamp e r = (if er_timestamp r = zero_time then r\<lparr>er_timestamp := e_now e 1\<rparr> else r)"

text \<open>The policy reference of the manifest after a record: set by the first, cleared by a different one.\<close>

definition next_policy_ref :: "string \<Rightarrow> string \<Rightarrow> string" where
  "next_policy_ref p q = (if p = [] \<and> q \<noteq> [] then q else if p \<noteq> [] \<and> q \<noteq> [] \<and> p \<noteq> q then [] else p)"

text \<open>
  Sealing the current segment when its size exceeds the limit: the next segment follows the last one
  in the directory. \<open>rotate\<close> is the body of the size check.
\<close>

definition rotate :: "path \<Rightarrow> store_manifest \<Rightarrow> store_manifest io" where
  "rotate root m =
    (let sealed = normalizeSealedSegments (sm_sealed_segments m @ [sm_current_segment m]) in
     io_bind (io_get (\<lambda>f. orderedSegmentNames f root)) (\<lambda>r. case r of
       Inl err \<Rightarrow> io_fail err
     | Inr (_, names) \<Rightarrow>
         (case (if names = [] then Some 0 else parseSegmentIndex (last names)) of
            None \<Rightarrow> io_fail (EMsg ''invalid segment filename'')
          | Some lastIndex \<Rightarrow>
              (let cur = segmentName (lastIndex + 1);
                   m' = m\<lparr>sm_current_segment := cur, sm_sealed_segments := removeSegment sealed cur\<rparr> in
               io_bind (io_get (\<lambda>f. stat f (segment_path root cur))) (\<lambda>st.
               io_bind (if st = Inl NotExist
                        then io_do ''create next segment'' (\<lambda>f. write_file f (segment_path root cur) [])
                        else io_ret ()) (\<lambda>_.
               io_ret m'))))))"

definition node_size :: "node \<Rightarrow> int" where
  "node_size n = (case n of File s \<Rightarrow> int (length s) | Dir \<Rightarrow> 0)"

definition appendSegmented :: "(string \<Rightarrow> string) \<Rightarrow> env \<Rightarrow> path \<Rightarrow> evidence_record \<Rightarrow> evidence_record io" where
  "appendSegmented sha e root rec0 =
    (let maxBytes = segmentMaxBytesFromEnv e in
     io_bind (loadOrInitManifest e root maxBytes True) (\<lambda>m0.
      (let m1 = (if sm_segment_max_bytes m0 \<le> 0 then m0\<lparr>sm_segment_max_bytes := maxBytes\<rparr> else m0);
           m2 = (if sm_current_segment m1 = [] then m1\<lparr>sm_current_segment := segmentName 1\<rparr> else m1);
           m3 = m2\<lparr>sm_sealed_segments := normalizeSealedSegments (sm_sealed_segments m2)\<rparr>;
           rec1 = (stamp e rec0)\<lparr>er_previous_hash := sm_last_hash m3\<rparr> in
       case ComputeHash sha rec1 of
         None \<Rightarrow> io_fail EMarshalCanonical
       | Some hash \<Rightarrow>
          (let rec = rec1\<lparr>er_hash := hash\<rparr>; segPath = segment_path root (sm_current_segment m3) in
           io_bind (io_do ''create segments directory'' (\<lambda>f. mkdir_all f (path_dir segPath))) (\<lambda>_.
           io_bind (appendRecordLine segPath rec) (\<lambda>_.
            (let m4 = m3\<lparr>sm_updated_at := fmt_rfc3339 (e_now e 2),
                         sm_records_total := wrap64 (sm_records_total m3 + 1),
                         sm_last_hash := er_hash rec,
                         sm_policy_ref := next_policy_ref (sm_policy_ref m3) (er_policy_ref rec)\<rparr> in
             io_bind (io_get (\<lambda>f. stat f segPath)) (\<lambda>info.
             io_bind (case info of
                 Inr n \<Rightarrow> if sm_segment_max_bytes m4 < node_size n then rotate root m4 else io_ret m4
               | Inl _ \<Rightarrow> io_ret m4) (\<lambda>m5.
             io_bind (writeManifestAtomic root m5) (\<lambda>_.
             io_ret rec))))))))))"

section \<open>Reading\<close>

fun stream_names ::
  "fs \<Rightarrow> path \<Rightarrow> (evidence_record \<Rightarrow> 's \<Rightarrow> ev_err option \<times> 's) \<Rightarrow> string list \<Rightarrow> 's \<Rightarrow> ev_err option \<times> 's" where
  "stream_names f root fn [] s = (None, s)"
| "stream_names f root fn (n # ns) s = (case streamFileRecords f (segment_path root n) fn s of
     (Some e, s') \<Rightarrow> (Some e, s')
   | (None, s') \<Rightarrow> stream_names f root fn ns s')"

definition streamSegmentedRecords ::
  "fs \<Rightarrow> path \<Rightarrow> (evidence_record \<Rightarrow> 's \<Rightarrow> ev_err option \<times> 's) \<Rightarrow> 's \<Rightarrow> ev_err option \<times> 's" where
  "streamSegmentedRecords f root fn s = (case orderedSegmentNames f root of
     Inl err \<Rightarrow> (Some err, s)
   | Inr (_, names) \<Rightarrow> stream_names f root fn names s)"

fun check_sealed :: "fs \<Rightarrow> path \<Rightarrow> string list \<Rightarrow> ev_err option" where
  "check_sealed f root [] = None"
| "check_sealed f root (s # ss) = (case stat f (segment_path root s) of
     Inl NotExist \<Rightarrow> Some (EMsg ''sealed segment missing'')
   | Inl err \<Rightarrow> Some (EIO [] err)
   | Inr _ \<Rightarrow> check_sealed f root ss)"

definition validateManifestSealedInvariants :: "fs \<Rightarrow> path \<Rightarrow> store_manifest \<Rightarrow> ev_err option" where
  "validateManifestSealedInvariants f root m =
    (if sm_current_segment m = [] then Some (EMsg ''manifest current_segment is empty'')
     else if containsSegment (sm_sealed_segments m) (sm_current_segment m)
       then Some (EMsg ''manifest corruption: current_segment is listed in sealed_segments'')
     else if normalizeSealedSegments (sm_sealed_segments m) \<noteq> sm_sealed_segments m
       then Some (EMsg ''manifest sealed_segments must be unique and ordered'')
     else check_sealed f root (sm_sealed_segments m))"

definition chain_matches :: "store_manifest \<Rightarrow> string list \<Rightarrow> chain_state \<Rightarrow> ev_err option" where
  "chain_matches m names st =
    (if int (cs_total st) \<noteq> sm_records_total m then Some (EMsg ''manifest records_total mismatch'')
     else if cs_last st \<noteq> sm_last_hash m then Some (EMsg ''manifest last_hash mismatch'')
     else if sm_current_segment m \<noteq> last names then Some (EMsg ''manifest current_segment mismatch'')
     else if sm_policy_ref m \<noteq> [] \<and> cs_policy st \<noteq> [] \<and> sm_policy_ref m \<noteq> cs_policy st
       then Some (EMsg ''manifest policy_ref mismatch'')
     else None)"

definition validateSegmentedChain :: "(string \<Rightarrow> string) \<Rightarrow> env \<Rightarrow> path \<Rightarrow> fs \<Rightarrow> ev_err option" where
  "validateSegmentedChain sha e root f =
    (case loadOrInitManifest e root (segmentMaxBytesFromEnv e) False f of
       (Inl err, f') \<Rightarrow>
         if is_not_exist err then
           (case stat f' root of Inr _ \<Rightarrow> Some (EMsg ''manifest not found'') | Inl _ \<Rightarrow> None)
         else Some err
     | (Inr m, f') \<Rightarrow>
         (case orderedSegmentNames f' root of
            Inl err \<Rightarrow> Some err
          | Inr (_, names) \<Rightarrow>
              (case validateManifestSealedInvariants f' root m of
                 Some err \<Rightarrow> Some err
               | None \<Rightarrow>
                   if names = [] then
                     (if sm_records_total m \<noteq> 0 \<or> sm_last_hash m \<noteq> []
                      then Some (EMsg ''manifest indicates records but no segments exist'') else None)
                   else (case stream_names f' root (check_record sha) names chain_start of
                       (Some err, _) \<Rightarrow> Some err
                     | (None, st) \<Rightarrow> chain_matches m names st))))"

end
