(* ===== verification/EvidenceSegmentLaws.thy ===== *)
theory EvidenceSegmentLaws
  imports EvidenceSegment
begin

text \<open>
  What the segmented store guarantees: the invariant that ties the files of a store to the records
  they hold, that appending keeps it, and what validation and streaming return under it.
\<close>

section \<open>Segment files\<close>

abbreviation segs :: "path \<Rightarrow> path" where
  "segs root \<equiv> child root segmentsDirName"

definition seg_names :: "nat \<Rightarrow> string list" where
  "seg_names n = map segmentName [1..<Suc n]"

lemma plain_names [simp]:
  "plain_name segmentsDirName" "plain_name manifestFileName" "plain_name (manifestFileName @ ''.tmp'')"
  by (simp_all add: segmentsDirName_def manifestFileName_def plain_name_def)

lemma names_distinct [simp]:
  "lockFileName \<noteq> manifestFileName" "lockFileName \<noteq> manifestFileName @ ''.tmp''" "lockFileName \<noteq> segmentsDirName"
  "manifestFileName \<noteq> segmentsDirName" "manifestFileName @ ''.tmp'' \<noteq> segmentsDirName"
  "manifestFileName \<noteq> lockFileName" "manifestFileName @ ''.tmp'' \<noteq> lockFileName" "segmentsDirName \<noteq> lockFileName"
  by (simp_all add: manifestFileName_def segmentsDirName_def lockFileName_def)

lemma store_paths [simp]:
  assumes "wf_path root"
  shows "segments_path root = segs root" "ManifestPath root = child root manifestFileName"
    "ManifestTmpPath root = child root (manifestFileName @ ''.tmp'')"
  using assms by (simp_all add: segments_path_def ManifestPath_def ManifestTmpPath_def)

lemma segment_path_segmentName [simp]:
  "wf_path root \<Longrightarrow> segment_path root (segmentName i) = child (segs root) (segmentName i)"
  by (simp add: segment_path_def)

lemma glob_segmentName [simp]: "glob_segment (segmentName i)"
proof -
  have "6 \<le> length (pad 6 i)" by (simp add: pad_def)
  moreover have "suffix ''.jsonl'' (segmentName i)"
    unfolding segmentName_def by (metis append_assoc suffixI)
  ultimately show ?thesis by (simp add: glob_segment_def segmentName_def)
qed

lemma seg_names_sorted:
  assumes "n \<le> 999999"
  shows "sorted (seg_names n)" "distinct (seg_names n)"
proof -
  have "sorted_wrt (<) (seg_names n)"
    using assms unfolding seg_names_def sorted_wrt_map
    by (intro sorted_wrt_mono_rel [OF _ sorted_wrt_upt]) (auto intro: segmentName_less)
  then show "sorted (seg_names n)" "distinct (seg_names n)"
    by (simp_all add: strict_sorted_imp_sorted strict_sorted_iff)
qed

lemma seg_names_Suc: "1 \<le> n \<Longrightarrow> seg_names n = seg_names (n - 1) @ [segmentName n]"
  by (cases n) (simp_all add: seg_names_def)

lemma seg_names_props [simp]:
  "length (seg_names n) = n" "[] \<notin> set (seg_names n)" "seg_names n = [] \<longleftrightarrow> n = 0"
  "1 \<le> n \<Longrightarrow> last (seg_names n) = segmentName n"
  by (auto simp: seg_names_def dest: sym)

lemma set_seg_names: "set (seg_names n) = segmentName ` {1..n}"
  by (auto simp: seg_names_def)

lemma parse_indices_seg_names: "n \<le> 999999 \<Longrightarrow> parse_indices (seg_names n) = Some [1..<Suc n]"
proof -
  have "parse_indices (map segmentName is) = Some is" if "\<forall>i \<in> set is. 1 \<le> i \<and> i \<le> 999999" for "is"
    using that by (induction "is") (auto simp: parseSegmentIndex_iff [THEN iffD2])
  then show "n \<le> 999999 \<Longrightarrow> ?thesis" by (simp add: seg_names_def del: upt_Suc)
qed

text \<open>The segment files of a store are exactly the first \<open>n\<close>.\<close>

definition seg_files :: "fs \<Rightarrow> path \<Rightarrow> nat \<Rightarrow> bool" where
  "seg_files f root n \<longleftrightarrow>
    {s. glob_segment s \<and> node_at f (child (segs root) s) \<noteq> None} = set (seg_names n)"

lemma orderedSegmentNames_ok:
  assumes "wf_path root" "unrefused f" "seg_files f root n" "n \<le> 999999"
  shows "orderedSegmentNames f root = Inr ([1..<Suc n], seg_names n)"
proof -
  have "glob f (segs root) = seg_names n"
    using assms seg_names_sorted [OF assms(4)]
    unfolding glob_def unrefused_def by (auto intro!: list_dir_eqI simp: seg_files_def)
  moreover have "sort (seg_names n) = seg_names n"
    using seg_names_sorted [OF assms(4)] by (simp add: sort_key_id_if_sorted)
  moreover have "sort [1..<Suc n] = [1..<Suc n]"
    by (rule sort_key_id_if_sorted) (simp del: upt_Suc)
  ultimately show ?thesis
    using assms parse_indices_seg_names [OF assms(4)]
    by (cases "n = 0") (simp_all add: orderedSegmentNames_def Let_def seg_names_def del: upt_Suc)
qed

section \<open>Records of a store\<close>

definition file_records :: "fs \<Rightarrow> path \<Rightarrow> evidence_record list" where
  "file_records f p = fst (read_lines 0 (raw_lines (content (node_at f p))))"

definition readable :: "fs \<Rightarrow> path \<Rightarrow> bool" where
  "readable f p \<longleftrightarrow> is_file (node_at f p) \<and> terminated (content (node_at f p))
    \<and> snd (read_lines 0 (raw_lines (content (node_at f p)))) = None"

definition store_records :: "fs \<Rightarrow> path \<Rightarrow> nat \<Rightarrow> evidence_record list" where
  "store_records f root n = concat (map (\<lambda>s. file_records f (child (segs root) s)) (seg_names n))"

lemma streamFileRecords_readable:
  assumes "unrefused f" "dir_at f d" "readable f (child d n)"
  shows "streamFileRecords f (child d n) fn s = each fn (file_records f (child d n)) s"
proof -
  from assms(3) obtain txt' where t: "node_at f (child d n) = Some (File txt')"
    by (auto simp: readable_def is_file_def split: option.splits node.splits)
  from read_file_child [OF assms(1,2) t] show ?thesis
    using assms(3) t
    by (auto simp: streamFileRecords_def stream_lines_each file_records_def readable_def
        split: prod.splits option.splits)
qed

lemma stream_names_each:
  assumes "wf_path root" "unrefused f" "dir_at f (segs root)"
    "\<forall>i \<in> set is. readable f (child (segs root) (segmentName i))"
  shows "stream_names f root fn (map segmentName is) s =
    each fn (concat (map (\<lambda>i. file_records f (child (segs root) (segmentName i))) is)) s"
  using assms(4)
proof (induction "is" arbitrary: s)
  case Nil
  then show ?case by simp
next
  case (Cons i ns)
  then have "streamFileRecords f (child (segs root) (segmentName i)) fn s =
      each fn (file_records f (child (segs root) (segmentName i))) s"
    by (intro streamFileRecords_readable assms) simp
  with Cons assms(1) show ?case
    by (simp add: each_append split: prod.splits option.splits)
qed

section \<open>The invariant\<close>

text \<open>
  A store at \<open>root\<close> with manifest \<open>m\<close>, \<open>n\<close> segments and records \<open>rs\<close>: its directories exist, the
  manifest file holds the text of \<open>m\<close>, every segment can be read, and the manifest's counters describe
  \<open>rs\<close>, which are linked.
\<close>

definition store_files :: "path \<Rightarrow> store_manifest \<Rightarrow> nat \<Rightarrow> fs \<Rightarrow> bool" where
  "store_files root m n f \<longleftrightarrow> unrefused f \<and> dir_at f (segs root)
    \<and> node_at f (child root manifestFileName) = Some (File (manifest_text m))
    \<and> node_at f (child root (manifestFileName @ ''.tmp'')) \<noteq> Some Dir
    \<and> node_at f (child root lockFileName) \<noteq> Some Dir
    \<and> seg_files f root n \<and> (\<forall>i \<in> {1..n}. readable f (child (segs root) (segmentName i)))"

definition manifest_describes :: "store_manifest \<Rightarrow> nat \<Rightarrow> evidence_record list \<Rightarrow> bool" where
  "manifest_describes m n rs \<longleftrightarrow> manifest_ok m \<and> sm_format m \<noteq> [] \<and> sm_segments_dir m \<noteq> []
    \<and> 0 < sm_segment_max_bytes m
    \<and> sm_current_segment m = segmentName n \<and> sm_sealed_segments m = seg_names (n - 1)
    \<and> sm_records_total m = int (length rs) \<and> sm_last_hash m = last_hash [] rs"

definition seg_inv :: "(string \<Rightarrow> string) \<Rightarrow> path \<Rightarrow> store_manifest \<Rightarrow> nat \<Rightarrow> evidence_record list \<Rightarrow> fs \<Rightarrow> bool" where
  "seg_inv sha root m n rs f \<longleftrightarrow> wf_path root \<and> 1 \<le> n \<and> n \<le> 999999 \<and> store_files root m n f
    \<and> manifest_describes m n rs \<and> store_records f root n = rs \<and> links sha [] rs"

lemma seg_invD:
  assumes "seg_inv sha root m n rs f"
  shows "wf_path root" "1 \<le> n" "n \<le> 999999" "store_files root m n f" "manifest_describes m n rs"
    "store_records f root n = rs" "links sha [] rs" "unrefused f" "dir_at f root" "dir_at f (segs root)"
    "seg_files f root n"
  using assms by (simp_all add: seg_inv_def store_files_def)

lemma fill_after_read_described:
  assumes "manifest_describes m n rs" "n \<le> 999999"
  shows "fill_after_read mb m = m"
proof -
  have "normalizeSealedSegments (seg_names (n - 1)) = seg_names (n - 1)"
    using seg_names_sorted [of "n - 1"] assms(2) by (intro normalizeSealedSegments_id) auto
  then show ?thesis using assms(1) by (simp add: fill_after_read_def manifest_describes_def Let_def)
qed

lemma load_described:
  assumes "seg_inv sha root m n rs f"
  shows "loadOrInitManifest e root mb c f = (Inr m, f)"
proof -
  note inv = seg_invD [OF assms]
  have "read_file f (ManifestPath root) = Inr (manifest_text m)"
    using inv by (simp add: read_file_child store_files_def)
  moreover have "unmarshal_manifest (manifest_text m) = Some m"
    using inv(5) by (simp add: unmarshal_manifest_text manifest_describes_def)
  moreover have "fill_after_read mb m = m" using fill_after_read_described [OF inv(5,3)] .
  ultimately show ?thesis by (simp add: loadOrInitManifest_def io_bind_def)
qed

lemma stream_store:
  assumes "seg_inv sha root m n rs f"
  shows "stream_names f root fn (seg_names n) s = each fn rs s"
proof -
  note inv = seg_invD [OF assms]
  have "\<forall>i \<in> set [1..<Suc n]. readable f (child (segs root) (segmentName i))"
    using inv(4) by (auto simp: store_files_def)
  from stream_names_each [OF inv(1,8,10) this] show ?thesis
    using inv(6) by (simp add: seg_names_def store_records_def o_def del: upt_Suc)
qed

lemma streamSegmentedRecords_each:
  assumes "seg_inv sha root m n rs f"
  shows "streamSegmentedRecords f root fn s = each fn rs s"
  using stream_store [OF assms] orderedSegmentNames_ok [OF seg_invD(1,8,11,3) [OF assms]]
  by (simp add: streamSegmentedRecords_def)

section \<open>Validation\<close>

lemma seg_files_node:
  assumes "seg_files f root n" "1 \<le> i" "i \<le> n"
  shows "node_at f (child (segs root) (segmentName i)) \<noteq> None"
proof -
  have "segmentName i \<in> set (seg_names n)" using assms(2,3) by (auto simp: set_seg_names)
  then show ?thesis using assms(1) by (auto simp: seg_files_def)
qed

lemma check_sealed_ok:
  assumes "wf_path root" "unrefused f" "dir_at f (segs root)"
    "\<forall>i \<in> set is. node_at f (child (segs root) (segmentName i)) \<noteq> None"
  shows "check_sealed f root (map segmentName is) = None"
  using assms(4)
proof (induction "is")
  case Nil
  then show ?case by simp
next
  case (Cons i ns)
  then obtain x where "node_at f (child (segs root) (segmentName i)) = Some x" by auto
  with Cons assms(1) show ?case by (simp add: stat_child [OF assms(2,3)])
qed

lemma sealed_invariants_ok:
  assumes "seg_inv sha root m n rs f"
  shows "validateManifestSealedInvariants f root m = None"
proof -
  note inv = seg_invD [OF assms]
  have m: "sm_current_segment m = segmentName n" "sm_sealed_segments m = seg_names (n - 1)"
    using inv(5) by (simp_all add: manifest_describes_def)
  have "normalizeSealedSegments (seg_names (n - 1)) = seg_names (n - 1)"
    using seg_names_sorted [of "n - 1"] inv(3) by (intro normalizeSealedSegments_id) auto
  moreover have "segmentName n \<notin> set (seg_names (n - 1))" using inv(2) by (auto simp: set_seg_names)
  moreover have "check_sealed f root (seg_names (n - 1)) = None"
    unfolding seg_names_def using seg_files_node [OF inv(11)]
    by (intro check_sealed_ok inv(1,8,10)) (auto simp del: upt_Suc)
  ultimately show ?thesis by (simp add: validateManifestSealedInvariants_def m)
qed

lemma validateSegmentedChain_iff:
  assumes "seg_inv sha root m n rs f"
  shows "validateSegmentedChain sha e root f = None \<longleftrightarrow>
    one_policy rs \<and> policy_fits (sm_policy_ref m) (policy_end [] rs)"
proof -
  note inv = seg_invD [OF assms]
  have "n \<noteq> 0" using inv(2) by simp
  then have v: "validateSegmentedChain sha e root f =
      (case each (check_record sha) rs chain_start of
         (Some err, _) \<Rightarrow> Some err | (None, st) \<Rightarrow> chain_matches m (seg_names n) st)"
    using orderedSegmentNames_ok [OF inv(1,8,11,3)] sealed_invariants_ok [OF assms]
    by (simp add: validateSegmentedChain_def load_described [OF assms] stream_store [OF assms])
  show ?thesis
  proof (cases "one_policy rs")
    case True
    then have "each (check_record sha) rs chain_start = (None, chain_end chain_start rs)"
      using inv(7) by (simp add: each_check_start valid_chain_def)
    then show ?thesis
      using v True inv(2,5)
      by (auto simp: chain_matches_def chain_end_def chain_start_def manifest_describes_def policy_fits_def)
  next
    case False
    then have "each (check_record sha) rs chain_start \<noteq> (None, st)" for st
      by (simp add: each_check_start valid_chain_def)
    then obtain err st where "each (check_record sha) rs chain_start = (Some err, st)"
      by (metis option.exhaust prod.exhaust)
    then show ?thesis using v False by simp
  qed
qed

section \<open>Appending\<close>

text \<open>The record an append completes and writes.\<close>

definition completed :: "(string \<Rightarrow> string) \<Rightarrow> env \<Rightarrow> string \<Rightarrow> evidence_record \<Rightarrow> evidence_record" where
  "completed sha e prev r =
    (let r1 = (stamp e r)\<lparr>er_previous_hash := prev\<rparr> in r1\<lparr>er_hash := sha (canonical_text r1)\<rparr>)"

definition storable :: "(string \<Rightarrow> string) \<Rightarrow> env \<Rightarrow> string \<Rightarrow> evidence_record \<Rightarrow> bool" where
  "storable sha e prev r \<longleftrightarrow> record_ok (completed sha e prev r) \<and> utf8_valid (er_hash (completed sha e prev r))
    \<and> fits_scanner (completed sha e prev r)"

lemma ComputeHash_completed:
  assumes "storable sha e prev r"
  shows "ComputeHash sha ((stamp e r)\<lparr>er_previous_hash := prev\<rparr>) = Some (er_hash (completed sha e prev r))"
    "(stamp e r)\<lparr>er_previous_hash := prev\<rparr>\<lparr>er_hash := er_hash (completed sha e prev r)\<rparr> = completed sha e prev r"
    "ComputeHash sha (completed sha e prev r) = Some (er_hash (completed sha e prev r))"
    "er_previous_hash (completed sha e prev r) = prev"
    "t_year (er_timestamp (completed sha e prev r)) \<le> 9999"
proof -
  show y: "t_year (er_timestamp (completed sha e prev r)) \<le> 9999"
    using assms time_ok_record by (simp add: storable_def)
  then show "ComputeHash sha ((stamp e r)\<lparr>er_previous_hash := prev\<rparr>) = Some (er_hash (completed sha e prev r))"
    by (simp add: ComputeHash_def completed_def Let_def)
  then show "ComputeHash sha (completed sha e prev r) = Some (er_hash (completed sha e prev r))"
    by (simp add: completed_def Let_def)
qed (simp_all add: completed_def Let_def)

lemma links_completed:
  assumes "storable sha e prev r"
  shows "links sha prev [norm_record (completed sha e prev r)]"
proof -
  have "map_ok (er_params (completed sha e prev r))" using assms by (simp add: storable_def record_ok_def)
  then show ?thesis using ComputeHash_completed [OF assms] by (simp add: ComputeHash_norm)
qed

text \<open>The files after the line was written.\<close>

lemma seg_files_wrote:
  assumes "seg_files f root n" "wrote (child (segs root) (segmentName i)) s f f'" "1 \<le> i" "i \<le> n"
  shows "seg_files f' root n"
proof -
  have "segmentName i \<in> set (seg_names n)" using assms(3,4) by (auto simp: set_seg_names)
  then have "{s. glob_segment s \<and> node_at f' (child (segs root) s) \<noteq> None}
      = {s. glob_segment s \<and> node_at f (child (segs root) s) \<noteq> None}"
    using assms(1) by (auto simp: wrote_node [OF assms(2)] seg_files_def)
  then show ?thesis using assms(1) by (simp add: seg_files_def)
qed

lemma seg_files_wrote_next:
  assumes "seg_files f root n" "wrote (child (segs root) (segmentName (Suc n))) s f f'"
  shows "seg_files f' root (Suc n)"
proof -
  have "set (seg_names (Suc n)) = insert (segmentName (Suc n)) (set (seg_names n))"
    by (auto simp: set_seg_names atLeastAtMostSuc_conv)
  moreover have "{s. glob_segment s \<and> node_at f' (child (segs root) s) \<noteq> None}
      = insert (segmentName (Suc n)) {s. glob_segment s \<and> node_at f (child (segs root) s) \<noteq> None}"
    by (auto simp: wrote_node [OF assms(2)])
  ultimately show ?thesis using assms(1) by (simp add: seg_files_def)
qed

lemma readable_appended:
  assumes "readable f p" "wrote p (content (node_at f p) @ record_line r @ [CHR 0x0A]) f f'"
    "record_ok r" "utf8_valid (er_hash r)" "fits_scanner r"
  shows "readable f' p" "file_records f' p = file_records f p @ [norm_record r]"
proof -
  let ?c = "content (node_at f p)"
  have t: "terminated ?c" "snd (read_lines 0 (raw_lines ?c)) = None" using assms(1) by (simp_all add: readable_def)
  have c: "content (node_at f' p) = ?c @ record_line r @ [CHR 0x0A]" by (simp add: wrote_node [OF assms(2)])
  have rl: "read_lines 0 (raw_lines (content (node_at f' p))) = (file_records f p @ [norm_record r], None)"
    unfolding c raw_lines_append_record [OF t(1)]
    using read_lines_append [OF t(2), of "[record_line r]"] read_record_line [OF assms(3-5)]
    by (simp add: file_records_def)
  then show "file_records f' p = file_records f p @ [norm_record r]" by (simp add: file_records_def)
  show "readable f' p" using rl c by (simp add: readable_def wrote_node [OF assms(2)] terminated_def)
qed

lemma unchanged_file:
  "wrote p s f f' \<Longrightarrow> q \<noteq> p \<Longrightarrow> readable f' q = readable f q \<and> file_records f' q = file_records f q"
  by (simp add: readable_def file_records_def wrote_node)

text \<open>What holds of the files apart from the manifest's text.\<close>

definition body :: "path \<Rightarrow> nat \<Rightarrow> evidence_record list \<Rightarrow> fs \<Rightarrow> bool" where
  "body root n rs f \<longleftrightarrow> unrefused f \<and> dir_at f (segs root)
    \<and> node_at f (child root manifestFileName) \<noteq> Some Dir
    \<and> node_at f (child root (manifestFileName @ ''.tmp'')) \<noteq> Some Dir
    \<and> node_at f (child root lockFileName) \<noteq> Some Dir
    \<and> seg_files f root n \<and> (\<forall>i \<in> {1..n}. readable f (child (segs root) (segmentName i)))
    \<and> store_records f root n = rs"

lemma seg_inv_body:
  "seg_inv sha root m n rs f \<longleftrightarrow> wf_path root \<and> 1 \<le> n \<and> n \<le> 999999 \<and> body root n rs f
    \<and> node_at f (child root manifestFileName) = Some (File (manifest_text m))
    \<and> manifest_describes m n rs \<and> links sha [] rs"
  by (auto simp: seg_inv_def store_files_def body_def)

lemma outside_segs [simp]:
  "child (segs root) s \<noteq> child root t" "child root t \<noteq> child (segs root) s"
  by (auto simp: child_def)

lemma body_append:
  assumes "body root n rs f" "1 \<le> n"
    "wrote (child (segs root) (segmentName n)) (content (node_at f (child (segs root) (segmentName n))) @ record_line r @ [CHR 0x0A]) f f'"
    "record_ok r" "utf8_valid (er_hash r)" "fits_scanner r"
  shows "body root n (rs @ [norm_record r]) f'"
proof -
  let ?p = "\<lambda>i. child (segs root) (segmentName i)"
  note w = wrote_node [OF assms(3)]
  have b: "readable f (?p n)" using assms(1,2) by (simp add: body_def)
  note app = readable_appended [OF b assms(3-6)]
  have same: "readable f' (?p i) = readable f (?p i) \<and> file_records f' (?p i) = file_records f (?p i)" if "i \<noteq> n" for i
    using unchanged_file [OF assms(3)] that by simp
  have r: "\<forall>i \<in> {1..n}. readable f' (?p i)"
    using assms(1) app(1) same by (metis body_def)
  have "store_records f' root n = store_records f root n @ [norm_record r]"
    using assms(2) same app(2)
    by (simp add: store_records_def seg_names_Suc [of n])
      (auto simp: seg_names_def intro!: arg_cong [where f = concat])
  moreover have "\<not> node_at f (?p n) = Some Dir" using b by (auto simp: readable_def)
  then have "dir_at f' (segs root)" using assms(1) by (intro wrote_dir_at [OF assms(3)]) (simp_all add: body_def)
  moreover have "seg_files f' root n"
    using assms(1,2) by (intro seg_files_wrote [OF _ assms(3)]) (simp_all add: body_def)
  ultimately show ?thesis
    using assms(1) r wrote_unrefused [OF assms(3)] by (simp add: body_def w)
qed

lemma body_next:
  assumes "body root n rs f" "wrote (child (segs root) (segmentName (Suc n))) [] f f'"
    "node_at f (child (segs root) (segmentName (Suc n))) = None"
  shows "body root (Suc n) rs f'"
proof -
  let ?p = "\<lambda>i. child (segs root) (segmentName i)"
  note w = wrote_node [OF assms(2)]
  have new: "readable f' (?p (Suc n))" "file_records f' (?p (Suc n)) = []"
    by (simp_all add: readable_def file_records_def w terminated_def)
  have same: "readable f' (?p i) = readable f (?p i) \<and> file_records f' (?p i) = file_records f (?p i)"
    if "i \<noteq> Suc n" for i
    using unchanged_file [OF assms(2)] that by simp
  have r: "readable f' (?p i)" if "i \<in> {1..Suc n}" for i
    using assms(1) new(1) same [of i] that by (cases "i = Suc n") (auto simp: body_def)
  have "store_records f' root (Suc n) = store_records f root n"
    using same new(2)
    by (simp add: store_records_def seg_names_Suc [of "Suc n"])
      (auto simp: seg_names_def intro!: arg_cong [where f = concat])
  moreover have "dir_at f' (segs root)"
    using assms(1,3) by (intro wrote_dir_at [OF assms(2)]) (simp_all add: body_def)
  moreover have "seg_files f' root (Suc n)"
    using assms(1) by (intro seg_files_wrote_next [OF _ assms(2)]) (simp add: body_def)
  ultimately show ?thesis
    using assms(1) r wrote_unrefused [OF assms(2)] by (auto simp: body_def w)
qed

lemma fill_for_write_described:
  assumes "manifest_describes m n rs" "1 \<le> n" "n \<le> 999999"
  shows "fill_for_write m = m"
proof -
  have "normalizeSealedSegments (seg_names (n - 1)) = seg_names (n - 1)"
    using seg_names_sorted [of "n - 1"] assms(3) by (intro normalizeSealedSegments_id) auto
  moreover have "segmentName n \<notin> set (seg_names (n - 1))" using assms(2) by (auto simp: set_seg_names)
  ultimately show ?thesis using assms(1) by (simp add: fill_for_write_def manifest_describes_def Let_def)
qed

lemma writeManifestAtomic_ok:
  assumes "wf_path root" "body root n rs f" "manifest_describes m n rs" "1 \<le> n" "n \<le> 999999"
  obtains f' where "writeManifestAtomic root m f = (Inr (), f')" "body root n rs f'"
    "node_at f' (child root manifestFileName) = Some (File (manifest_text m))"
proof -
  let ?t = "child root (manifestFileName @ ''.tmp'')" and ?m = "child root manifestFileName"
  let ?f1 = "put_node ?t (File (manifest_text m)) f"
  let ?f2 = "moved ?t ?m (File (manifest_text m)) ?f1"
  have b: "unrefused f" "dir_at f root" "dir_at f (segs root)" "node_at f ?t \<noteq> Some Dir" "node_at f ?m \<noteq> Some Dir"
    using assms(2) by (simp_all add: body_def)
  have 1: "write_file f ?t (manifest_text m) = (None, ?f1)" using b by (intro write_file_child)
  have 2: "rename_file ?f1 ?t ?m = (None, ?f2)" using b by (intro rename_file_moved) auto
  have w: "writeManifestAtomic root m f = (Inr (), ?f2)"
    using 1 2 b assms(1) fill_for_write_described [OF assms(3-5)]
    by (simp add: writeManifestAtomic_def io_bind_def io_do_def)
  have d: "dir_at ?f2 (segs root)" using b
    by (intro dir_at_moved dir_at_put_file) auto
  have n: "node_at ?f2 (child (segs root) s) = node_at f (child (segs root) s)" for s by simp
  have "body root n rs ?f2"
    using assms(2) d by (simp add: body_def seg_files_def readable_def file_records_def store_records_def)
  with w that show ?thesis by simp
qed

lemma rotate_ok:
  assumes "wf_path root" "body root n rs f" "1 \<le> n" "Suc n \<le> 999999"
    "sm_current_segment m = segmentName n" "sm_sealed_segments m = seg_names (n - 1)"
  obtains f' where
    "rotate root m f = (Inr (m\<lparr>sm_current_segment := segmentName (Suc n), sm_sealed_segments := seg_names n\<rparr>), f')"
    "body root (Suc n) rs f'"
proof -
  let ?p = "child (segs root) (segmentName (Suc n))"
  have b: "unrefused f" "dir_at f (segs root)" "seg_files f root n" using assms(2) by (simp_all add: body_def)
  have names: "orderedSegmentNames f root = Inr ([1..<Suc n], seg_names n)"
    using assms(4) by (intro orderedSegmentNames_ok assms(1) b) simp
  have last: "parseSegmentIndex (last (seg_names n)) = Some n"
    using assms(3,4) by (simp add: parseSegmentIndex_iff)
  have sealed: "normalizeSealedSegments (seg_names (n - 1) @ [segmentName n]) = seg_names n"
    using assms(3,4) seg_names_sorted [of n] seg_names_Suc [of n] by (metis Suc_leD normalizeSealedSegments_id seg_names_props(2))
  have fresh: "segmentName (Suc n) \<notin> set (seg_names n)" by (auto simp: set_seg_names)
  have none: "node_at f ?p = None"
  proof (rule ccontr)
    assume "node_at f ?p \<noteq> None"
    then have "segmentName (Suc n) \<in> {s. glob_segment s \<and> node_at f (child (segs root) s) \<noteq> None}" by simp
    then show False using b(3) fresh unfolding seg_files_def by blast
  qed
  let ?f = "put_node ?p (File []) f"
  have wr: "write_file f ?p [] = (None, ?f)" using b none by (intro write_file_child) auto
  have "wrote ?p [] f ?f" by (simp add: wrote_def)
  from body_next [OF assms(2) this none] have "body root (Suc n) rs ?f" .
  moreover have "stat f ?p = Inl NotExist" by (simp add: stat_child [OF b(1,2)] none)
  then have "rotate root m f = (Inr (m\<lparr>sm_current_segment := segmentName (Suc n), sm_sealed_segments := seg_names n\<rparr>), ?f)"
    using assms(1,3) names last sealed fresh wr
    by (simp add: rotate_def assms(5,6) io_bind_def io_do_def Let_def)
  ultimately show ?thesis using that by blast
qed

lemma utf8_segmentName [simp]: "utf8_valid (segmentName n)"
proof (rule utf8_valid_ascii)
  fix c assume "c \<in> set (segmentName n)"
  then have "c \<in> set ''evidence-'' \<or> c \<in> set (pad 6 n) \<or> c \<in> set ''.jsonl''"
    unfolding segmentName_def set_append by blast
  then show "byte c < 128" using pad_ascii [of c 6 n] by (elim disjE) auto
qed

lemma utf8_fmt_rfc3339 [simp]: "utf8_valid (fmt_rfc3339 t)"
  by (rule utf8_valid_ascii) (rule fmt_rfc3339_ascii)

lemma strs_ok_seg_names [simp]: "strs_ok (seg_names n)"
  by (auto simp: strs_ok_def seg_names_def)

text \<open>The manifest after one more record, with and without rotation.\<close>

definition counted :: "env \<Rightarrow> evidence_record \<Rightarrow> store_manifest \<Rightarrow> store_manifest" where
  "counted e r m = m\<lparr>sm_updated_at := fmt_rfc3339 (e_now e 2),
     sm_records_total := wrap64 (sm_records_total m + 1), sm_last_hash := er_hash r,
     sm_policy_ref := next_policy_ref (sm_policy_ref m) (er_policy_ref r)\<rparr>"

lemma counted_describes:
  assumes "manifest_describes m n rs" "int (length rs) + 1 < 2 ^ 63" "utf8_valid (er_hash r)" "utf8_valid (er_policy_ref r)"
  shows "manifest_describes (counted e r m) n (rs @ [norm_record r])"
    "manifest_describes (counted e r m\<lparr>sm_current_segment := segmentName (Suc n), sm_sealed_segments := seg_names n\<rparr>)
       (Suc n) (rs @ [norm_record r])"
proof -
  have "int64 (int (length rs) + 1)" using assms(2) by (simp add: int64_def)
  moreover have "utf8_valid (next_policy_ref (sm_policy_ref m) (er_policy_ref r))"
    using assms(1,4) by (simp add: next_policy_ref_def manifest_describes_def manifest_ok_def)
  ultimately show "manifest_describes (counted e r m) n (rs @ [norm_record r])"
    "manifest_describes (counted e r m\<lparr>sm_current_segment := segmentName (Suc n), sm_sealed_segments := seg_names n\<rparr>)
       (Suc n) (rs @ [norm_record r])"
    using assms by (simp_all add: manifest_describes_def counted_def manifest_ok_def wrap64_id)
qed

lemma appendSegmented_eq:
  assumes "seg_inv sha root m n rs f" "storable sha e (last_hash [] rs) r"
  defines "q \<equiv> completed sha e (last_hash [] rs) r"
  obtains f1 where "body root n (rs @ [norm_record q]) f1"
    "appendSegmented sha e root r f =
      io_bind (if sm_segment_max_bytes m < int (length (content (node_at f1 (child (segs root) (segmentName n)))))
               then rotate root (counted e q m) else io_ret (counted e q m))
        (\<lambda>m5. io_bind (writeManifestAtomic root m5) (\<lambda>_. io_ret q)) f1"
proof -
  note inv = seg_invD [OF assms(1)]
  let ?p = "child (segs root) (segmentName n)"
  have m: "sm_current_segment m = segmentName n" "sm_sealed_segments m = seg_names (n - 1)"
    "0 < sm_segment_max_bytes m" "sm_last_hash m = last_hash [] rs"
    using inv(5) by (simp_all add: manifest_describes_def)
  have sealed: "normalizeSealedSegments (seg_names (n - 1)) = seg_names (n - 1)"
    using seg_names_sorted [of "n - 1"] inv(3) by (intro normalizeSealedSegments_id) auto
  have bd: "body root n rs f" using assms(1) by (simp add: seg_inv_body)
  have "readable f ?p" using bd inv(2) by (simp add: body_def)
  then have "node_at f ?p \<noteq> Some Dir" by (auto simp: readable_def)
  then obtain f1 where f1: "appendRecordLine ?p q f = (Inr (), f1)"
    "wrote ?p (content (node_at f ?p) @ record_line q @ [CHR 0x0A]) f f1"
    using ComputeHash_completed(5) [OF assms(2)] inv(8,10) unfolding q_def
    by (elim appendRecordLine_ok) auto
  have q: "record_ok q" "utf8_valid (er_hash q)" "fits_scanner q"
    using assms(2) by (simp_all add: storable_def q_def)
  have bd1: "body root n (rs @ [norm_record q]) f1"
    by (rule body_append [OF bd inv(2) f1(2) q])
  have st: "stat f1 ?p = Inr (File (content (node_at f1 ?p)))"
    using bd1 by (simp add: stat_child body_def wrote_node [OF f1(2)])
  have ch: "ComputeHash sha ((stamp e r)\<lparr>er_previous_hash := last_hash [] rs\<rparr>) = Some (er_hash q)"
    "(stamp e r)\<lparr>er_previous_hash := last_hash [] rs, er_hash := er_hash q\<rparr> = q"
    using ComputeHash_completed(1,2) [OF assms(2)] by (simp_all add: q_def)
  have mm: "m\<lparr>sm_sealed_segments := normalizeSealedSegments (sm_sealed_segments m)\<rparr> = m"
    by (simp add: m(2) sealed flip: One_nat_def)
  have "appendSegmented sha e root r f =
      io_bind (if sm_segment_max_bytes m < int (length (content (node_at f1 ?p)))
               then rotate root (counted e q m) else io_ret (counted e q m))
        (\<lambda>m5. io_bind (writeManifestAtomic root m5) (\<lambda>_. io_ret q)) f1"
    unfolding appendSegmented_def Let_def
    using inv(1,10) m(3)
    by (subst io_bind_Inr [where m = "loadOrInitManifest e root (segmentMaxBytesFromEnv e) True",
          OF load_described [OF assms(1)]])
      (simp add: m(1,4) mm ch io_bind_Inr [where m = "appendRecordLine ?p q", OF f1(1)]
        io_bind_def [of "io_do _ _"] io_do_def io_bind_def [of "io_get _"] st node_size_def counted_def)
  with bd1 that show ?thesis by blast
qed

lemma appendSegmented_ok:
  assumes "seg_inv sha root m n rs f" "storable sha e (last_hash [] rs) r" "Suc n \<le> 999999"
    "int (length rs) + 1 < 2 ^ 63"
  defines "q \<equiv> completed sha e (last_hash [] rs) r"
  obtains m' n' f' where "appendSegmented sha e root r f = (Inr q, f')"
    "seg_inv sha root m' n' (rs @ [norm_record q]) f'" "n' \<le> Suc n"
    "sm_policy_ref m' = next_policy_ref (sm_policy_ref m) (er_policy_ref q)"
proof -
  note inv = seg_invD [OF assms(1)]
  obtain f1 where f1: "body root n (rs @ [norm_record q]) f1" and eq: "appendSegmented sha e root r f =
      io_bind (if sm_segment_max_bytes m < int (length (content (node_at f1 (child (segs root) (segmentName n)))))
               then rotate root (counted e q m) else io_ret (counted e q m))
        (\<lambda>m5. io_bind (writeManifestAtomic root m5) (\<lambda>_. io_ret q)) f1" (is "_ = io_bind (if ?big then _ else _) _ _")
    using appendSegmented_eq [OF assms(1,2)] unfolding q_def by metis
  have q: "utf8_valid (er_hash q)" "utf8_valid (er_policy_ref q)"
    using assms(2) by (simp_all add: storable_def q_def record_ok_def)
  have l: "links sha [] (rs @ [norm_record q])"
    using inv(7) links_completed [OF assms(2)] by (simp add: q_def)
  have m: "sm_current_segment (counted e q m) = segmentName n" "sm_sealed_segments (counted e q m) = seg_names (n - 1)"
    using inv(5) by (simp_all add: counted_def manifest_describes_def)
  note desc = counted_describes [OF inv(5) assms(4) q, of e]
  let ?rot = "counted e q m\<lparr>sm_current_segment := segmentName (Suc n), sm_sealed_segments := seg_names n\<rparr>"
  show ?thesis
  proof (cases ?big)
    case True
    obtain f2 where f2: "rotate root (counted e q m) f1 = (Inr ?rot, f2)" "body root (Suc n) (rs @ [norm_record q]) f2"
      by (rule rotate_ok [OF inv(1) f1 inv(2) assms(3) m])
    obtain f3 where "writeManifestAtomic root ?rot f2 = (Inr (), f3)" "body root (Suc n) (rs @ [norm_record q]) f3"
      "node_at f3 (child root manifestFileName) = Some (File (manifest_text ?rot))"
      by (rule writeManifestAtomic_ok [OF inv(1) f2(2) desc(2)]) (use assms(3) in auto)
    then show ?thesis
      using True eq f2 inv(1) assms(3) desc(2) l
      by (intro that [of f3 ?rot "Suc n"]) (auto simp: seg_inv_body io_bind_def counted_def)
  next
    case False
    obtain f3 where "writeManifestAtomic root (counted e q m) f1 = (Inr (), f3)" "body root n (rs @ [norm_record q]) f3"
      "node_at f3 (child root manifestFileName) = Some (File (manifest_text (counted e q m)))"
      by (rule writeManifestAtomic_ok [OF inv(1) f1 desc(1)]) (use inv in auto)
    then show ?thesis
      using False eq inv(1-3) desc(1) l
      by (intro that [of f3 "counted e q m" n]) (auto simp: seg_inv_body io_bind_def counted_def)
  qed
qed

section \<open>A new store\<close>

text \<open>
  What the lock leaves behind for a store that does not exist yet: its directory, with nothing of the
  store in it.
\<close>

definition vacant :: "path \<Rightarrow> fs \<Rightarrow> bool" where
  "vacant root f \<longleftrightarrow> unrefused f \<and> dir_at f root \<and> node_at f (segs root) = None
    \<and> node_at f (child root manifestFileName) = None
    \<and> node_at f (child root (manifestFileName @ ''.tmp'')) \<noteq> Some Dir
    \<and> node_at f (child root lockFileName) \<noteq> Some Dir
    \<and> (\<forall>s. node_at f (child (segs root) s) = None)"

lemma mkdirs_append: "mkdirs ps f = (None, f') \<Longrightarrow> mkdirs (ps @ qs) f = mkdirs qs f'"
  by (induction ps arbitrary: f) (auto split: option.splits node.splits if_splits)

lemma mkdir_all_child_new:
  assumes "unrefused f" "dir_at f d" "node_at f (child d n) = None"
  shows "mkdir_all f (child d n) = (None, put_node (child d n) Dir f)"
proof -
  have "mkdirs (ancestors d @ [d]) f = (None, f)"
    using assms(2) by (intro mkdirs_present) (simp add: dir_at_def)
  from mkdirs_append [OF this, of "[child d n]"] show ?thesis
    using assms(1,3) by (simp add: mkdir_all_def unrefused_def)
qed

lemma new_manifest_describes:
  "0 < mb \<Longrightarrow> int64 mb \<Longrightarrow> manifest_describes (new_manifest (fmt_rfc3339 t) mb) 1 []"
  by (simp add: manifest_describes_def new_manifest_def manifest_ok_def manifestFormat_def
      segmentsDirName_def rune_len_ascii int64_def strs_ok_def seg_names_def)

lemma init_manifest_ok:
  assumes "wf_path root" "vacant root f" "0 < mb" "int64 mb"
  obtains f' where
    "loadOrInitManifest e root mb True f = (Inr (new_manifest (fmt_rfc3339 (e_now e 0)) mb), f')"
    "seg_inv sha root (new_manifest (fmt_rfc3339 (e_now e 0)) mb) 1 [] f'"
proof -
  let ?m = "new_manifest (fmt_rfc3339 (e_now e 0)) mb" and ?p = "child (segs root) (segmentName 1)"
  let ?f1 = "put_node (segs root) Dir f" and ?f2 = "put_node ?p (File []) (put_node (segs root) Dir f)"
  note desc = new_manifest_describes [OF assms(3,4)]
  have v: "unrefused f" "dir_at f root" "node_at f (segs root) = None"
    "\<And>s. node_at f (child (segs root) s) = None" "node_at f (child root manifestFileName) = None"
    using assms(2) by (simp_all add: vacant_def)
  have d1: "dir_at ?f1 (segs root)" using v(2,3) by (auto simp: dir_at_def)
  have w: "write_file ?f1 ?p [] = (None, ?f2)" using v d1 by (intro write_file_child) auto
  have d2: "dir_at ?f2 (segs root)" using d1 v by (intro dir_at_put_file) auto
  have sf: "seg_files ?f2 root 1" using v(4) by (auto simp: seg_files_def set_seg_names)
  have b: "body root 1 [] ?f2"
    using v d2 sf assms(2)
    by (simp add: body_def vacant_def readable_def terminated_def store_records_def file_records_def seg_names_def)
  obtain f3 where f3: "writeManifestAtomic root ?m ?f2 = (Inr (), f3)" "body root 1 [] f3"
    "node_at f3 (child root manifestFileName) = Some (File (manifest_text ?m))"
    by (rule writeManifestAtomic_ok [OF assms(1) b desc]) auto
  have "read_file f (child root manifestFileName) = Inl NotExist"
    using v by (intro read_file_child_missing) auto
  moreover have "sm_current_segment ?m = segmentName 1" by (simp add: new_manifest_def)
  ultimately have "loadOrInitManifest e root mb True f = (Inr ?m, f3)"
    using assms(1) mkdir_all_child_new [OF v(1-3)] w f3(1)
    by (simp add: loadOrInitManifest_def io_bind_def io_do_def Let_def segment_path_def [symmetric])
  moreover have "seg_inv sha root ?m 1 [] f3"
    using assms(1) f3 desc by (simp add: seg_inv_body)
  ultimately show ?thesis using that by blast
qed

end
