(* ===== verification/EvidenceLegacy.thy ===== *)
theory EvidenceLegacy
  imports EvidenceSegmentLaws
begin

text \<open>
  \<^verbatim>\<open>pkg/evidence/legacy.go\<close> (a store that is one JSONL file) and the unlocked reader of
  \<^verbatim>\<open>pkg/evidence/evidence.go\<close> it goes through, with the invariant of such a file.
\<close>

record metadata =
  md_records :: int
  md_last_hash :: string
  md_policy_ref :: string

definition streamLegacyRecords ::
  "fs \<Rightarrow> path \<Rightarrow> (evidence_record \<Rightarrow> 's \<Rightarrow> ev_err option \<times> 's) \<Rightarrow> 's \<Rightarrow> ev_err option \<times> 's" where
  "streamLegacyRecords f p fn s = streamFileRecords f p fn s"

definition forEachRecordUnlocked ::
  "fs \<Rightarrow> path \<Rightarrow> (evidence_record \<Rightarrow> 's \<Rightarrow> ev_err option \<times> 's) \<Rightarrow> 's \<Rightarrow> ev_err option \<times> 's" where
  "forEachRecordUnlocked f p fn s = (case detect_mode f p of
     Inl e \<Rightarrow> (Some e, s)
   | Inr (Segmented, resolved) \<Rightarrow> streamSegmentedRecords f resolved fn s
   | Inr (Legacy, resolved) \<Rightarrow> streamLegacyRecords f resolved fn s)"

text \<open>The callback that collects the records.\<close>

definition collect :: "evidence_record \<Rightarrow> evidence_record list \<Rightarrow> ev_err option \<times> evidence_record list" where
  "collect r acc = (None, acc @ [r])"

definition readAllRecords :: "fs \<Rightarrow> path \<Rightarrow> ev_err + evidence_record list" where
  "readAllRecords f p = (case forEachRecordUnlocked f p collect [] of
     (Some e, _) \<Rightarrow> if is_not_exist e then Inl (EIO [] NotExist) else Inl e
   | (None, rs) \<Rightarrow> Inr rs)"

definition readLastRecord :: "fs \<Rightarrow> path \<Rightarrow> ev_err + evidence_record option" where
  "readLastRecord f p = (case readAllRecords f p of
     Inl e \<Rightarrow> if is_not_exist e then Inr None else Inl e
   | Inr rs \<Rightarrow> if rs = [] then Inr None else Inr (Some (last rs)))"

definition appendLegacy :: "(string \<Rightarrow> string) \<Rightarrow> env \<Rightarrow> path \<Rightarrow> evidence_record \<Rightarrow> evidence_record io" where
  "appendLegacy sha e p rec0 =
    (let rec1 = stamp e rec0 in
     io_bind (io_get (\<lambda>f. readLastRecord f p)) (\<lambda>l. case l of
       Inl err \<Rightarrow> io_fail err
     | Inr lastRec \<Rightarrow>
        (let rec2 = rec1\<lparr>er_previous_hash := (case lastRec of None \<Rightarrow> [] | Some r \<Rightarrow> er_hash r)\<rparr> in
         case ComputeHash sha rec2 of
           None \<Rightarrow> io_fail EMarshalCanonical
         | Some hash \<Rightarrow>
            (let rec = rec2\<lparr>er_hash := hash\<rparr> in
             io_bind (io_do ''create log directory'' (\<lambda>f. mkdir_all f (path_dir p))) (\<lambda>_.
             io_bind (appendRecordLine p rec) (\<lambda>_.
             io_ret rec))))))"

definition validateLegacyChain :: "(string \<Rightarrow> string) \<Rightarrow> path \<Rightarrow> fs \<Rightarrow> ev_err option" where
  "validateLegacyChain sha p f = (case streamFileRecords f p (check_record sha) chain_start of
     (Some e, _) \<Rightarrow> if is_not_exist e then None else Some e
   | (None, _) \<Rightarrow> None)"

definition count_record :: "evidence_record \<Rightarrow> metadata \<Rightarrow> ev_err option \<times> metadata" where
  "count_record r md =
    (let md' = md\<lparr>md_records := md_records md + 1, md_last_hash := er_hash r\<rparr> in
     if er_policy_ref r \<noteq> [] \<and> md_policy_ref md = [] then (None, md'\<lparr>md_policy_ref := er_policy_ref r\<rparr>)
     else if er_policy_ref r \<noteq> [] \<and> md_policy_ref md \<noteq> er_policy_ref r
       then (Some (EMsg ''mixed policy_ref values detected''), md')
     else (None, md'))"

definition zero_metadata :: metadata where
  "zero_metadata = \<lparr>md_records = 0, md_last_hash = [], md_policy_ref = []\<rparr>"

definition metadataFromLegacyFile :: "fs \<Rightarrow> path \<Rightarrow> ev_err + metadata" where
  "metadataFromLegacyFile f p = (case streamFileRecords f p count_record zero_metadata of
     (Some e, _) \<Rightarrow> if is_not_exist e then Inr zero_metadata else Inl e
   | (None, md) \<Rightarrow> Inr md)"

section \<open>Laws\<close>

lemma each_collect: "each collect rs acc = (None, acc @ rs)"
  by (induction rs arbitrary: acc) (auto simp: collect_def)

lemma each_count_record:
  "each count_record rs md = (None, md') \<longleftrightarrow> policies_from (md_policy_ref md) rs
    \<and> md' = \<lparr>md_records = md_records md + int (length rs), md_last_hash = last_hash (md_last_hash md) rs,
             md_policy_ref = policy_end (md_policy_ref md) rs\<rparr>"
proof (induction rs arbitrary: md)
  case Nil
  then show ?case by auto
next
  case (Cons r rs)
  then show ?case by (auto simp: count_record_def Let_def policy_fits_def)
qed

text \<open>A legacy store: a file in an existing directory, or none yet and a name that means one.\<close>

definition legacy_inv :: "(string \<Rightarrow> string) \<Rightarrow> path \<Rightarrow> evidence_record list \<Rightarrow> fs \<Rightarrow> bool" where
  "legacy_inv sha p rs f \<longleftrightarrow> wf_path p \<and> comps p \<noteq> [] \<and> unrefused f \<and> dir_at f (path_dir p)
    \<and> path_base p \<noteq> lockFileName \<and> node_at f (child (path_dir p) lockFileName) \<noteq> Some Dir
    \<and> (if node_at f p = None then rs = [] \<and> to_lower (path_ext p) \<in> {''.log'', ''.jsonl''}
       else readable f p \<and> file_records f p = rs)
    \<and> links sha [] rs"

lemma path_child: "comps p \<noteq> [] \<Longrightarrow> \<exists>d n. p = child d n"
  by (metis child_iff)

lemma legacy_invD:
  assumes "legacy_inv sha p rs f"
  obtains d n where "p = child d n" "unrefused f" "dir_at f d" "links sha [] rs"
    "node_at f p \<noteq> Some Dir" "detect_mode f p = Inr (Legacy, p)"
    "node_at f p \<noteq> None \<Longrightarrow> readable f p" "node_at f p \<noteq> None \<Longrightarrow> file_records f p = rs"
    "node_at f p = None \<Longrightarrow> rs = []"
proof -
  have "comps p \<noteq> []" using assms by (simp add: legacy_inv_def)
  then obtain d n where p: "p = child d n" using path_child by blast
  have i: "unrefused f" "dir_at f d" "links sha [] rs" using assms by (simp_all add: legacy_inv_def p)
  have r: "node_at f p = None \<Longrightarrow> rs = [] \<and> to_lower (path_ext p) \<in> {''.log'', ''.jsonl''}"
    "node_at f p \<noteq> None \<Longrightarrow> readable f p \<and> file_records f p = rs"
    using assms by (auto simp: legacy_inv_def split: if_splits)
  have nd: "node_at f p \<noteq> Some Dir"
    using r(2) by (cases "node_at f p") (auto simp: readable_def)
  have "detect_mode f p = Inr (Legacy, p)"
    using stat_child [OF i(1,2), of n] r nd p
    by (auto simp: detect_mode_def Let_def split: option.splits node.splits)
  then show ?thesis by (rule that [OF p i nd]) (use r in auto)
qed

lemma stream_legacy:
  assumes "legacy_inv sha p rs f"
  shows "streamFileRecords f p fn s =
    (if node_at f p = None then (Some (EIO [] NotExist), s) else each fn rs s)"
  using assms
proof (rule legacy_invD)
  fix d n
  assume p: "p = child d n" "unrefused f" "dir_at f d"
    and r: "node_at f p \<noteq> None \<Longrightarrow> readable f p" "node_at f p \<noteq> None \<Longrightarrow> file_records f p = rs"
  show ?thesis
  proof (cases "node_at f p = None")
    case True
    then have "read_file f p = Inl NotExist" using p by (simp add: read_file_child_missing)
    with True show ?thesis by (simp add: streamFileRecords_def)
  next
    case False
    then have "streamFileRecords f (child d n) fn s = each fn (file_records f (child d n)) s"
      using r p by (intro streamFileRecords_readable) simp_all
    with False r(2) [OF False] p(1) show ?thesis by auto
  qed
qed

lemma legacy_empty: "legacy_inv sha p rs f \<Longrightarrow> node_at f p = None \<Longrightarrow> rs = []"
  by (simp add: legacy_inv_def)

lemma validateLegacyChain_iff:
  assumes "legacy_inv sha p rs f"
  shows "validateLegacyChain sha p f = None \<longleftrightarrow> one_policy rs"
proof (cases "node_at f p = None")
  case True
  then show ?thesis
    using legacy_empty [OF assms] by (simp add: validateLegacyChain_def stream_legacy [OF assms] is_not_exist_def one_policy_def)
next
  case False
  have l: "links sha [] rs" using assms by (simp add: legacy_inv_def)
  have ne: "each (check_record sha) qs st = (Some e, st') \<Longrightarrow> \<not> is_not_exist e" for qs st e st'
    by (induction qs arbitrary: st)
      (auto simp: check_record_def is_not_exist_def split: prod.splits option.splits if_splits)
  show ?thesis
  proof (cases "one_policy rs")
    case True
    then have "each (check_record sha) rs chain_start = (None, chain_end chain_start rs)"
      using l by (simp add: each_check_start valid_chain_def)
    then show ?thesis using True False by (simp add: validateLegacyChain_def stream_legacy [OF assms])
  next
    case bad: False
    then have "each (check_record sha) rs chain_start \<noteq> (None, st)" for st
      by (simp add: each_check_start valid_chain_def)
    then obtain e st where "each (check_record sha) rs chain_start = (Some e, st)"
      by (metis option.exhaust prod.exhaust)
    then show ?thesis using False bad ne by (simp add: validateLegacyChain_def stream_legacy [OF assms])
  qed
qed

lemma readLastRecord_legacy:
  assumes "legacy_inv sha p rs f"
  shows "readLastRecord f p = Inr (if rs = [] then None else Some (last rs))"
proof -
  have "detect_mode f p = Inr (Legacy, p)" by (rule legacy_invD [OF assms])
  then have "forEachRecordUnlocked f p collect [] =
      (if node_at f p = None then (Some (EIO [] NotExist), []) else (None, rs))"
    by (simp add: forEachRecordUnlocked_def streamLegacyRecords_def stream_legacy [OF assms] each_collect)
  then show ?thesis
    using legacy_empty [OF assms] by (simp add: readLastRecord_def readAllRecords_def is_not_exist_def)
qed

lemma appendLegacy_ok:
  assumes "legacy_inv sha p rs f" "storable sha e (last_hash [] rs) r"
  defines "q \<equiv> completed sha e (last_hash [] rs) r"
  obtains f' where "appendLegacy sha e p r f = (Inr q, f')" "legacy_inv sha p (rs @ [norm_record q]) f'"
proof (rule legacy_invD [OF assms(1)])
  fix d n
  assume p: "p = child d n" and i: "unrefused f" "dir_at f d" "links sha [] rs" "node_at f p \<noteq> Some Dir"
    and r: "node_at f p \<noteq> None \<Longrightarrow> readable f p" "node_at f p \<noteq> None \<Longrightarrow> file_records f p = rs"
    "node_at f p = None \<Longrightarrow> rs = []"
  have ch: "ComputeHash sha ((stamp e r)\<lparr>er_previous_hash := last_hash [] rs\<rparr>) = Some (er_hash q)"
    "(stamp e r)\<lparr>er_previous_hash := last_hash [] rs, er_hash := er_hash q\<rparr> = q" "t_year (er_timestamp q) \<le> 9999"
    using ComputeHash_completed(1,2,5) [OF assms(2)] by (simp_all add: q_def)
  have q: "record_ok q" "utf8_valid (er_hash q)" "fits_scanner q"
    using assms(2) by (simp_all add: storable_def q_def)
  obtain f' where f': "appendRecordLine p q f = (Inr (), f')"
    "wrote p (content (node_at f p) @ record_line q @ [CHR 0x0A]) f f'"
    using i ch(3) p by (elim appendRecordLine_ok) auto
  have prev: "(case (if rs = [] then None else Some (last rs)) of None \<Rightarrow> [] | Some x \<Rightarrow> er_hash x) = last_hash [] rs"
    by (simp add: last_hash_def)
  have eq: "appendLegacy sha e p r f = (Inr q, f')"
    unfolding appendLegacy_def Let_def io_bind_def [of "io_get _"]
    using i(2) p ch f'(1) prev readLastRecord_legacy [OF assms(1)]
    by (simp add: io_bind_def io_do_def)
  have "readable f' p \<and> file_records f' p = rs @ [norm_record q]"
  proof (cases "node_at f p = None")
    case True
    then have "node_at f' p = Some (File ([] @ record_line q @ [CHR 0x0A]))" by (simp add: wrote_node [OF f'(2)])
    then show ?thesis
      using raw_lines_append_record [of "[]" q] read_record_line [OF q] r(3) True
      by (simp add: readable_def file_records_def terminated_def)
  next
    case False
    then show ?thesis using readable_appended [OF _ f'(2) q] r by simp
  qed
  moreover have "links sha [] (rs @ [norm_record q])"
    using i(3) links_completed [OF assms(2)] by (simp add: q_def)
  moreover have "dir_at f' d" using i wrote_dir_at [OF f'(2)] by simp
  ultimately have "legacy_inv sha p (rs @ [norm_record q]) f'"
    using assms(1) p wrote_unrefused [OF f'(2)] i(1)
    by (simp add: legacy_inv_def wrote_node [OF f'(2)])
  with eq that show ?thesis by blast
qed

lemma metadata_legacy:
  assumes "legacy_inv sha p rs f" "one_policy rs"
  shows "metadataFromLegacyFile f p =
    Inr \<lparr>md_records = int (length rs), md_last_hash = last_hash [] rs, md_policy_ref = policy_end [] rs\<rparr>"
proof (cases "node_at f p = None")
  case True
  then show ?thesis
    using legacy_empty [OF assms(1)]
    by (simp add: metadataFromLegacyFile_def stream_legacy [OF assms(1)] is_not_exist_def zero_metadata_def)
next
  case False
  have "each count_record rs zero_metadata =
      (None, \<lparr>md_records = int (length rs), md_last_hash = last_hash [] rs, md_policy_ref = policy_end [] rs\<rparr>)"
    using assms(2) by (simp add: each_count_record zero_metadata_def policies_from_one_policy)
  with False show ?thesis by (auto simp: metadataFromLegacyFile_def stream_legacy [OF assms(1)])
qed

end
