(* ===== verification/EvidenceStore.thy ===== *)
theory EvidenceStore
  imports EvidenceLegacy
begin

text \<open>
  The public operations of \<^verbatim>\<open>pkg/evidence\<close> (\<^verbatim>\<open>evidence.go\<close>, \<^verbatim>\<open>store.go\<close>, \<^verbatim>\<open>manifest.go\<close>,
  \<^verbatim>\<open>segment.go\<close>, \<^verbatim>\<open>resource_links.go\<close>): each takes the store's lock, detects its mode and dispatches. A
  \<^verbatim>\<open>Store\<close> is its path; its mutex only serialises the calls of one process, which the model runs one
  after the other.
\<close>

section \<open>Operations\<close>

definition lift_err :: "(fs \<Rightarrow> ev_err option) \<Rightarrow> unit io" where
  "lift_err g f = (case g f of Some e \<Rightarrow> (Inl e, f) | None \<Rightarrow> (Inr (), f))"

definition lift_res :: "(fs \<Rightarrow> ev_err + 'a) \<Rightarrow> 'a io" where
  "lift_res g f = (g f, f)"

definition appendAtPathUnlocked :: "(string \<Rightarrow> string) \<Rightarrow> env \<Rightarrow> string \<Rightarrow> evidence_record \<Rightarrow> evidence_record io" where
  "appendAtPathUnlocked sha e path r = with_mode path (\<lambda>m resolved. case m of
     Segmented \<Rightarrow> appendSegmented sha e resolved r
   | Legacy \<Rightarrow> appendLegacy sha e resolved r)"

definition appendAtPath :: "(string \<Rightarrow> string) \<Rightarrow> env \<Rightarrow> string \<Rightarrow> evidence_record \<Rightarrow> evidence_record io" where
  "appendAtPath sha e path r = withStoreLock e path (appendAtPathUnlocked sha e path r)"

definition validateChainAtPathUnlocked :: "(string \<Rightarrow> string) \<Rightarrow> env \<Rightarrow> string \<Rightarrow> unit io" where
  "validateChainAtPathUnlocked sha e path = with_mode path (\<lambda>m resolved. case m of
     Segmented \<Rightarrow> lift_err (validateSegmentedChain sha e resolved)
   | Legacy \<Rightarrow> lift_err (validateLegacyChain sha resolved))"

definition ValidateChainAtPath :: "(string \<Rightarrow> string) \<Rightarrow> env \<Rightarrow> string \<Rightarrow> unit io" where
  "ValidateChainAtPath sha e path = withStoreLock e path (validateChainAtPathUnlocked sha e path)"

definition metadataAtPathUnlocked :: "env \<Rightarrow> string \<Rightarrow> metadata io" where
  "metadataAtPathUnlocked e path = with_mode path (\<lambda>m resolved. case m of
     Segmented \<Rightarrow> io_bind (loadOrInitManifest e resolved (segmentMaxBytesFromEnv e) False)
       (\<lambda>m. io_ret \<lparr>md_records = sm_records_total m, md_last_hash = sm_last_hash m,
                     md_policy_ref = sm_policy_ref m\<rparr>)
   | Legacy \<Rightarrow> lift_res (\<lambda>f. metadataFromLegacyFile f resolved))"

definition MetadataAtPath :: "env \<Rightarrow> string \<Rightarrow> metadata io" where
  "MetadataAtPath e path = withStoreLock e path (metadataAtPathUnlocked e path)"

text \<open>
  \<^verbatim>\<open>ForEachRecordAtPath\<close>: the callback's state survives an error, so it is returned with it.
\<close>

definition ForEachRecordAtPath ::
  "env \<Rightarrow> string \<Rightarrow> (evidence_record \<Rightarrow> 's \<Rightarrow> ev_err option \<times> 's) \<Rightarrow> 's \<Rightarrow> (ev_err option \<times> 's) io" where
  "ForEachRecordAtPath e path fn s =
    withStoreLock e path (io_get (\<lambda>f. forEachRecordUnlocked f (clean_path path) fn s))"

definition ReadAllAtPath :: "env \<Rightarrow> string \<Rightarrow> evidence_record list io" where
  "ReadAllAtPath e path = io_bind (ForEachRecordAtPath e path collect [])
    (\<lambda>r. case r of (Some err, _) \<Rightarrow> io_fail err | (None, rs) \<Rightarrow> io_ret rs)"

definition find_step :: "string \<Rightarrow> evidence_record \<Rightarrow> evidence_record option \<Rightarrow> ev_err option \<times> evidence_record option" where
  "find_step eventID rec out = (if er_event_id rec = eventID then (Some EStop, Some rec) else (None, out))"

definition FindByEventID :: "(string \<Rightarrow> string) \<Rightarrow> env \<Rightarrow> string \<Rightarrow> string \<Rightarrow> evidence_record option io" where
  "FindByEventID sha e path eventID = withStoreLock e path (\<lambda>f.
     case validateChainAtPathUnlocked sha e path f of
       (Inl err, f') \<Rightarrow> (Inl (EChainInvalid err), f')
     | (Inr _, f') \<Rightarrow>
         (case forEachRecordUnlocked f' (clean_path path) (find_step eventID) None of
            (Some EStop, out) \<Rightarrow> (Inr out, f')
          | (Some err, _) \<Rightarrow> (Inl err, f')
          | (None, out) \<Rightarrow> (Inr out, f')))"

definition StoreFormatAtPath :: "fs \<Rightarrow> string \<Rightarrow> ev_err + mode" where
  "StoreFormatAtPath f path = (case detectStoreMode f path of Inl e \<Rightarrow> Inl e | Inr (m, _) \<Rightarrow> Inr m)"

definition LoadManifest :: "env \<Rightarrow> string \<Rightarrow> store_manifest io" where
  "LoadManifest e path = withStoreLock e path (with_mode path (\<lambda>m resolved. case m of
     Legacy \<Rightarrow> io_fail (EMsg ''manifest not available for legacy evidence store'')
   | Segmented \<Rightarrow> loadOrInitManifest e resolved (segmentMaxBytesFromEnv e) False))"

definition SegmentFiles :: "env \<Rightarrow> string \<Rightarrow> path list io" where
  "SegmentFiles e path = withStoreLock e path (with_mode path (\<lambda>m resolved. case m of
     Legacy \<Rightarrow> io_fail (EMsg ''segments not available for legacy evidence store'')
   | Segmented \<Rightarrow> lift_res (\<lambda>f. case orderedSegmentNames f resolved of
         Inl err \<Rightarrow> Inl err
       | Inr (_, names) \<Rightarrow> Inr (map (segment_path resolved) names))))"

definition Store_Init :: "env \<Rightarrow> string \<Rightarrow> unit io" where
  "Store_Init e path = withStoreLock e path (with_mode path (\<lambda>m resolved. case m of
     Segmented \<Rightarrow> io_bind (loadOrInitManifest e resolved (segmentMaxBytesFromEnv e) True) (\<lambda>_. io_ret ())
   | Legacy \<Rightarrow> io_do [] (\<lambda>f. mkdir_all f (path_dir resolved))))"

definition Store_Append :: "(string \<Rightarrow> string) \<Rightarrow> env \<Rightarrow> string \<Rightarrow> evidence_record \<Rightarrow> unit io" where
  "Store_Append sha e path r = io_bind (appendAtPath sha e path r) (\<lambda>_. io_ret ())"

definition Store_ValidateChain :: "(string \<Rightarrow> string) \<Rightarrow> env \<Rightarrow> string \<Rightarrow> unit io" where
  "Store_ValidateChain sha e path = ValidateChainAtPath sha e path"

definition Store_LastHash :: "env \<Rightarrow> string \<Rightarrow> string io" where
  "Store_LastHash e path = withStoreLock e path (with_mode path (\<lambda>m resolved. case m of
     Segmented \<Rightarrow> (\<lambda>f. case loadOrInitManifest e resolved (segmentMaxBytesFromEnv e) False f of
         (Inl err, f') \<Rightarrow> if is_not_exist err then (Inr [], f') else (Inl err, f')
       | (Inr m, f') \<Rightarrow> (Inr (sm_last_hash m), f'))
   | Legacy \<Rightarrow> lift_res (\<lambda>f. case readLastRecord f resolved of
         Inl err \<Rightarrow> if is_not_exist err then Inr [] else Inl err
       | Inr None \<Rightarrow> Inr []
       | Inr (Some r) \<Rightarrow> Inr (er_hash r))))"

section \<open>Links\<close>

record resource_link =
  rl_uri :: string
  rl_name :: string
  rl_mime :: string

text \<open>\<open>absPath\<close> is \<^verbatim>\<open>filepath.Abs\<close>, which needs the working directory and may fail.\<close>

definition StorePathInfo :: "(string \<Rightarrow> string option) \<Rightarrow> fs \<Rightarrow> string \<Rightarrow> ev_err + (mode \<times> string)" where
  "StorePathInfo absPath f path = (case StoreFormatAtPath f path of
     Inl e \<Rightarrow> Inl e
   | Inr m \<Rightarrow> Inr (m, case absPath path of None \<Rightarrow> path | Some a \<Rightarrow> a))"

definition ResourceLinks :: "(string \<Rightarrow> string option) \<Rightarrow> fs \<Rightarrow> string \<Rightarrow> string \<Rightarrow> bool \<Rightarrow> resource_link list" where
  "ResourceLinks absPath f eventID evidencePath includeFileLinks =
    (if eventID = [] then []
     else [\<lparr>rl_uri = ''evidra://event/'' @ eventID, rl_name = ''Evidence record'', rl_mime = ''application/json''\<rparr>]
       @ (case StorePathInfo absPath f evidencePath of
            Inl _ \<Rightarrow> []
          | Inr (m, resolved) \<Rightarrow>
              (if m = Segmented then
                 [\<lparr>rl_uri = ''evidra://evidence/manifest'', rl_name = ''Evidence manifest'', rl_mime = ''application/json''\<rparr>,
                  \<lparr>rl_uri = ''evidra://evidence/segments'', rl_name = ''Evidence segments'', rl_mime = ''application/json''\<rparr>]
               else [])
              @ (if includeFileLinks then
                  (case absPath resolved of
                     None \<Rightarrow> []
                   | Some a \<Rightarrow> [\<lparr>rl_uri = ''file://'' @ a, rl_name = ''Local evidence path'', rl_mime = ''text/plain''\<rparr>])
                 else [])))"

section \<open>Taking the lock\<close>

definition lock_granted :: "env \<Rightarrow> bool" where
  "lock_granted e \<longleftrightarrow> e_unix e \<and>
    acquire_loop (e_flock e) (e_delay e)
      (if lockTimeoutFromEnv e \<le> 0 then 2 * 1000000000 else lockTimeoutFromEnv e) (int (e_delay e 0)) 0 = LkAcquired"

definition locked :: "path \<Rightarrow> fs \<Rightarrow> fs" where
  "locked root f = put_node (child root lockFileName) (File (content (node_at f (child root lockFileName)))) f"

lemma plain_lockFileName [simp]: "plain_name lockFileName"
  by (simp add: lockFileName_def plain_name_def)

lemma wrote_locked: "wrote (child root lockFileName) (content (node_at f (child root lockFileName))) f (locked root f)"
  by (simp add: locked_def wrote_def)

lemma node_at_locked:
  "node_at (locked root f) q = (if q = child root lockFileName
     then Some (File (content (node_at f (child root lockFileName)))) else node_at f q)"
  using wrote_node [OF wrote_locked] .

lemma withStoreLock_ok:
  assumes "lock_granted e" "lockRootForPath f path = Inr root" "wf_path root" "unrefused f" "dir_at f root"
    "node_at f (child root lockFileName) \<noteq> Some Dir"
  shows "withStoreLock e path fn f = fn (locked root f)"
proof -
  have "append_file f (child root lockFileName) [] = (None, locked root f)"
    using append_file_child [OF assms(4-6)] by (simp add: locked_def)
  then have "Acquire e (path_join root lockFileName) (lockTimeoutFromEnv e) f = (Inr LkAcquired, locked root f)"
    using assms by (simp add: Acquire_def lock_granted_def io_bind_def io_do_def open_create_def Let_def)
  then show ?thesis using assms(2) by (simp add: withStoreLock_def io_bind_def)
qed

lemma with_mode_ok: "detectStoreMode f path = Inr (m, p) \<Longrightarrow> with_mode path k f = k m p f"
  by (simp add: with_mode_def io_bind_def)

end
