(* ===== verification/Validate.thy ===== *)
theory Validate
  imports Policy Scenario Config EvidenceStore
begin

text \<open>
  \<^verbatim>\<open>pkg/validate\<close>: evaluating a scenario action by action and recording the outcome. The outcome passes
  when every action has a valid kind and is allowed; evaluation errors and evidence errors are errors
  of the whole call, never a pass. Places of the clock: 3 is the record's timestamp, 4 its event id,
  5 the timestamp of a scenario made from an invocation, 6 its id.
\<close>

record options =
  op_policy_path :: string
  op_data_path :: string
  op_bundle_path :: string
  op_environment :: string
  op_evidence_dir :: string
  op_skip_evidence :: bool

record action_result =
  ar_index :: nat
  ar_kind :: string
  ar_pass :: bool
  ar_risk_level :: string
  ar_rule_ids :: "string list"
  ar_reasons :: "string list"
  ar_hints :: "string list"

record val_result =
  vr_pass :: bool
  vr_risk_level :: string
  vr_evidence_id :: string
  vr_evidence_ids :: "string list"
  vr_request_ids :: "string list"
  vr_reasons :: "string list"
  vr_rule_ids :: "string list"
  vr_hints :: "string list"
  vr_action_results :: "action_result list"
  vr_source :: string
  vr_policy_ref :: string

record scenario_evaluation =
  se_pass :: bool
  se_risk_level :: string
  se_reasons :: "string list"
  se_rule_ids :: "string list"
  se_hints :: "string list"
  se_policy_ref :: string
  se_action_results :: "action_result list"

section \<open>Helpers\<close>

definition dedupeStrings :: "string list \<Rightarrow> string list" where
  "dedupeStrings xs = dedup_from [] (filter (\<lambda>s. s \<noteq> []) xs)"

definition sortedDedupeStrings :: "string list \<Rightarrow> string list" where
  "sortedDedupeStrings xs = sort (dedupeStrings xs)"

definition splitKind :: "string \<Rightarrow> (string \<times> string) option" where
  "splitKind kind = (case split2 (CHR ''.'') (trim_space kind) of
     None \<Rightarrow> None
   | Some (a, b) \<Rightarrow> if trim_space a = [] \<or> trim_space b = [] then None else Some (a, b))"

definition hasBreakglassTag :: "sc_action \<Rightarrow> bool" where
  "hasBreakglassTag a = (''breakglass'' \<in> set (case ac_risk_tags a of None \<Rightarrow> [] | Some ts \<Rightarrow> ts))"

definition contextString :: "gmap option \<Rightarrow> string \<Rightarrow> string \<Rightarrow> string" where
  "contextString ctx key fallback = (case ctx of
     None \<Rightarrow> fallback
   | Some m \<Rightarrow> (case as_str (gget m key) of Some s \<Rightarrow> if s \<noteq> [] then s else fallback | None \<Rightarrow> fallback))"

definition mapFromValue :: "gval option \<Rightarrow> gmap option" where
  "mapFromValue v = (case as_map v of Some m \<Rightarrow> Some m | None \<Rightarrow> Some [])"

definition trimmed_str :: "gval \<Rightarrow> string option" where
  "trimmed_str v = (case v of GStr s \<Rightarrow> if s \<noteq> [] then Some (trim_space s) else None | _ \<Rightarrow> None)"

definition toStringSlice :: "gval option \<Rightarrow> string list option" where
  "toStringSlice v = (case v of
     Some (GStrs ss) \<Rightarrow> ss
   | Some (GArr vs) \<Rightarrow> Some (List.map_filter trimmed_str vs)
   | _ \<Rightarrow> None)"

definition actorID :: "string \<Rightarrow> string \<Rightarrow> string" where
  "actorID scenarioID aid = (if aid \<noteq> [] then aid else scenarioID)"

definition passStatus :: "bool \<Rightarrow> string" where
  "passStatus pass = (if pass then ''success'' else ''denied'')"

definition primaryReason :: "string list \<Rightarrow> string" where
  "primaryReason reasons = (case reasons of [] \<Rightarrow> ''scenario_validated'' | r # _ \<Rightarrow> r)"

text \<open>\<^verbatim>\<open>scenarioHash\<close> ignores the marshalling error: the digest is then that of no bytes.\<close>

definition scenarioHash :: "(string \<Rightarrow> string) \<Rightarrow> scenario \<Rightarrow> string" where
  "scenarioHash sha sc = sha (if t_year (sc_timestamp sc) \<le> 9999 then marshal (scenario_json sc) else [])"

definition params_get :: "gmap option \<Rightarrow> string \<Rightarrow> gval option" where
  "params_get m k = Option.bind m (\<lambda>kvs. gget kvs k)"

definition scenarioIDFromInvocation :: "env \<Rightarrow> tool_invocation \<Rightarrow> string" where
  "scenarioIDFromInvocation e ti =
    (let id = contextString (ti_context ti) KeyScenarioID [];
         gen = ti_tool ti @ ''.'' @ ti_operation ti @ ''.'' @ itoa (wrap64 (unix_nanos (e_now e 6))) in
     if id \<noteq> [] then id
     else (case as_str (params_get (ti_params ti) KeyScenarioID) of
         Some s \<Rightarrow> if trim_space s \<noteq> [] then s else gen
       | None \<Rightarrow> gen))"

definition invocationToScenario :: "env \<Rightarrow> tool_invocation \<Rightarrow> scenario" where
  "invocationToScenario e ti = \<lparr>sc_id = scenarioIDFromInvocation e ti,
     sc_actor = \<lparr>sa_type = a_type (ti_actor ti), sa_id = a_id (ti_actor ti), sa_origin = a_origin (ti_actor ti)\<rparr>,
     sc_source = contextString (ti_context ti) KeySource (a_origin (ti_actor ti)),
     sc_timestamp = e_now e 5,
     sc_actions = [\<lparr>ac_kind = ti_tool ti @ ''.'' @ ti_operation ti,
       ac_target = mapFromValue (params_get (ti_params ti) KeyTarget),
       ac_intent = contextString (ti_context ti) KeyIntent [],
       ac_payload = mapFromValue (params_get (ti_params ti) KeyPayload),
       ac_risk_tags = toStringSlice (params_get (ti_params ti) KeyRiskTags)\<rparr>]\<rparr>"

section \<open>Evaluation\<close>

definition invalid_kind_reason :: "nat \<Rightarrow> string \<Rightarrow> string" where
  "invalid_kind_reason i kind = ''action['' @ dec i @ ''] invalid kind: '' @ kind"

text \<open>The invocation evaluated for an action whose kind splits into \<open>tool\<close> and \<open>operation\<close>.\<close>

definition action_invocation :: "scenario \<Rightarrow> string \<Rightarrow> sc_action \<Rightarrow> string \<Rightarrow> string \<Rightarrow> tool_invocation" where
  "action_invocation sc environment a tool operation =
    \<lparr>ti_actor = \<lparr>a_type = sa_type (sc_actor sc),
       a_id = (if trim_space (sa_id (sc_actor sc)) = [] then sc_id sc else trim_space (sa_id (sc_actor sc))),
       a_origin = sc_source sc\<rparr>,
     ti_tool = tool, ti_operation = operation,
     ti_params = Some [(KeyScenarioID, GStr (sc_id sc)),
       (''action'', GMap [(''kind'', GStr (ac_kind a)), (KeyTarget, gmap_val (ac_target a)),
         (KeyIntent, GStr (ac_intent a)), (KeyPayload, gmap_val (ac_payload a)),
         (KeyRiskTags, GStrs (ac_risk_tags a))])],
     ti_context = Some [(''timestamp'', GStr (fmt_rfc3339 (sc_timestamp sc))), (KeySource, GStr (sc_source sc))],
     ti_environment = environment\<rparr>"

definition action_risk :: "decision \<Rightarrow> sc_action \<Rightarrow> string" where
  "action_risk d a = (if \<not> dc_allow d then ''high'' else if hasBreakglassTag a then ''medium'' else ''low'')"

definition add_decision :: "nat \<Rightarrow> sc_action \<Rightarrow> decision \<Rightarrow> scenario_evaluation \<Rightarrow> scenario_evaluation" where
  "add_decision i a d res = \<lparr>
     se_pass = (se_pass res \<and> dc_allow d),
     se_risk_level = (if \<not> dc_allow d then ''high'' else se_risk_level res),
     se_reasons = se_reasons res @ (if dc_allow d then [] else if dc_reasons d \<noteq> [] then dc_reasons d
                                    else if dc_reason d \<noteq> [] then [dc_reason d] else []),
     se_rule_ids = se_rule_ids res @ dc_hits d
       @ (if \<not> dc_allow d \<and> dc_hits d = [] then [''sys.unlabeled_deny''] else []),
     se_hints = se_hints res @ dc_hints d,
     se_policy_ref = (if se_policy_ref res = [] then dc_policy_ref d else se_policy_ref res),
     se_action_results = se_action_results res @ [\<lparr>ar_index = i, ar_kind = ac_kind a, ar_pass = dc_allow d,
       ar_risk_level = action_risk d a, ar_rule_ids = dc_hits d, ar_reasons = dc_reasons d, ar_hints = dc_hints d\<rparr>]\<rparr>"

definition add_invalid :: "nat \<Rightarrow> sc_action \<Rightarrow> scenario_evaluation \<Rightarrow> scenario_evaluation" where
  "add_invalid i a res =
    (let reason = invalid_kind_reason i (ac_kind a) in
     res\<lparr>se_pass := False, se_risk_level := ''high'', se_reasons := se_reasons res @ [reason],
         se_action_results := se_action_results res @ [\<lparr>ar_index = i, ar_kind = ac_kind a, ar_pass = False,
           ar_risk_level = ''high'', ar_rule_ids = [''sys.invalid_kind''], ar_reasons = [reason], ar_hints = []\<rparr>]\<rparr>)"

fun evaluate_actions ::
  "evaluator \<Rightarrow> scenario \<Rightarrow> string \<Rightarrow> nat \<Rightarrow> sc_action list \<Rightarrow> scenario_evaluation \<Rightarrow> pol_err + scenario_evaluation" where
  "evaluate_actions ev sc environment i [] res = Inr res"
| "evaluate_actions ev sc environment i (a # as) res = (case splitKind (ac_kind a) of
     None \<Rightarrow> evaluate_actions ev sc environment (Suc i) as (add_invalid i a res)
   | Some (tool, operation) \<Rightarrow>
      (case EvaluateInvocation ev (action_invocation sc environment a tool operation) of
         Inl err \<Rightarrow> Inl err
       | Inr d \<Rightarrow> evaluate_actions ev sc environment (Suc i) as (add_decision i a d res)))"

definition start_evaluation :: scenario_evaluation where
  "start_evaluation = \<lparr>se_pass = True, se_risk_level = ''low'', se_reasons = [], se_rule_ids = [], se_hints = [],
     se_policy_ref = [], se_action_results = []\<rparr>"

definition evaluateScenarioWithRuntime ::
  "evaluator \<Rightarrow> scenario \<Rightarrow> string \<Rightarrow> pol_err + scenario_evaluation" where
  "evaluateScenarioWithRuntime ev sc environment =
    (case evaluate_actions ev sc environment 0 (sc_actions sc) start_evaluation of
       Inl err \<Rightarrow> Inl err
     | Inr res \<Rightarrow> Inr (res\<lparr>se_rule_ids := sortedDedupeStrings (se_rule_ids res),
                            se_hints := sortedDedupeStrings (se_hints res),
                            se_reasons := sortedDedupeStrings (se_reasons res)\<rparr>))"

section \<open>The whole call\<close>

datatype val_err =
    VInvalidInput inv_err
  | VPolicyFailure pol_err
  | VEvidenceResolve
  | VEvidenceWrite ev_err
  | VScenario sc_err

text \<open>
  \<open>sources\<close> makes the policy source from the files: a bundle when a bundle path is resolved, a loose
  policy and data file otherwise.
\<close>

record source_makers =
  mk_bundle :: "fs \<Rightarrow> string \<Rightarrow> pol_err + policy_source"
  mk_local :: "fs \<Rightarrow> string \<Rightarrow> string \<Rightarrow> policy_source"

definition select_source :: "source_makers \<Rightarrow> env \<Rightarrow> fs \<Rightarrow> options \<Rightarrow> pol_err + policy_source" where
  "select_source mk e f opts =
    (let bundlePath = resolveBundlePath e f (op_bundle_path opts) in
     if bundlePath \<noteq> [] then mk_bundle mk f bundlePath
     else (case ResolvePolicyData e f (op_policy_path opts) (op_data_path opts) of
         None \<Rightarrow> Inl (PLoad ''missing policy/data paths'')
       | Some (p, d) \<Rightarrow> Inr (mk_local mk f p d)))"

definition scenario_record ::
  "(string \<Rightarrow> string) \<Rightarrow> env \<Rightarrow> evaluator \<Rightarrow> scenario \<Rightarrow> string \<Rightarrow> string \<Rightarrow> scenario_evaluation \<Rightarrow> evidence_record" where
  "scenario_record sha e ev sc environment evidenceID res = zero_record\<lparr>
     er_event_id := evidenceID, er_timestamp := e_now e 3, er_policy_ref := se_policy_ref res,
     er_bundle_revision := ev_bundle_revision ev, er_profile_name := ev_profile_name ev,
     er_environment_label := environment, er_input_hash := scenarioHash sha sc, er_source := ''local'',
     er_actor := \<lparr>a_type = sa_type (sc_actor sc), a_id = actorID (sc_id sc) (sa_id (sc_actor sc)),
                  a_origin = sc_source sc\<rparr>,
     er_tool := ''ops.scenario'', er_operation := ''validate'',
     er_params := Some [(''scenario_id'', GStr (sc_id sc)), (''scenario_hash'', GStr (scenarioHash sha sc)),
                        (''action_count'', GInt (int (length (sc_actions sc))))],
     er_policy_decision := \<lparr>pd_allow = se_pass res, pd_risk_level = se_risk_level res,
       pd_reason = primaryReason (sortedDedupeStrings (se_reasons res)),
       pd_reasons = sortedDedupeStrings (sortedDedupeStrings (se_reasons res)),
       pd_hints = sortedDedupeStrings (se_hints res), pd_rule_ids = sortedDedupeStrings (se_rule_ids res),
       pd_advisory = False\<rparr>,
     er_execution_result := zero_execution_result\<lparr>xr_status := passStatus (se_pass res)\<rparr>\<rparr>"

definition scenario_result :: "string \<Rightarrow> scenario_evaluation \<Rightarrow> val_result" where
  "scenario_result evidenceID res = \<lparr>vr_pass = se_pass res, vr_risk_level = se_risk_level res,
     vr_evidence_id = evidenceID, vr_evidence_ids = [], vr_request_ids = [],
     vr_reasons = sortedDedupeStrings (sortedDedupeStrings (se_reasons res)),
     vr_rule_ids = sortedDedupeStrings (se_rule_ids res), vr_hints = sortedDedupeStrings (se_hints res),
     vr_action_results = se_action_results res, vr_source = ''local'', vr_policy_ref = se_policy_ref res\<rparr>"

definition EvaluateScenario ::
  "(string \<Rightarrow> string) \<Rightarrow> opa_prepare \<Rightarrow> source_makers \<Rightarrow> env \<Rightarrow> scenario \<Rightarrow> options \<Rightarrow> fs \<Rightarrow> (val_err + val_result) \<times> fs" where
  "EvaluateScenario sha prepare mk e sc opts f = (case select_source mk e f opts of
     Inl err \<Rightarrow> (Inl (VPolicyFailure err), f)
   | Inr src \<Rightarrow>
    (case NewEvaluator prepare src of
       Inl err \<Rightarrow> (Inl (VPolicyFailure err), f)
     | Inr ev \<Rightarrow>
      (let environment = resolveEnvironment e (op_environment opts) in
       case evaluateScenarioWithRuntime ev sc environment of
         Inl err \<Rightarrow> (Inl (VPolicyFailure err), f)
       | Inr res \<Rightarrow>
          if op_skip_evidence opts then (Inr (scenario_result [] res), f)
          else (case ResolveEvidencePath e (op_evidence_dir opts) of
              None \<Rightarrow> (Inl VEvidenceResolve, f)
            | Some dir \<Rightarrow>
               (case Store_Init e dir f of
                  (Inl err, f1) \<Rightarrow> (Inl (VEvidenceWrite err), f1)
                | (Inr _, f1) \<Rightarrow>
                   (let evidenceID = ''evt-'' @ itoa (wrap64 (unix_nanos (e_now e 4))) in
                    case Store_Append sha e dir (scenario_record sha e ev sc environment evidenceID res) f1 of
                      (Inl err, f2) \<Rightarrow> (Inl (VEvidenceWrite err), f2)
                    | (Inr _, f2) \<Rightarrow> (Inr (scenario_result evidenceID res), f2)))))))"

definition validate_EvaluateInvocation ::
  "(string \<Rightarrow> string) \<Rightarrow> opa_prepare \<Rightarrow> source_makers \<Rightarrow> env \<Rightarrow> tool_invocation \<Rightarrow> options \<Rightarrow> fs \<Rightarrow> (val_err + val_result) \<times> fs" where
  "validate_EvaluateInvocation sha prepare mk e ti opts f = (case ValidateStructure ti of
     Some err \<Rightarrow> (Inl (VInvalidInput err), f)
   | None \<Rightarrow> EvaluateScenario sha prepare mk e (invocationToScenario e ti) opts f)"

definition EvaluateFile ::
  "(string \<Rightarrow> string) \<Rightarrow> (string \<Rightarrow> yaml_step list) \<Rightarrow> opa_prepare \<Rightarrow> source_makers \<Rightarrow> env \<Rightarrow> string \<Rightarrow> options \<Rightarrow> fs
    \<Rightarrow> (val_err + val_result) \<times> fs" where
  "EvaluateFile sha yaml prepare mk e path opts f = (case LoadFile sha yaml (e_now e 5) f path of
     Inl err \<Rightarrow> (Inl (VScenario err), f)
   | Inr sc \<Rightarrow> EvaluateScenario sha prepare mk e sc opts f)"

section \<open>Destructive operation prefixes\<close>

definition kind_prefix :: "gval \<Rightarrow> string option" where
  "kind_prefix v = (case v of
     GStr kind \<Rightarrow> map_option (\<lambda>p. fst p @ ''.'') (split2 (CHR ''.'') kind)
   | _ \<Rightarrow> None)"

definition env_prefixes :: "gval \<Rightarrow> string list" where
  "env_prefixes v = (case as_arr (Some v) of None \<Rightarrow> [] | Some ops \<Rightarrow> List.map_filter kind_prefix ops)"

definition AllowedPrefixesFromParams :: "fs \<Rightarrow> string \<Rightarrow> string + string list" where
  "AllowedPrefixesFromParams f paramsPath = (case read_file f (clean_path paramsPath) of
     Inl _ \<Rightarrow> Inl ''read''
   | Inr raw \<Rightarrow> (case json_object raw of
       None \<Rightarrow> Inl ''parse''
     | Some params \<Rightarrow> (case gget params ''ops.destructive_operations'' of
         None \<Rightarrow> Inl ''ops.destructive_operations not found''
       | Some opsParam \<Rightarrow> (case as_map (Some opsParam) of
           None \<Rightarrow> Inl ''ops.destructive_operations is not an object''
         | Some opsMap \<Rightarrow> (case as_map (gget opsMap ''by_env'') of
             None \<Rightarrow> Inl ''ops.destructive_operations.by_env is not an object''
           | Some byEnv \<Rightarrow> Inr (sort (remdups (concat (map (\<lambda>kv. env_prefixes (snd kv)) byEnv)))))))))"

section \<open>What a pass means\<close>

lemma set_sortedDedupeStrings [simp]: "set (sortedDedupeStrings xs) = set xs - {[]}"
  by (auto simp: sortedDedupeStrings_def dedupeStrings_def set_dedup_from)

lemma sortedDedupeStrings_sorted [simp]:
  "sorted (sortedDedupeStrings xs)" "distinct (sortedDedupeStrings xs)"
  by (simp_all add: sortedDedupeStrings_def dedupeStrings_def distinct_dedup_from)

lemma sortedDedupeStrings_unique:
  "sorted ys \<Longrightarrow> distinct ys \<Longrightarrow> set ys = set xs - {[]} \<Longrightarrow> sortedDedupeStrings xs = ys"
  by (rule sorted_distinct_set_unique) simp_all

lemma sortedDedupeStrings_idem [simp]: "sortedDedupeStrings (sortedDedupeStrings xs) = sortedDedupeStrings xs"
  by (rule sortedDedupeStrings_unique) auto

text \<open>The decision the policy takes on one action, and whether the action is allowed.\<close>

definition action_decision :: "evaluator \<Rightarrow> scenario \<Rightarrow> string \<Rightarrow> sc_action \<Rightarrow> decision option" where
  "action_decision ev sc environment a = (case splitKind (ac_kind a) of
     None \<Rightarrow> None
   | Some (tool, operation) \<Rightarrow>
       (case EvaluateInvocation ev (action_invocation sc environment a tool operation) of
          Inl _ \<Rightarrow> None | Inr d \<Rightarrow> Some d))"

definition allowed :: "evaluator \<Rightarrow> scenario \<Rightarrow> string \<Rightarrow> sc_action \<Rightarrow> bool" where
  "allowed ev sc environment a \<longleftrightarrow> (\<exists>d. action_decision ev sc environment a = Some d \<and> dc_allow d)"

text \<open>The entry of one action in the breakdown.\<close>

definition entry_ok :: "evaluator \<Rightarrow> scenario \<Rightarrow> string \<Rightarrow> nat \<Rightarrow> sc_action \<Rightarrow> action_result \<Rightarrow> bool" where
  "entry_ok ev sc environment i a r \<longleftrightarrow> ar_index r = i \<and> ar_kind r = ac_kind a
    \<and> (ar_pass r \<longleftrightarrow> allowed ev sc environment a)
    \<and> ar_risk_level r = (if allowed ev sc environment a then if hasBreakglassTag a then ''medium'' else ''low''
                         else ''high'')"

lemma evaluate_actions_outcome:
  assumes "evaluate_actions ev sc environment i as res = Inr res'"
  shows "(se_pass res' \<longleftrightarrow> se_pass res \<and> (\<forall>a \<in> set as. allowed ev sc environment a))
    \<and> se_risk_level res' = (if \<forall>a \<in> set as. allowed ev sc environment a then se_risk_level res else ''high'')
    \<and> (\<exists>rs. se_action_results res' = se_action_results res @ rs \<and> length rs = length as
        \<and> (\<forall>j < length as. entry_ok ev sc environment (i + j) (as ! j) (rs ! j)))"
  using assms
proof (induction as arbitrary: i res)
  case Nil
  then show ?case by simp
next
  case (Cons a as)
  show ?case
  proof (cases "splitKind (ac_kind a)")
    case None
    then have na: "\<not> allowed ev sc environment a" by (simp add: allowed_def action_decision_def)
    have rest: "evaluate_actions ev sc environment (Suc i) as (add_invalid i a res) = Inr res'"
      using Cons.prems None by simp
    obtain rs where rs: "se_action_results res' = se_action_results (add_invalid i a res) @ rs"
      "length rs = length as" "\<And>j. j < length as \<Longrightarrow> entry_ok ev sc environment (Suc i + j) (as ! j) (rs ! j)"
      using Cons.IH [OF rest] by blast
    let ?r = "last (se_action_results (add_invalid i a res))"
    have "entry_ok ev sc environment i a ?r" using na by (simp add: entry_ok_def add_invalid_def Let_def)
    then have "\<forall>j < length (a # as). entry_ok ev sc environment (i + j) ((a # as) ! j) ((?r # rs) ! j)"
      using rs(3) by (auto simp: nth_Cons split: nat.splits)
    moreover have "se_action_results res' = se_action_results res @ ?r # rs"
      using rs(1) by (simp add: add_invalid_def Let_def)
    ultimately have ex: "\<exists>rs. se_action_results res' = se_action_results res @ rs \<and> length rs = length (a # as)
        \<and> (\<forall>j < length (a # as). entry_ok ev sc environment (i + j) ((a # as) ! j) (rs ! j))"
      using rs(2) by (intro exI [of _ "?r # rs"]) simp
    show ?thesis using Cons.IH [OF rest] na ex by (simp add: add_invalid_def Let_def)
  next
    case (Some to)
    then obtain tool operation where k: "splitKind (ac_kind a) = Some (tool, operation)" by (cases to) auto
    then obtain d where d: "EvaluateInvocation ev (action_invocation sc environment a tool operation) = Inr d"
      "evaluate_actions ev sc environment (Suc i) as (add_decision i a d res) = Inr res'"
      using Cons.prems by (auto split: sum.splits)
    have al: "allowed ev sc environment a \<longleftrightarrow> dc_allow d"
      using k d by (simp add: allowed_def action_decision_def)
    obtain rs where rs: "se_action_results res' = se_action_results (add_decision i a d res) @ rs"
      "length rs = length as" "\<And>j. j < length as \<Longrightarrow> entry_ok ev sc environment (Suc i + j) (as ! j) (rs ! j)"
      using Cons.IH [OF d(2)] by blast
    let ?r = "last (se_action_results (add_decision i a d res))"
    have "entry_ok ev sc environment i a ?r" using al by (simp add: entry_ok_def add_decision_def action_risk_def)
    then have "\<forall>j < length (a # as). entry_ok ev sc environment (i + j) ((a # as) ! j) ((?r # rs) ! j)"
      using rs(3) by (auto simp: nth_Cons split: nat.splits)
    moreover have "se_action_results res' = se_action_results res @ ?r # rs"
      using rs(1) by (simp add: add_decision_def)
    ultimately have ex: "\<exists>rs. se_action_results res' = se_action_results res @ rs \<and> length rs = length (a # as)
        \<and> (\<forall>j < length (a # as). entry_ok ev sc environment (i + j) ((a # as) ! j) (rs ! j))"
      using rs(2) by (intro exI [of _ "?r # rs"]) simp
    show ?thesis using Cons.IH [OF d(2)] al ex by (auto simp: add_decision_def)
  qed
qed

lemma evaluateScenario_outcome:
  assumes "evaluateScenarioWithRuntime ev sc environment = Inr res"
  shows "se_pass res \<longleftrightarrow> (\<forall>a \<in> set (sc_actions sc). allowed ev sc environment a)"
    "se_risk_level res = (if se_pass res then ''low'' else ''high'')"
    "length (se_action_results res) = length (sc_actions sc)"
    "\<And>i. i < length (sc_actions sc) \<Longrightarrow> entry_ok ev sc environment i (sc_actions sc ! i) (se_action_results res ! i)"
proof -
  obtain r where r: "evaluate_actions ev sc environment 0 (sc_actions sc) start_evaluation = Inr r"
    "se_pass res = se_pass r" "se_risk_level res = se_risk_level r" "se_action_results res = se_action_results r"
    using assms by (auto simp: evaluateScenarioWithRuntime_def split: sum.splits)
  note o = evaluate_actions_outcome [OF r(1)]
  show "se_pass res \<longleftrightarrow> (\<forall>a \<in> set (sc_actions sc). allowed ev sc environment a)"
    using o r(2) by (simp add: start_evaluation_def)
  then show "se_risk_level res = (if se_pass res then ''low'' else ''high'')"
    using o r(3) by (simp add: start_evaluation_def)
  show "length (se_action_results res) = length (sc_actions sc)"
    "\<And>i. i < length (sc_actions sc) \<Longrightarrow> entry_ok ev sc environment i (sc_actions sc ! i) (se_action_results res ! i)"
    using o r(4) by (auto simp: start_evaluation_def)
qed

text \<open>A result is returned only after the evaluation succeeded and, unless skipped, the evidence was written.\<close>

lemma EvaluateScenario_success:
  assumes "EvaluateScenario sha prepare mk e sc opts f = (Inr vr, f')"
  obtains src ev res where "select_source mk e f opts = Inr src" "NewEvaluator prepare src = Inr ev"
    "evaluateScenarioWithRuntime ev sc (resolveEnvironment e (op_environment opts)) = Inr res"
    "vr = scenario_result (vr_evidence_id vr) res"
    "op_skip_evidence opts \<Longrightarrow> f' = f \<and> vr_evidence_id vr = []"
    "\<not> op_skip_evidence opts \<Longrightarrow> \<exists>dir f1. ResolveEvidencePath e (op_evidence_dir opts) = Some dir
       \<and> Store_Init e dir f = (Inr (), f1)
       \<and> Store_Append sha e dir (scenario_record sha e ev sc (resolveEnvironment e (op_environment opts))
           (vr_evidence_id vr) res) f1 = (Inr (), f')"
proof -
  obtain src where src: "select_source mk e f opts = Inr src"
    using assms by (auto simp: EvaluateScenario_def split: sum.splits)
  obtain ev where ev: "NewEvaluator prepare src = Inr ev"
    using assms src by (auto simp: EvaluateScenario_def split: sum.splits)
  obtain res where res: "evaluateScenarioWithRuntime ev sc (resolveEnvironment e (op_environment opts)) = Inr res"
    using assms src ev by (auto simp: EvaluateScenario_def Let_def split: sum.splits)
  have id: "vr_evidence_id (scenario_result x res) = x" for x by (simp add: scenario_result_def)
  show ?thesis
  proof (rule that [OF src ev res])
    show "vr = scenario_result (vr_evidence_id vr) res"
      using assms src ev res id
      by (auto simp: EvaluateScenario_def Let_def split: if_splits option.splits prod.splits sum.splits)
    show "op_skip_evidence opts \<Longrightarrow> f' = f \<and> vr_evidence_id vr = []"
      using assms src ev res id by (auto simp: EvaluateScenario_def Let_def)
    show "\<not> op_skip_evidence opts \<Longrightarrow> \<exists>dir f1. ResolveEvidencePath e (op_evidence_dir opts) = Some dir
       \<and> Store_Init e dir f = (Inr (), f1)
       \<and> Store_Append sha e dir (scenario_record sha e ev sc (resolveEnvironment e (op_environment opts))
           (vr_evidence_id vr) res) f1 = (Inr (), f')"
      using assms src ev res id
      by (auto simp: EvaluateScenario_def Let_def split: option.splits prod.splits sum.splits)
  qed
qed

lemma splitKind_Some:
  "splitKind k = Some (a, b) \<longleftrightarrow> trim_space k = a @ CHR ''.'' # b \<and> CHR ''.'' \<notin> set a
    \<and> trim_space a \<noteq> [] \<and> trim_space b \<noteq> []"
proof (cases "split2 (CHR ''.'') (trim_space k)")
  case None
  then have "CHR ''.'' \<notin> set (trim_space k)" by (simp add: split2_None)
  then have "trim_space k \<noteq> a @ CHR ''.'' # b" by auto
  with None show ?thesis by (simp add: splitKind_def)
next
  case (Some p)
  obtain x y where p: "p = (x, y)" by (cases p)
  have iff: "trim_space k = a @ CHR ''.'' # b \<and> CHR ''.'' \<notin> set a \<longleftrightarrow> x = a \<and> y = b"
    using split2_Some [of "CHR ''.''" "trim_space k" a b] Some p by auto
  have "splitKind k = Some (a, b) \<longleftrightarrow> x = a \<and> y = b \<and> trim_space a \<noteq> [] \<and> trim_space b \<noteq> []"
    using Some p by (auto simp: splitKind_def)
  then show ?thesis using iff by blast
qed

end
