(* ===== verification/Client.thy ===== *)
theory Client
  imports Validate
begin

text \<open>
  \<^verbatim>\<open>pkg/client\<close> and \<^verbatim>\<open>pkg/mode\<close>: the HTTP client of the API and the choice between online and offline
  operation. The network is a parameter: a transport maps a URL and a request body to a failure or to
  a status and the bytes of the response, or a failure while they are read.
\<close>

datatype http_reply = NoReply | Reply (status: int) (reply_body: "string option")

type_synonym transport = "string \<Rightarrow> string \<Rightarrow> http_reply"

record client =
  cl_url :: string
  cl_api_key :: string
  cl_timeout :: int

datatype cl_err =
    CUnreachable | CUnauthorized | CForbidden | CRateLimited | CServerError | CInvalidInput | CUnexpected int

definition client_New :: "string \<Rightarrow> string \<Rightarrow> int \<Rightarrow> client" where
  "client_New url key timeout =
    \<lparr>cl_url = url, cl_api_key = key, cl_timeout = (if timeout = 0 then 30 * 1000000000 else timeout)\<rparr>"

definition IsReachabilityError :: "cl_err \<Rightarrow> bool" where
  "IsReachabilityError err \<longleftrightarrow> err = CUnreachable \<or> err = CServerError"

definition classifyHTTPStatus :: "int \<Rightarrow> cl_err option" where
  "classifyHTTPStatus st =
    (if 200 \<le> st \<and> st < 300 then None
     else if st = 401 then Some CUnauthorized
     else if st = 403 then Some CForbidden
     else if st = 422 then Some CInvalidInput
     else if st = 429 then Some CRateLimited
     else if 500 \<le> st then Some CServerError
     else Some (CUnexpected st))"

record api_response =
  ap_allow :: bool
  ap_risk_level :: string
  ap_reason :: string
  ap_reasons :: "string list"
  ap_rule_ids :: "string list"
  ap_hints :: "string list"
  ap_evidence_id :: string
  ap_policy_ref :: string

definition zero_api_response :: api_response where
  "zero_api_response = \<lparr>ap_allow = False, ap_risk_level = [], ap_reason = [], ap_reasons = [], ap_rule_ids = [],
     ap_hints = [], ap_evidence_id = [], ap_policy_ref = []\<rparr>"

definition d_api_response :: "json \<Rightarrow> api_response option" where
  "d_api_response v = (case v of
     JNull \<Rightarrow> Some zero_api_response
   | JObj ms \<Rightarrow> do {
       al \<leftarrow> field d_bool False ''allow'' ms;
       rl \<leftarrow> field d_str [] ''risk_level'' ms;
       re \<leftarrow> field d_str [] ''reason'' ms;
       rs \<leftarrow> field d_strs [] ''reasons'' ms;
       ri \<leftarrow> field d_strs [] ''rule_ids'' ms;
       hs \<leftarrow> field d_strs [] ''hints'' ms;
       ei \<leftarrow> field d_str [] ''evidence_id'' ms;
       pr \<leftarrow> field d_str [] ''policy_ref'' ms;
       Some \<lparr>ap_allow = al, ap_risk_level = rl, ap_reason = re, ap_reasons = rs, ap_rule_ids = ri,
             ap_hints = hs, ap_evidence_id = ei, ap_policy_ref = pr\<rparr> }
   | _ \<Rightarrow> None)"

definition toResult :: "api_response \<Rightarrow> val_result" where
  "toResult r = \<lparr>vr_pass = ap_allow r, vr_risk_level = ap_risk_level r, vr_evidence_id = ap_evidence_id r,
     vr_evidence_ids = [], vr_request_ids = [], vr_reasons = ap_reasons r, vr_rule_ids = ap_rule_ids r,
     vr_hints = ap_hints r, vr_action_results = [], vr_source = ''api'', vr_policy_ref = ap_policy_ref r\<rparr>"

text \<open>The JSON text of an invocation.\<close>

definition invocation_json :: "tool_invocation \<Rightarrow> json" where
  "invocation_json ti = JObj
    ([(''actor'', actor_json (ti_actor ti)), (''tool'', JStr (ti_tool ti)), (''operation'', JStr (ti_operation ti)),
      (''params'', map_json (ti_params ti)), (''context'', map_json (ti_context ti))]
     @ omit (ti_environment ti = []) ''environment'' (JStr (ti_environment ti)))"

definition maxResponseBytes :: nat where "maxResponseBytes = 1048576"

definition Client_Validate :: "transport \<Rightarrow> client \<Rightarrow> tool_invocation \<Rightarrow> cl_err + val_result" where
  "Client_Validate net c ti = (case net (cl_url c @ ''/v1/validate'') (marshal (invocation_json ti)) of
     NoReply \<Rightarrow> Inl CUnreachable
   | Reply st bdy \<Rightarrow> (case classifyHTTPStatus st of
       Some err \<Rightarrow> Inl err
     | None \<Rightarrow> (case bdy of
         None \<Rightarrow> Inl CServerError
       | Some b \<Rightarrow> (case Option.bind (json_parse (take maxResponseBytes b)) d_api_response of
           None \<Rightarrow> Inl CServerError
         | Some r \<Rightarrow> Inr (toResult r)))))"

definition Client_Ping :: "transport \<Rightarrow> client \<Rightarrow> cl_err option" where
  "Client_Ping net c = (case net (cl_url c @ ''/healthz'') [] of
     NoReply \<Rightarrow> Some CUnreachable
   | Reply st _ \<Rightarrow> if st \<noteq> 200 then Some CServerError else None)"

section \<open>Request ids\<close>

definition hex_char :: "nat \<Rightarrow> char" where
  "hex_char n = ''0123456789abcdef'' ! n"

definition hex_byte :: "8 word \<Rightarrow> string" where
  "hex_byte b = [hex_char (unat b div 16), hex_char (unat b mod 16)]"

definition hex_bytes :: "8 word list \<Rightarrow> string" where
  "hex_bytes bs = concat (map hex_byte bs)"

unbundle bit_operations_syntax

definition stamp_uuid :: "8 word list \<Rightarrow> 8 word list" where
  "stamp_uuid u = u[6 := ((u ! 6) AND 0x0F) OR 0x40, 8 := ((u ! 8) AND 0x3F) OR 0x80]"

text \<open>\<open>u\<close> are the sixteen bytes \<^verbatim>\<open>rand.Read\<close> filled in.\<close>

definition newRequestID :: "8 word list \<Rightarrow> string" where
  "newRequestID u0 =
    (let u = stamp_uuid u0 in
     hex_bytes (take 4 u) @ ''-'' @ hex_bytes (take 2 (drop 4 u)) @ ''-'' @ hex_bytes (take 2 (drop 6 u)) @ ''-''
     @ hex_bytes (take 2 (drop 8 u)) @ ''-'' @ hex_bytes (drop 10 u))"

lemma length_hex_bytes [simp]: "length (hex_bytes bs) = 2 * length bs"
  by (induction bs) (simp_all add: hex_bytes_def hex_byte_def)

lemma version_nibble: "unat ((b AND 0x0F) OR 0x40 :: 8 word) div 16 = 4"
proof -
  have "unat ((b AND 0x0F) OR 0x40 :: 8 word) div 16 = unat (drop_bit 4 ((b AND 0x0F) OR 0x40 :: 8 word))"
    unfolding unat_drop_bit_eq by (simp add: drop_bit_eq_div)
  also have "\<dots> = 4" by simp
  finally show ?thesis .
qed

lemma variant_nibble: "unat ((b AND 0x3F) OR 0x80 :: 8 word) div 16 \<in> {8..11}"
proof -
  let ?x = "(b AND 0x3F) OR 0x80 :: 8 word"
  have "unat ?x div 64 = unat (drop_bit 6 ?x)"
    unfolding unat_drop_bit_eq by (simp add: drop_bit_eq_div)
  also have "\<dots> = 2" by simp
  finally have "unat ?x div 64 = 2" .
  then have "128 \<le> unat ?x \<and> unat ?x < 192" by arith
  then show ?thesis unfolding atLeastAtMost_iff by arith
qed

text \<open>The layout of a version 4 UUID.\<close>

definition uuid_v4 :: "string \<Rightarrow> bool" where
  "uuid_v4 s \<longleftrightarrow> length s = 36 \<and> (\<forall>i \<in> {8, 13, 18, 23}. s ! i = CHR ''-'') \<and> s ! 14 = CHR ''4'' \<and> s ! 19 \<in> set ''89ab''"

lemma newRequestID_uuid_v4:
  assumes "length u = 16"
  shows "uuid_v4 (newRequestID u)"
proof -
  obtain b0 b1 b2 b3 b4 b5 b6 b7 b8 b9 b10 b11 b12 b13 b14 b15 where
    u: "u = [b0, b1, b2, b3, b4, b5, b6, b7, b8, b9, b10, b11, b12, b13, b14, b15]"
    using assms by (auto simp: numeral_eq_Suc length_Suc_conv)
  let ?v = "unat ((b8 AND 0x3F) OR 0x80 :: 8 word) div 16"
  have "?v = 8 \<or> ?v = 9 \<or> ?v = 10 \<or> ?v = 11" using variant_nibble [of b8] by auto
  then have v: "hex_char ?v \<in> set ''89ab''" by (elim disjE) (simp_all add: hex_char_def)
  have n: "hex_char (unat ((b6 AND 0x0F) OR 0x40 :: 8 word) div 16) = CHR ''4''"
    unfolding version_nibble by (simp add: hex_char_def)
  show ?thesis
    using n v unfolding u
    by (simp add: uuid_v4_def newRequestID_def stamp_uuid_def hex_bytes_def hex_byte_def Let_def)
qed

section \<open>Mode\<close>

record mode_config =
  mc_url :: string
  mc_api_key :: string
  mc_fallback_policy :: string
  mc_force_offline :: bool
  mc_timeout :: int

record resolved =
  rs_is_online :: bool
  rs_client :: "client option"
  rs_fallback_policy :: string

definition normalizeFallback :: "string \<Rightarrow> string" where
  "normalizeFallback v = (if to_lower (trim_space v) = ''offline'' then ''offline'' else ''closed'')"

definition mode_Resolve :: "mode_config \<Rightarrow> string + resolved" where
  "mode_Resolve cfg =
    (let fallback = normalizeFallback (mc_fallback_policy cfg) in
     if mc_force_offline cfg \<or> trim_space (mc_url cfg) = [] then
       Inr \<lparr>rs_is_online = False, rs_client = None, rs_fallback_policy = fallback\<rparr>
     else if trim_space (mc_api_key cfg) = [] then Inl ''EVIDRA_API_KEY is required when EVIDRA_URL is set''
     else Inr \<lparr>rs_is_online = True,
            rs_client = Some (client_New (trim_space (mc_url cfg)) (trim_space (mc_api_key cfg)) (mc_timeout cfg)),
            rs_fallback_policy = fallback\<rparr>)"

section \<open>Laws\<close>

lemma Client_Validate_ok:
  assumes "Client_Validate net c ti = Inr r"
  obtains st b v where "net (cl_url c @ ''/v1/validate'') (marshal (invocation_json ti)) = Reply st (Some b)"
    "200 \<le> st" "st < 300" "json_parse (take maxResponseBytes b) = Some v"
    "map_option toResult (d_api_response v) = Some r"
proof -
  obtain st bdy where n: "net (cl_url c @ ''/v1/validate'') (marshal (invocation_json ti)) = Reply st bdy"
    using assms by (auto simp: Client_Validate_def split: http_reply.splits)
  have c: "classifyHTTPStatus st = None" using assms n by (auto simp: Client_Validate_def split: option.splits)
  obtain b where b: "bdy = Some b" using assms n c by (auto simp: Client_Validate_def split: option.splits)
  obtain v where v: "json_parse (take maxResponseBytes b) = Some v"
    using assms n c b
    by (cases "json_parse (take maxResponseBytes b)") (auto simp: Client_Validate_def)
  have "map_option toResult (d_api_response v) = Some r"
    using assms n c b v by (auto simp: Client_Validate_def split: option.splits)
  with n b v c that show ?thesis by (auto simp: classifyHTTPStatus_def split: if_splits)
qed

end
