(* ===== verification/Intent.thy ===== *)
theory Intent
  imports Scenario GoInt
begin

text \<open>
  \<^verbatim>\<open>pkg/mcpserver/intent.go\<close>: the policy-relevant part of a request, under whose digest denials are
  remembered. \<open>sprint_v\<close> is \<^verbatim>\<open>fmt.Sprintf("%v", v)\<close> on decoded JSON values; floats of twenty-two
  digits and more, which Go prints with an exponent, are printed in full.
\<close>

record security_posture =
  sp_privileged :: "bool list"
  sp_run_as_user :: "int list"
  sp_host_pid :: bool
  sp_host_ipc :: bool
  sp_host_network :: bool
  sp_capabilities :: "string list"

record semantic_intent =
  si_tool :: string
  si_operation :: string
  si_namespace :: string
  si_kind :: string
  si_name :: string
  si_images :: "string list"
  si_posture :: security_posture
  si_resource_types :: "string list"
  si_destroy_count :: "int option"
  si_security_group_cidrs :: "string list"
  si_iam_actions :: "string list"
  si_helm_namespace :: string
  si_app_name :: string

section \<open>Helpers\<close>

text \<open>A nil map is \<^const>\<open>None\<close>; reading from it finds nothing.\<close>

definition mget :: "gmap option \<Rightarrow> string \<Rightarrow> gval option" where
  "mget m k = (case m of None \<Rightarrow> None | Some kvs \<Rightarrow> gget kvs k)"

definition extractString :: "gmap option \<Rightarrow> string \<Rightarrow> string" where
  "extractString m key = (case as_str (mget m key) of None \<Rightarrow> [] | Some s \<Rightarrow> trim_space s)"

fun extractNestedMap :: "gmap option \<Rightarrow> string list \<Rightarrow> gmap option" where
  "extractNestedMap m [] = m"
| "extractNestedMap m (k # ks) = (case as_map (mget m k) of
     None \<Rightarrow> None | Some m' \<Rightarrow> extractNestedMap (Some m') ks)"

definition extractNestedString :: "gmap option \<Rightarrow> string list \<Rightarrow> string" where
  "extractNestedString m ks = (if ks = [] then [] else extractString (extractNestedMap m (butlast ks)) (last ks))"

definition extractMap :: "gmap option \<Rightarrow> string \<Rightarrow> gmap option" where
  "extractMap m key = as_map (mget m key)"

definition extractBool :: "gmap option \<Rightarrow> string \<Rightarrow> bool" where
  "extractBool m key = (as_bool (mget m key) = Some True)"

definition extractBoolAny :: "gmap option \<Rightarrow> string list \<Rightarrow> bool" where
  "extractBoolAny m ks = list_ex (extractBool m) ks"

definition toInt64 :: "gval \<Rightarrow> int option" where
  "toInt64 v = (case v of GFloat i \<Rightarrow> Some (wrap64 i) | GInt i \<Rightarrow> Some i | _ \<Rightarrow> None)"

definition extractInt64 :: "gmap option \<Rightarrow> string \<Rightarrow> int option" where
  "extractInt64 m key = Option.bind (mget m key) toInt64"

fun extractInt64Any :: "gmap option \<Rightarrow> string list \<Rightarrow> int" where
  "extractInt64Any m [] = - 1"
| "extractInt64Any m (k # ks) = (case extractInt64 m k of Some v \<Rightarrow> v | None \<Rightarrow> extractInt64Any m ks)"

definition any_str :: "gval \<Rightarrow> string option" where
  "any_str v = (case v of GStr s \<Rightarrow> Some s | _ \<Rightarrow> None)"

definition extractStringSlice :: "gmap option \<Rightarrow> string \<Rightarrow> string list option" where
  "extractStringSlice m key =
    (let out = (case mget m key of
         Some (GStrs ss) \<Rightarrow> (case ss of None \<Rightarrow> [] | Some l \<Rightarrow> l)
       | Some (GArr vs) \<Rightarrow> List.map_filter any_str vs
       | _ \<Rightarrow> [])
     in if out = [] then None else Some out)"

definition extractContainerList :: "gmap option \<Rightarrow> string \<Rightarrow> gval list" where
  "extractContainerList m key = (case as_arr (mget m key) of None \<Rightarrow> [] | Some l \<Rightarrow> l)"

definition extractNestedContainerList :: "gmap option \<Rightarrow> string list \<Rightarrow> gval list" where
  "extractNestedContainerList m ks =
    (if ks = [] then [] else extractContainerList (extractNestedMap m (butlast ks)) (last ks))"

fun firstNonEmpty :: "string list \<Rightarrow> string" where
  "firstNonEmpty [] = []"
| "firstNonEmpty (s # ss) = (if s \<noteq> [] then s else firstNonEmpty ss)"

definition join_with :: "string \<Rightarrow> string list \<Rightarrow> string" where
  "join_with sep ss = (case ss of [] \<Rightarrow> [] | s # ss' \<Rightarrow> s @ concat (map (\<lambda>x. sep @ x) ss'))"

fun sprint_v :: "gval \<Rightarrow> string" where
  "sprint_v GNil = ''<nil>''"
| "sprint_v (GBool b) = (if b then ''true'' else ''false'')"
| "sprint_v (GInt i) = itoa i"
| "sprint_v (GFloat i) = itoa i"
| "sprint_v (GStr s) = s"
| "sprint_v (GStrs ss) = ''['' @ join_with '' '' (case ss of None \<Rightarrow> [] | Some l \<Rightarrow> l) @ '']''"
| "sprint_v (GArr vs) = ''['' @ join_with '' '' (map sprint_v vs) @ '']''"
| "sprint_v (GMap kvs) =
    ''map['' @ join_with '' '' (map (\<lambda>kv. fst kv @ '':'' @ snd kv)
      (sort_key fst (map (\<lambda>kv. (fst kv, sprint_v (snd kv))) kvs))) @ '']''"

definition container_image :: "gmap \<Rightarrow> string option" where
  "container_image cm =
    (let img = to_lower (trim_space (sprint_v (case gget cm ''image'' of None \<Rightarrow> GNil | Some v \<Rightarrow> v)))
     in if img = [] \<or> img = ''<nil>'' then None else Some img)"

definition container_maps :: "gval list \<Rightarrow> gmap list" where
  "container_maps cs = List.map_filter (\<lambda>c. as_map (Some c)) cs"

definition extractImages :: "gval list \<Rightarrow> string list" where
  "extractImages containers = sort (dedup_from [] (List.map_filter container_image (container_maps containers)))"

section \<open>Extraction\<close>

definition security_context :: "gmap \<Rightarrow> gmap option" where
  "security_context cm = (case extractMap (Some cm) ''security_context'' of
     Some m \<Rightarrow> Some m | None \<Rightarrow> extractMap (Some cm) ''securityContext'')"

definition added_capabilities :: "gmap \<Rightarrow> string list" where
  "added_capabilities cm =
    (case extractStringSlice (extractMap (security_context cm) ''capabilities'') ''add'' of None \<Rightarrow> [] | Some l \<Rightarrow> l)"

definition extractContainerPosture :: "gval list \<Rightarrow> security_posture" where
  "extractContainerPosture containers =
    (let cms = container_maps containers in
     \<lparr>sp_privileged = map (\<lambda>cm. extractBool (security_context cm) ''privileged'') cms,
      sp_run_as_user = map (\<lambda>cm. extractInt64Any (security_context cm) [''run_as_user'', ''runAsUser'']) cms,
      sp_host_pid = False, sp_host_ipc = False, sp_host_network = False,
      sp_capabilities = sort (concat (map added_capabilities cms))\<rparr>)"

definition pod_spec_path :: "string list" where
  "pod_spec_path = [''spec'', ''template'', ''spec'']"

definition all_containers :: "gmap option \<Rightarrow> gval list" where
  "all_containers payload =
    (let flat = extractContainerList payload ''containers'';
         flat_init = extractContainerList payload ''init_containers'';
         cs = (if flat = [] then extractNestedContainerList payload (pod_spec_path @ [''containers'']) else flat);
         native_init = extractNestedContainerList payload (pod_spec_path @ [''initContainers'']);
         inits = (if flat_init \<noteq> [] then flat_init
                  else if native_init \<noteq> [] then native_init
                  else extractNestedContainerList payload (pod_spec_path @ [''init_containers'']))
     in cs @ inits)"

text \<open>A pod-level flag, from the payload or from the native pod specification.\<close>

definition pod_flag :: "gmap option \<Rightarrow> string list \<Rightarrow> string list \<Rightarrow> bool" where
  "pod_flag payload flat native \<longleftrightarrow> extractBoolAny payload flat
    \<or> (case extractNestedMap payload pod_spec_path of None \<Rightarrow> False | Some spec \<Rightarrow> extractBoolAny (Some spec) native)"

definition extractK8sIntent :: "gmap option \<Rightarrow> semantic_intent \<Rightarrow> semantic_intent" where
  "extractK8sIntent payload intent =
    (let cs = all_containers payload in
     intent\<lparr>
      si_namespace := to_lower (firstNonEmpty [extractString payload ''namespace'',
        extractNestedString payload [''metadata'', ''namespace'']]),
      si_kind := to_lower (firstNonEmpty [extractString payload ''resource'', extractString payload ''kind'']),
      si_name := to_lower (firstNonEmpty [extractString payload ''name'',
        extractNestedString payload [''metadata'', ''name'']]),
      si_images := extractImages cs,
      si_posture := (extractContainerPosture cs)\<lparr>
        sp_host_pid := pod_flag payload [''host_pid'', ''hostPID''] [''host_pid'', ''hostPID'', ''hostPid''],
        sp_host_ipc := pod_flag payload [''host_ipc'', ''hostIPC''] [''host_ipc'', ''hostIPC'', ''hostIpc''],
        sp_host_network := pod_flag payload [''host_network'', ''hostNetwork''] [''host_network'', ''hostNetwork'']\<rparr>\<rparr>)"

definition rule_cidrs :: "gmap \<Rightarrow> string list" where
  "rule_cidrs rm = filter (\<lambda>s. s \<noteq> []) [extractString (Some rm) ''cidr'', extractString (Some rm) ''cidr_blocks'']"

definition statement_actions :: "gmap \<Rightarrow> string list" where
  "statement_actions sm = concat (map (\<lambda>k. case extractStringSlice (Some sm) k of None \<Rightarrow> [] | Some l \<Rightarrow> l)
     [''actions'', ''Action''])"

definition extractTerraformIntent :: "gmap option \<Rightarrow> semantic_intent \<Rightarrow> semantic_intent" where
  "extractTerraformIntent payload intent = intent\<lparr>
     si_resource_types := (case extractStringSlice payload ''resource_types'' of None \<Rightarrow> [] | Some rt \<Rightarrow> sort rt),
     si_destroy_count := Option.bind (mget payload ''destroy_count'') toInt64,
     si_security_group_cidrs := sort (concat (map rule_cidrs
       (container_maps (extractContainerList payload ''security_group_rules'')))),
     si_iam_actions := sort (concat (map statement_actions
       (container_maps (extractContainerList payload ''iam_policy_statements''))))\<rparr>"

definition zero_posture :: security_posture where
  "zero_posture = \<lparr>sp_privileged = [], sp_run_as_user = [], sp_host_pid = False, sp_host_ipc = False,
     sp_host_network = False, sp_capabilities = []\<rparr>"

definition ExtractSemanticIntent :: "string \<Rightarrow> string \<Rightarrow> gmap option \<Rightarrow> semantic_intent" where
  "ExtractSemanticIntent tool operation payload =
    (let intent = \<lparr>si_tool = to_lower (trim_space tool), si_operation = to_lower (trim_space operation),
           si_namespace = [], si_kind = [], si_name = [], si_images = [], si_posture = zero_posture,
           si_resource_types = [], si_destroy_count = None, si_security_group_cidrs = [], si_iam_actions = [],
           si_helm_namespace = [], si_app_name = []\<rparr> in
     if payload = None then intent
     else if si_tool intent = ''kubectl'' \<or> si_tool intent = ''oc'' then extractK8sIntent payload intent
     else if si_tool intent = ''terraform'' then extractTerraformIntent payload intent
     else if si_tool intent = ''helm'' then
       intent\<lparr>si_helm_namespace := to_lower (firstNonEmpty [extractString payload ''namespace'',
         extractNestedString payload [''metadata'', ''namespace'']])\<rparr>
     else if si_tool intent = ''argocd'' then intent\<lparr>si_app_name := to_lower (extractString payload ''app_name'')\<rparr>
     else intent)"

section \<open>The key\<close>

definition posture_json :: "security_posture \<Rightarrow> json" where
  "posture_json p = JObj
    (omit (sp_privileged p = []) ''privileged'' (JArr (map JBool (sp_privileged p)))
     @ omit (sp_run_as_user p = []) ''run_as_user'' (JArr (map JNum (sp_run_as_user p)))
     @ omit (\<not> sp_host_pid p) ''host_pid'' (JBool (sp_host_pid p))
     @ omit (\<not> sp_host_ipc p) ''host_ipc'' (JBool (sp_host_ipc p))
     @ omit (\<not> sp_host_network p) ''host_network'' (JBool (sp_host_network p))
     @ omit (sp_capabilities p = []) ''capabilities'' (JArr (map JStr (sp_capabilities p))))"

definition intent_json :: "semantic_intent \<Rightarrow> json" where
  "intent_json s = JObj
    ([(''tool'', JStr (si_tool s)), (''operation'', JStr (si_operation s))]
     @ omit (si_namespace s = []) ''namespace'' (JStr (si_namespace s))
     @ omit (si_kind s = []) ''kind'' (JStr (si_kind s))
     @ omit (si_name s = []) ''name'' (JStr (si_name s))
     @ omit (si_images s = []) ''images'' (JArr (map JStr (si_images s)))
     @ [(''posture'', posture_json (si_posture s))]
     @ omit (si_resource_types s = []) ''resource_types'' (JArr (map JStr (si_resource_types s)))
     @ omit (si_destroy_count s = None) ''destroy_count'' (case si_destroy_count s of None \<Rightarrow> JNull | Some n \<Rightarrow> JNum n)
     @ omit (si_security_group_cidrs s = []) ''security_group_cidrs'' (JArr (map JStr (si_security_group_cidrs s)))
     @ omit (si_iam_actions s = []) ''iam_actions'' (JArr (map JStr (si_iam_actions s)))
     @ omit (si_helm_namespace s = []) ''helm_namespace'' (JStr (si_helm_namespace s))
     @ omit (si_app_name s = []) ''app_name'' (JStr (si_app_name s)))"

text \<open>\<open>sha\<close> is the hexadecimal digest: its first twelve bytes are twenty-four characters.\<close>

definition IntentKey :: "(string \<Rightarrow> string) \<Rightarrow> semantic_intent \<Rightarrow> string" where
  "IntentKey sha intent = take 24 (sha (marshal (intent_json intent)))"

section \<open>Laws\<close>

lemma extractImages_props:
  "sorted (extractImages cs)" "distinct (extractImages cs)" "[] \<notin> set (extractImages cs)"
proof -
  have "[] \<notin> set (List.map_filter container_image ms)" for ms
    by (induction ms) (auto simp: List.map_filter_simps container_image_def Let_def split: if_splits option.splits)
  then show "sorted (extractImages cs)" "distinct (extractImages cs)" "[] \<notin> set (extractImages cs)"
    by (simp_all add: extractImages_def distinct_dedup_from set_dedup_from)
qed

text \<open>Lists of containers in another order have the same images and the same added capabilities.\<close>

lemma mset_map_filter: "mset xs = mset ys \<Longrightarrow> mset (List.map_filter g xs) = mset (List.map_filter g ys)"
  by (simp add: List.map_filter_def flip: mset_filter) (metis mset_filter mset_map)

lemma extractImages_perm:
  assumes "mset cs = mset ds"
  shows "extractImages cs = extractImages ds"
proof (rule sorted_distinct_set_unique)
  have "mset (List.map_filter container_image (container_maps cs)) = mset (List.map_filter container_image (container_maps ds))"
    unfolding container_maps_def by (intro mset_map_filter assms)
  then have "set (List.map_filter container_image (container_maps cs)) = set (List.map_filter container_image (container_maps ds))"
    by (rule mset_eq_setD)
  then show "set (extractImages cs) = set (extractImages ds)"
    by (simp add: extractImages_def set_dedup_from)
qed (simp_all add: extractImages_props)

end
