(* ===== verification/DenyCache.thy ===== *)
theory DenyCache
  imports Prelude "HOL-Library.AList"
begin

text \<open>
  \<^verbatim>\<open>pkg/mcpserver/deny_cache.go\<close>: denials remembered per intent key for a time to live. Instants are
  readings of the monotonic clock in nanoseconds; the mutex makes every operation atomic, so a run is
  a sequence of operations. The abstract view of a cache is the map from keys to the time and the
  number of their denials, which every operation refines.
\<close>

record deny_entry =
  de_denied_at :: int
  de_deny_count :: int
  de_reason :: string
  de_rule_ids :: "string list"
  de_event_id :: string

record deny_cache =
  dch_entries :: "(string \<times> deny_entry) list"
  dch_ttl :: int

record error_summary =
  es_code :: string
  es_message :: string

definition NewDenyCache :: "int \<Rightarrow> deny_cache" where
  "NewDenyCache ttl = \<lparr>dch_entries = [], dch_ttl = ttl\<rparr>"

definition ErrCodeStopAfterDeny :: string where "ErrCodeStopAfterDeny = ''stop_after_deny''"

definition CheckDenyLoop :: "int \<Rightarrow> string \<Rightarrow> deny_cache \<Rightarrow> error_summary option \<times> deny_cache" where
  "CheckDenyLoop now intentKey dc = (case map_of (dch_entries dc) intentKey of
     None \<Rightarrow> (None, dc)
   | Some entry \<Rightarrow>
       if dch_ttl dc < now - de_denied_at entry
       then (None, dc\<lparr>dch_entries := AList.delete intentKey (dch_entries dc)\<rparr>)
       else (Some \<lparr>es_code = ErrCodeStopAfterDeny,
               es_message = ''This intent was already denied (count: '' @ itoa (de_deny_count entry)
                 @ ''). Original reason: '' @ de_reason entry\<rparr>, dc))"

definition RecordDeny :: "int \<Rightarrow> string \<Rightarrow> string \<Rightarrow> string list \<Rightarrow> string \<Rightarrow> deny_cache \<Rightarrow> deny_cache" where
  "RecordDeny now intentKey reason ruleIDs eventID dc =
    (let entry = (case map_of (dch_entries dc) intentKey of
         Some en \<Rightarrow> en\<lparr>de_deny_count := de_deny_count en + 1, de_denied_at := now\<rparr>
       | None \<Rightarrow> \<lparr>de_denied_at = now, de_deny_count = 1, de_reason = reason, de_rule_ids = ruleIDs,
                   de_event_id = eventID\<rparr>)
     in dc\<lparr>dch_entries := AList.update intentKey entry (dch_entries dc)\<rparr>)"

definition ClearIntent :: "string \<Rightarrow> deny_cache \<Rightarrow> deny_cache" where
  "ClearIntent intentKey dc = dc\<lparr>dch_entries := AList.delete intentKey (dch_entries dc)\<rparr>"

definition Cleanup :: "int \<Rightarrow> deny_cache \<Rightarrow> deny_cache" where
  "Cleanup now dc = dc\<lparr>dch_entries := filter (\<lambda>e. \<not> dch_ttl dc < now - de_denied_at (snd e)) (dch_entries dc)\<rparr>"

section \<open>The abstract cache\<close>

text \<open>What a client can observe: the last denial of each key and how many there were.\<close>

type_synonym deny_view = "string \<Rightarrow> (int \<times> int) option"

definition view :: "deny_cache \<Rightarrow> deny_view" where
  "view dc k = map_option (\<lambda>en. (de_denied_at en, de_deny_count en)) (map_of (dch_entries dc) k)"

definition cache_ok :: "deny_cache \<Rightarrow> bool" where
  "cache_ok dc \<longleftrightarrow> distinct (map fst (dch_entries dc)) \<and> (\<forall>en \<in> snd ` set (dch_entries dc). 1 \<le> de_deny_count en)"

definition live :: "int \<Rightarrow> int \<Rightarrow> (int \<times> int) option \<Rightarrow> bool" where
  "live ttl now x = (case x of None \<Rightarrow> False | Some (t, _) \<Rightarrow> now - t \<le> ttl)"

definition a_record :: "int \<Rightarrow> string \<Rightarrow> deny_view \<Rightarrow> deny_view" where
  "a_record now k v = v(k := Some (now, case v k of None \<Rightarrow> 1 | Some (_, n) \<Rightarrow> n + 1))"

lemma view_RecordDeny: "view (RecordDeny now k r ids ev dc) = a_record now k (view dc)"
  by (rule ext) (simp add: view_def RecordDeny_def a_record_def update_conv' Let_def split: option.splits)

lemma view_ClearIntent: "view (ClearIntent k dc) = (view dc)(k := None)"
  by (rule ext) (simp add: view_def ClearIntent_def delete_conv')

lemma fst_CheckDenyLoop: "fst (CheckDenyLoop now k dc) \<noteq> None \<longleftrightarrow> live (dch_ttl dc) now (view dc k)"
  by (auto simp: CheckDenyLoop_def live_def view_def split: option.splits if_splits)

lemma view_CheckDenyLoop:
  "view (snd (CheckDenyLoop now k dc)) = (if live (dch_ttl dc) now (view dc k) then view dc else (view dc)(k := None))"
proof (rule ext)
  fix x
  show "view (snd (CheckDenyLoop now k dc)) x =
      (if live (dch_ttl dc) now (view dc k) then view dc else (view dc)(k := None)) x"
    by (auto simp: view_def CheckDenyLoop_def live_def delete_conv' split: option.splits if_splits)
qed

lemma view_Cleanup:
  assumes "distinct (map fst (dch_entries dc))"
  shows "view (Cleanup now dc) = (\<lambda>k. if live (dch_ttl dc) now (view dc k) then view dc k else None)"
proof (rule ext)
  fix k
  have "map_of (filter (\<lambda>e. P (snd e)) es) k = (case map_of es k of None \<Rightarrow> None | Some v \<Rightarrow> if P v then Some v else None)"
    if "distinct (map fst es)" for P and es :: "(string \<times> deny_entry) list"
    using that
  proof (induction es)
    case (Cons e es)
    then have "fst e \<notin> fst ` set es" by simp
    then have "map_of es (fst e) = None" by (simp add: map_of_eq_None_iff)
    with Cons show ?case by (cases e) (auto split: option.splits)
  qed simp
  from this [OF assms, of "\<lambda>en. \<not> dch_ttl dc < now - de_denied_at en"]
  show "view (Cleanup now dc) k = (if live (dch_ttl dc) now (view dc k) then view dc k else None)"
    by (auto simp: view_def Cleanup_def live_def split: option.splits)
qed

lemma ttl_unchanged [simp]:
  "dch_ttl (RecordDeny now k r ids ev dc) = dch_ttl dc" "dch_ttl (ClearIntent k dc) = dch_ttl dc"
  "dch_ttl (snd (CheckDenyLoop now k dc)) = dch_ttl dc" "dch_ttl (Cleanup now dc) = dch_ttl dc"
  by (simp_all add: RecordDeny_def ClearIntent_def CheckDenyLoop_def Cleanup_def split: option.splits)

section \<open>Runs\<close>

text \<open>The operations on a cache as a step relation; \<open>t\<close> is the clock at the step.\<close>

datatype deny_op = OpCheck string | OpRecord string string "string list" string | OpClear string | OpCleanup

inductive deny_step :: "deny_cache \<Rightarrow> int \<Rightarrow> deny_op \<Rightarrow> deny_cache \<Rightarrow> bool" where
  do_check: "deny_step dc t (OpCheck k) (snd (CheckDenyLoop t k dc))"
| do_record: "deny_step dc t (OpRecord k r ids ev) (RecordDeny t k r ids ev dc)"
| do_clear: "deny_step dc t (OpClear k) (ClearIntent k dc)"
| do_cleanup: "deny_step dc t OpCleanup (Cleanup t dc)"

inductive_cases deny_stepE: "deny_step dc t op dc'"

text \<open>Runs with a clock that does not go back and that never touch the key by \<^verbatim>\<open>ClearIntent\<close>.\<close>

inductive deny_run :: "string \<Rightarrow> int \<Rightarrow> deny_cache \<Rightarrow> int \<Rightarrow> deny_cache \<Rightarrow> bool" for k where
  refl: "deny_run k t dc t dc"
| step: "deny_run k t0 dc0 t dc \<Longrightarrow> t \<le> t' \<Longrightarrow> deny_step dc t' op dc' \<Longrightarrow> op \<noteq> OpClear k \<Longrightarrow> deny_run k t0 dc0 t' dc'"

lemma set_AList_update: "set (AList.update k v es) \<subseteq> insert (k, v) (set es)"
  by (induction es) auto

lemma cache_ok_step:
  assumes "deny_step dc t op dc'" "cache_ok dc"
  shows "cache_ok dc'"
  using assms
proof (cases rule: deny_step.cases)
  case (do_check k)
  have "cache_ok (dc\<lparr>dch_entries := AList.delete k (dch_entries dc)\<rparr>)"
    using assms(2) distinct_delete [of "dch_entries dc" k]
    by (auto simp: cache_ok_def AList.delete_eq)
  with do_check assms(2) show ?thesis by (simp add: CheckDenyLoop_def split: option.splits)
next
  case (do_record k r ids ev)
  have "1 \<le> de_deny_count en" if "map_of (dch_entries dc) k = Some en" for en
    using assms(2) map_of_SomeD [OF that] by (force simp: cache_ok_def)
  moreover have "cache_ok (dc\<lparr>dch_entries := AList.update k x (dch_entries dc)\<rparr>)" if "1 \<le> de_deny_count x" for x
    using assms(2) that set_AList_update [of k x "dch_entries dc"]
    by (fastforce simp: cache_ok_def distinct_update)
  ultimately show ?thesis
    using do_record by (simp add: RecordDeny_def Let_def split: option.splits)
next
  case (do_clear k)
  then show ?thesis
    using assms(2) distinct_delete [of "dch_entries dc" k] by (auto simp: cache_ok_def ClearIntent_def AList.delete_eq)
next
  case do_cleanup
  then show ?thesis using assms(2) by (auto simp: cache_ok_def Cleanup_def intro: distinct_map_filter)
qed

lemma step_keeps_live:
  assumes "deny_step dc t op dc'" "op \<noteq> OpClear k" "cache_ok dc" "view dc k = Some (d, n)" "t - d \<le> dch_ttl dc"
  shows "\<exists>d' n'. view dc' k = Some (d', n') \<and> n \<le> n' \<and> (d' = d \<or> d' = t) \<and> dch_ttl dc' = dch_ttl dc"
  using assms
proof (cases rule: deny_step.cases)
  case (do_check j)
  then show ?thesis using assms(4,5) by (auto simp: view_CheckDenyLoop live_def)
next
  case (do_record j r ids ev)
  then show ?thesis using assms(4) by (auto simp: view_RecordDeny a_record_def)
next
  case (do_clear j)
  then show ?thesis using assms(2,4) by (auto simp: view_ClearIntent)
next
  case do_cleanup
  then show ?thesis using assms(3-5) by (auto simp: view_Cleanup cache_ok_def live_def)
qed

lemma run_keeps_live:
  assumes "deny_run k t0 dc0 t dc" "cache_ok dc0" "view dc0 k = Some (d, n)" "t0 = d" "t - d \<le> dch_ttl dc0"
  shows "\<exists>d' n'. view dc k = Some (d', n') \<and> d \<le> d' \<and> d' \<le> t \<and> n \<le> n' \<and> dch_ttl dc = dch_ttl dc0 \<and> cache_ok dc"
  using assms
proof (induction rule: deny_run.induct)
  case (refl t dc)
  then show ?case by auto
next
  case (step t0 dc0 t dc t' op dc')
  then obtain d1 n1 where 1: "view dc k = Some (d1, n1)" "d \<le> d1" "d1 \<le> t" "n \<le> n1" "dch_ttl dc = dch_ttl dc0" "cache_ok dc"
    by (auto simp: )
  have "t' - d1 \<le> dch_ttl dc" using 1 step.prems by linarith
  from step_keeps_live [OF step.hyps(3,4) 1(6,1) this] obtain d2 n2 where
    2: "view dc' k = Some (d2, n2)" "n1 \<le> n2" "d2 = d1 \<or> d2 = t'" "dch_ttl dc' = dch_ttl dc" by blast
  moreover have "cache_ok dc'" using cache_ok_step [OF step.hyps(3) 1(6)] .
  ultimately show ?case using 1 step.hyps(2) by auto
qed

end
