(* ===== verification/EvidenceLog.thy ===== *)
theory EvidenceLog
  imports EvidenceStore
begin

text \<open>
  The contract of an evidence store, as an interface: a list of linked records that appending extends
  by one, that reading returns in order and that validation accepts, where \<open>inv k rs f\<close> says that the
  files \<open>f\<close> hold the records \<open>rs\<close> and have room for \<open>k\<close> more. Both store formats implement it through
  the locked operations of the package.
\<close>

text \<open>Appending several records one after the other, and the records the store then holds.\<close>

fun append_all :: "(evidence_record \<Rightarrow> evidence_record io) \<Rightarrow> evidence_record list \<Rightarrow> fs \<Rightarrow> fs" where
  "append_all app [] f = f"
| "append_all app (r # rs) f = append_all app rs (snd (app r f))"

fun stored :: "(string \<Rightarrow> evidence_record \<Rightarrow> evidence_record) \<Rightarrow> evidence_record list \<Rightarrow> evidence_record list \<Rightarrow> evidence_record list" where
  "stored compl old [] = old"
| "stored compl old (r # rs) = stored compl (old @ [norm_record (compl (last_hash [] old) r)]) rs"

text \<open>Each record can be written where it comes, and names no policy other than the one before it.\<close>

fun acceptable_all ::
  "(string \<Rightarrow> evidence_record \<Rightarrow> bool) \<Rightarrow> (string \<Rightarrow> evidence_record \<Rightarrow> evidence_record) \<Rightarrow> evidence_record list \<Rightarrow> evidence_record list \<Rightarrow> bool" where
  "acceptable_all acc compl old [] = True"
| "acceptable_all acc compl old (r # rs) =
    (acc (last_hash [] old) r \<and> policy_fits (policy_end [] old) (er_policy_ref r)
     \<and> acceptable_all acc compl (old @ [norm_record (compl (last_hash [] old) r)]) rs)"

lemma length_stored: "length (stored compl old rs) = length old + length rs"
  by (induction rs arbitrary: old) simp_all

lemma stored_prefix: "prefix old (stored compl old rs)"
proof (induction rs arbitrary: old)
  case Nil
  then show ?case by simp
next
  case (Cons r rs)
  then show ?case by (metis append_prefixD stored.simps(2))
qed

locale evidence_log =
  fixes append :: "evidence_record \<Rightarrow> evidence_record io"
    and read :: "evidence_record list io"
    and validate :: "unit io"
    and complete :: "string \<Rightarrow> evidence_record \<Rightarrow> evidence_record"
    and acceptable :: "string \<Rightarrow> evidence_record \<Rightarrow> bool"
    and inv :: "nat \<Rightarrow> evidence_record list \<Rightarrow> fs \<Rightarrow> bool"
  assumes append_law: "\<lbrakk>inv (Suc k) rs f; acceptable (last_hash [] rs) r;
      policy_fits (policy_end [] rs) (er_policy_ref r)\<rbrakk> \<Longrightarrow>
      \<exists>f'. append r f = (Inr (complete (last_hash [] rs) r), f')
        \<and> inv k (rs @ [norm_record (complete (last_hash [] rs) r)]) f'"
    and read_law: "inv k rs f \<Longrightarrow> \<exists>f'. read f = (Inr rs, f') \<and> inv k rs f'"
    and validate_law: "inv k rs f \<Longrightarrow> \<exists>f'. validate f = (Inr (), f') \<and> inv k rs f'"
begin

lemma append_all_inv:
  "inv (length rs + k) old f \<Longrightarrow> acceptable_all acceptable complete old rs \<Longrightarrow>
    inv k (stored complete old rs) (append_all append rs f)"
proof (induction rs arbitrary: old f)
  case Nil
  then show ?case by simp
next
  case (Cons r rs)
  then obtain f' where "append r f = (Inr (complete (last_hash [] old) r), f')"
    "inv (length rs + k) (old @ [norm_record (complete (last_hash [] old) r)]) f'"
    using append_law [of "length rs + k" old f r] by auto
  with Cons show ?case by simp
qed

text \<open>After any number of appends the store reads back the records, in order, and validates.\<close>

lemma append_then_read:
  assumes "inv (length rs + k) old f" "acceptable_all acceptable complete old rs"
  shows "\<exists>f'. read (append_all append rs f) = (Inr (stored complete old rs), f') \<and> inv k (stored complete old rs) f'"
  by (rule read_law [OF append_all_inv [OF assms]])

lemma append_then_validate:
  assumes "inv (length rs + k) old f" "acceptable_all acceptable complete old rs"
  shows "\<exists>f'. validate (append_all append rs f) = (Inr (), f') \<and> inv k (stored complete old rs) f'"
  by (rule validate_law [OF append_all_inv [OF assms]])

end

section \<open>The segmented store\<close>

definition seg_store :: "(string \<Rightarrow> string) \<Rightarrow> env \<Rightarrow> string \<Rightarrow> nat \<Rightarrow> evidence_record list \<Rightarrow> fs \<Rightarrow> bool" where
  "seg_store sha e path k rs f \<longleftrightarrow> lock_granted e \<and> one_policy rs \<and> int (length rs) + int k < 2 ^ 63
    \<and> (\<exists>m n. seg_inv sha (clean_path path) m n rs f \<and> n + k \<le> 999999 \<and> sm_policy_ref m = policy_end [] rs)"

lemma seg_inv_locked:
  assumes "seg_inv sha root m n rs f"
  shows "seg_inv sha root m n rs (locked root f)"
proof -
  have b: "body root n rs f" using assms by (simp add: seg_inv_body)
  then have d: "dir_at (locked root f) (segs root)"
    by (intro wrote_dir_at [OF wrote_locked]) (simp_all add: body_def)
  have "body root n rs (locked root f)"
    using b d wrote_unrefused [OF wrote_locked [of root f]]
    by (simp add: body_def node_at_locked seg_files_def readable_def store_records_def file_records_def)
  then show ?thesis using assms by (simp add: seg_inv_body node_at_locked)
qed

lemma seg_inv_mode: "seg_inv sha (clean_path path) m n rs f \<Longrightarrow> detectStoreMode f path = Inr (Segmented, clean_path path)"
  using seg_invD(8,9) stat_dir by (fastforce simp: detectStoreMode_def detect_mode_def)

lemma seg_inv_lock:
  assumes "seg_inv sha (clean_path path) m n rs f" "lock_granted e"
  shows "withStoreLock e path fn f = fn (locked (clean_path path) f)"
proof (rule withStoreLock_ok [OF assms(2)])
  show "lockRootForPath f path = Inr (clean_path path)"
    using seg_inv_mode [OF assms(1)] by (simp add: lockRootForPath_def)
  show "node_at f (child (clean_path path) lockFileName) \<noteq> Some Dir"
    using assms(1) by (simp add: seg_inv_def store_files_def)
qed (use seg_invD(8,9) [OF assms(1)] in simp_all)

lemma policy_fits_append:
  assumes "one_policy rs" "policy_fits (policy_end [] rs) (er_policy_ref q)"
  shows "one_policy (rs @ [q])" "next_policy_ref (policy_end [] rs) (er_policy_ref q) = policy_end [] (rs @ [q])"
  using assms by (auto simp flip: policies_from_one_policy simp: next_policy_ref_def policy_fits_def)

lemma er_policy_ref_completed [simp]: "er_policy_ref (completed sha e p r) = er_policy_ref r"
  by (simp add: completed_def stamp_def Let_def)

lemma seg_append_law:
  assumes "seg_store sha e path (Suc k) rs f" "storable sha e (last_hash [] rs) r"
    "policy_fits (policy_end [] rs) (er_policy_ref r)"
  shows "\<exists>f'. appendAtPath sha e path r f = (Inr (completed sha e (last_hash [] rs) r), f')
    \<and> seg_store sha e path k (rs @ [norm_record (completed sha e (last_hash [] rs) r)]) f'"
proof -
  let ?q = "completed sha e (last_hash [] rs) r" and ?root = "clean_path path"
  obtain m n where mn: "seg_inv sha ?root m n rs f" "n + Suc k \<le> 999999" "sm_policy_ref m = policy_end [] rs"
    using assms(1) by (auto simp: seg_store_def)
  have s: "lock_granted e" "one_policy rs" "int (length rs) + int (Suc k) < 2 ^ 63"
    using assms(1) by (simp_all add: seg_store_def)
  note l = seg_inv_locked [OF mn(1)]
  obtain m' n' f' where f': "appendSegmented sha e ?root r (locked ?root f) = (Inr ?q, f')"
    "seg_inv sha ?root m' n' (rs @ [norm_record ?q]) f'" "n' \<le> Suc n"
    "sm_policy_ref m' = next_policy_ref (sm_policy_ref m) (er_policy_ref ?q)"
    by (rule appendSegmented_ok [OF l assms(2)]) (use mn s in auto)
  have "appendAtPath sha e path r f = (Inr ?q, f')"
    using f'(1)
    by (simp add: appendAtPath_def appendAtPathUnlocked_def seg_inv_lock [OF mn(1) s(1)]
        with_mode_ok [OF seg_inv_mode [OF l]])
  moreover have "seg_store sha e path k (rs @ [norm_record ?q]) f'"
    unfolding seg_store_def
    using policy_fits_append [of rs "norm_record ?q"] assms(3) mn(2,3) s f'(2-4)
    by (intro conjI exI [of _ m'] exI [of _ n']) simp_all
  ultimately show ?thesis by blast
qed

lemma seg_store_locked:
  assumes "seg_store sha e path k rs f"
  shows "seg_store sha e path k rs (locked (clean_path path) f)"
    "withStoreLock e path fn f = fn (locked (clean_path path) f)"
    "detectStoreMode (locked (clean_path path) f) path = Inr (Segmented, clean_path path)"
proof -
  obtain m n where mn: "seg_inv sha (clean_path path) m n rs f" "n + k \<le> 999999" "sm_policy_ref m = policy_end [] rs"
    and g: "lock_granted e"
    using assms by (auto simp: seg_store_def)
  note l = seg_inv_locked [OF mn(1)]
  show "seg_store sha e path k rs (locked (clean_path path) f)"
    using assms mn(2,3) l unfolding seg_store_def by blast
  show "withStoreLock e path fn f = fn (locked (clean_path path) f)" by (rule seg_inv_lock [OF mn(1) g])
  show "detectStoreMode (locked (clean_path path) f) path = Inr (Segmented, clean_path path)"
    by (rule seg_inv_mode [OF l])
qed

lemma seg_store_each:
  assumes "seg_store sha e path k rs f"
  shows "forEachRecordUnlocked f (clean_path path) fn s = each fn rs s"
  using assms seg_inv_mode streamSegmentedRecords_each
  by (auto simp: seg_store_def forEachRecordUnlocked_def detectStoreMode_def)

lemma seg_store_valid:
  assumes "seg_store sha e path k rs f"
  shows "validateSegmentedChain sha e (clean_path path) f = None"
  using assms validateSegmentedChain_iff by (fastforce simp: seg_store_def policy_fits_def)

interpretation segmented: evidence_log "appendAtPath sha e path" "ReadAllAtPath e path" "ValidateChainAtPath sha e path"
  "completed sha e" "storable sha e" "seg_store sha e path" for sha e path
proof
  fix k rs f
  assume s: "seg_store sha e path k rs f"
  note l = seg_store_locked [OF s]
  have "ReadAllAtPath e path f = (Inr rs, locked (clean_path path) f)"
    by (simp add: ReadAllAtPath_def ForEachRecordAtPath_def io_bind_def l(2) seg_store_each [OF l(1)] each_collect)
  then show "\<exists>f'. ReadAllAtPath e path f = (Inr rs, f') \<and> seg_store sha e path k rs f'" using l(1) by blast
  have "ValidateChainAtPath sha e path f = (Inr (), locked (clean_path path) f)"
    by (simp add: ValidateChainAtPath_def validateChainAtPathUnlocked_def l(2) with_mode_ok [OF l(3)]
        lift_err_def seg_store_valid [OF l(1)])
  then show "\<exists>f'. ValidateChainAtPath sha e path f = (Inr (), f') \<and> seg_store sha e path k rs f'" using l(1) by blast
qed (rule seg_append_law)

section \<open>The legacy store\<close>

definition legacy_store :: "(string \<Rightarrow> string) \<Rightarrow> env \<Rightarrow> string \<Rightarrow> nat \<Rightarrow> evidence_record list \<Rightarrow> fs \<Rightarrow> bool" where
  "legacy_store sha e path k rs f \<longleftrightarrow> lock_granted e \<and> one_policy rs \<and> legacy_inv sha (clean_path path) rs f
    \<and> node_at f (clean_path path) \<noteq> None"

abbreviation lock_dir :: "string \<Rightarrow> path" where
  "lock_dir path \<equiv> path_dir (clean_path path)"

lemma legacy_inv_locked:
  assumes "legacy_inv sha p rs f"
  shows "legacy_inv sha p rs (locked (path_dir p) f)"
    "node_at (locked (path_dir p) f) p = node_at f p"
proof -
  have "p \<noteq> child (path_dir p) lockFileName"
    using assms by (metis legacy_inv_def path_base_child)
  then show n: "node_at (locked (path_dir p) f) p = node_at f p" by (simp add: node_at_locked)
  have "dir_at (locked (path_dir p) f) (path_dir p)"
    using assms by (intro wrote_dir_at [OF wrote_locked]) (simp_all add: legacy_inv_def)
  then show "legacy_inv sha p rs (locked (path_dir p) f)"
    using assms n wrote_unrefused [OF wrote_locked [of "path_dir p" f]]
    by (auto simp: legacy_inv_def node_at_locked readable_def file_records_def)
qed

lemma legacy_mode: "legacy_inv sha (clean_path path) rs f \<Longrightarrow> detectStoreMode f path = Inr (Legacy, clean_path path)"
  by (erule legacy_invD) (simp add: detectStoreMode_def)

lemma wf_path_dir: "wf_path p \<Longrightarrow> wf_path (path_dir p)"
  using ok_stack_appendD [of "rooted p" "[last (comps p)]" "rev (butlast (comps p))"]
  by (cases "comps p" rule: rev_cases) (auto simp: wf_path_def path_dir_def)

lemma legacy_lock:
  assumes "legacy_inv sha (clean_path path) rs f" "lock_granted e"
  shows "withStoreLock e path fn f = fn (locked (lock_dir path) f)"
proof (rule withStoreLock_ok [OF assms(2)])
  show "lockRootForPath f path = Inr (lock_dir path)"
    using legacy_mode [OF assms(1)] by (simp add: lockRootForPath_def)
qed (use assms(1) in \<open>simp_all add: legacy_inv_def wf_path_dir\<close>)

lemma legacy_first_append:
  assumes "legacy_inv sha (clean_path path) rs f" "lock_granted e" "one_policy rs"
    "storable sha e (last_hash [] rs) r" "policy_fits (policy_end [] rs) (er_policy_ref r)"
  shows "\<exists>f'. appendAtPath sha e path r f = (Inr (completed sha e (last_hash [] rs) r), f')
    \<and> legacy_store sha e path k (rs @ [norm_record (completed sha e (last_hash [] rs) r)]) f'"
proof -
  let ?q = "completed sha e (last_hash [] rs) r" and ?p = "clean_path path"
  note l = legacy_inv_locked(1) [OF assms(1)]
  obtain f' where f': "appendLegacy sha e ?p r (locked (lock_dir path) f) = (Inr ?q, f')"
    "legacy_inv sha ?p (rs @ [norm_record ?q]) f'"
    by (rule appendLegacy_ok [OF l assms(4)])
  have "appendAtPath sha e path r f = (Inr ?q, f')"
    using f'(1) by (simp add: appendAtPath_def appendAtPathUnlocked_def legacy_lock [OF assms(1,2)]
        with_mode_ok [OF legacy_mode [OF l]])
  moreover have "node_at f' ?p \<noteq> None" using legacy_empty [OF f'(2)] by auto
  ultimately show ?thesis
    using f'(2) policy_fits_append(1) [of rs "norm_record ?q"] assms(2,3,5) by (simp add: legacy_store_def)
qed

lemma legacy_each:
  assumes "legacy_store sha e path k rs f"
  shows "forEachRecordUnlocked f (clean_path path) fn s = each fn rs s"
proof -
  have i: "legacy_inv sha (clean_path path) rs f" "node_at f (clean_path path) \<noteq> None"
    using assms by (simp_all add: legacy_store_def)
  have "detect_mode f (clean_path path) = Inr (Legacy, clean_path path)"
    using legacy_mode [OF i(1)] by (simp add: detectStoreMode_def)
  then show ?thesis
    using i(2) stream_legacy [OF i(1)] by (auto simp: forEachRecordUnlocked_def streamLegacyRecords_def)
qed

interpretation legacy: evidence_log "appendAtPath sha e path" "ReadAllAtPath e path" "ValidateChainAtPath sha e path"
  "completed sha e" "storable sha e" "legacy_store sha e path" for sha e path
proof
  fix k rs f
  assume s: "legacy_store sha e path k rs f"
  then have i: "legacy_inv sha (clean_path path) rs f" and g: "lock_granted e" and o: "one_policy rs"
    by (simp_all add: legacy_store_def)
  let ?l = "locked (lock_dir path) f"
  note li = legacy_inv_locked [OF i]
  have l: "legacy_store sha e path k rs ?l" using s li by (simp add: legacy_store_def)
  have "ReadAllAtPath e path f = (Inr rs, ?l)"
    by (simp add: ReadAllAtPath_def ForEachRecordAtPath_def io_bind_def legacy_lock [OF i g]
        legacy_each [OF l] each_collect)
  then show "\<exists>f'. ReadAllAtPath e path f = (Inr rs, f') \<and> legacy_store sha e path k rs f'" using l by blast
  have "ValidateChainAtPath sha e path f = (Inr (), ?l)"
    using o validateLegacyChain_iff [OF li(1)]
    by (simp add: ValidateChainAtPath_def validateChainAtPathUnlocked_def legacy_lock [OF i g]
        with_mode_ok [OF legacy_mode [OF li(1)]] lift_err_def)
  then show "\<exists>f'. ValidateChainAtPath sha e path f = (Inr (), f') \<and> legacy_store sha e path k rs f'" using l by blast
next
  fix k rs f r
  assume "legacy_store sha e path (Suc k) rs f" "storable sha e (last_hash [] rs) r"
    "policy_fits (policy_end [] rs) (er_policy_ref r)"
  then show "\<exists>f'. appendAtPath sha e path r f = (Inr (completed sha e (last_hash [] rs) r), f')
      \<and> legacy_store sha e path k (rs @ [norm_record (completed sha e (last_hash [] rs) r)]) f'"
    by (intro legacy_first_append) (simp_all add: legacy_store_def)
qed

section \<open>Lookup by event id\<close>

lemma each_find_step:
  "each (find_step x) rs None = (case List.find (\<lambda>r. er_event_id r = x) rs of
     None \<Rightarrow> (None, None) | Some r \<Rightarrow> (Some EStop, Some r))"
  by (induction rs) (auto simp: find_step_def)

lemma FindByEventID_segmented:
  assumes "seg_store sha e path k rs f"
  shows "FindByEventID sha e path x f = (Inr (List.find (\<lambda>r. er_event_id r = x) rs), locked (clean_path path) f)"
proof -
  note l = seg_store_locked [OF assms]
  show ?thesis
    by (simp add: FindByEventID_def l(2) validateChainAtPathUnlocked_def with_mode_ok [OF l(3)] lift_err_def
        seg_store_valid [OF l(1)] seg_store_each [OF l(1)] each_find_step split: option.splits)
qed

section \<open>A new store\<close>

lemma Store_Init_ok:
  assumes "vacant (clean_path path) f" "lock_granted e" "k \<le> 999998"
  obtains f' where "Store_Init e path f = (Inr (), f')" "seg_store sha e path k [] f'"
proof -
  let ?root = "clean_path path"
  have v: "unrefused f" "dir_at f ?root" "node_at f (child ?root lockFileName) \<noteq> Some Dir"
    using assms(1) by (simp_all add: vacant_def)
  have mode: "detectStoreMode g path = Inr (Segmented, ?root)" if "unrefused g" "dir_at g ?root" for g
    using that stat_dir by (simp add: detectStoreMode_def detect_mode_def)
  have "lockRootForPath f path = Inr ?root" using mode [OF v(1,2)] by (simp add: lockRootForPath_def)
  then have lk: "withStoreLock e path fn f = fn (locked ?root f)" for fn :: "unit io"
    by (rule withStoreLock_ok [OF assms(2)]) (use v in simp_all)
  have w: "unrefused (locked ?root f)" "dir_at (locked ?root f) ?root"
    using v wrote_unrefused [OF wrote_locked [of ?root f]] wrote_dir_at [OF wrote_locked] by simp_all
  have "vacant ?root (locked ?root f)"
    using assms(1) w by (simp add: vacant_def node_at_locked)
  then obtain f' where f': "loadOrInitManifest e ?root (segmentMaxBytesFromEnv e) True (locked ?root f)
      = (Inr (new_manifest (fmt_rfc3339 (e_now e 0)) (segmentMaxBytesFromEnv e)), f')"
    "seg_inv sha ?root (new_manifest (fmt_rfc3339 (e_now e 0)) (segmentMaxBytesFromEnv e)) 1 [] f'"
    using init_manifest_ok [of ?root "locked ?root f" "segmentMaxBytesFromEnv e"] by auto
  have "Store_Init e path f = (Inr (), f')"
    using f'(1) by (simp add: Store_Init_def lk with_mode_ok [OF mode [OF w]] io_bind_def)
  moreover have "seg_store sha e path k [] f'"
    unfolding seg_store_def using f'(2) assms(2,3)
    by (intro conjI exI [of _ "new_manifest (fmt_rfc3339 (e_now e 0)) (segmentMaxBytesFromEnv e)"] exI [of _ "1::nat"])
      (simp_all add: one_policy_def new_manifest_def)
  ultimately show ?thesis using that by blast
qed

end
