(* ===== verification/McpServer.thy ===== *)
theory McpServer
  imports Client Intent DenyCache EvidenceLog
begin

text \<open>
  \<^verbatim>\<open>pkg/mcpserver/server.go\<close>: the service behind the \<^verbatim>\<open>validate\<close> and \<^verbatim>\<open>get_event\<close> tools and the resources of
  the MCP server. The state of the service is its deny cache and the files. The MCP library, which
  calls these handlers, is not modelled. \<open>texts\<close> renders an error as \<^verbatim>\<open>err.Error()\<close> does.
\<close>

record texts =
  tx_client :: "cl_err \<Rightarrow> string"
  tx_validate :: "val_err \<Rightarrow> string"

text \<open>What the service is given from outside: digest, policy compiler, sources, network, environment.\<close>

record world =
  w_sha :: "string \<Rightarrow> string"
  w_prepare :: opa_prepare
  w_sources :: source_makers
  w_net :: transport
  w_env :: env
  w_abs :: "string \<Rightarrow> string option"
  w_texts :: texts

record policy_summary =
  psm_allow :: bool
  psm_risk_level :: string
  psm_reason :: string
  psm_policy_ref :: string

record validate_output =
  vo_ok :: bool
  vo_event_id :: string
  vo_source :: string
  vo_policy :: policy_summary
  vo_rule_ids :: "string list"
  vo_hints :: "string list"
  vo_reasons :: "string list"
  vo_resources :: "resource_link list"
  vo_error :: "error_summary option"

record service =
  sv_policy_path :: string
  sv_data_path :: string
  sv_bundle_path :: string
  sv_environment :: string
  sv_evidence_path :: string
  sv_policy_ref :: string
  sv_mode :: string
  sv_include_file_links :: bool
  sv_api_client :: "client option"
  sv_fallback_policy :: string
  sv_is_online :: bool
  sv_engine_logic_body :: string
  sv_protocol_errors_body :: string
  sv_agent_contract_body :: string

section \<open>Evaluation\<close>

definition extractPayloadMap :: "tool_invocation \<Rightarrow> gmap option" where
  "extractPayloadMap ti = (case ti_params ti of
     None \<Rightarrow> None
   | Some params \<Rightarrow> (case as_map (gget params ''payload'') of
       Some p \<Rightarrow> Some p
     | None \<Rightarrow> (case as_map (gget params ''action'') of
         Some action \<Rightarrow> as_map (gget action ''payload'')
       | None \<Rightarrow> None)))"

definition sourceLabel :: "service \<Rightarrow> string" where
  "sourceLabel s = (if sv_is_online s then ''api'' else ''local'')"

definition firstReason :: "string list \<Rightarrow> string" where
  "firstReason reasons = (case reasons of [] \<Rightarrow> ''scenario_validated'' | r # _ \<Rightarrow> r)"

definition validateErrCode :: "texts \<Rightarrow> val_err \<Rightarrow> string \<times> string" where
  "validateErrCode tx err = (case err of
     VInvalidInput _ \<Rightarrow> (''invalid_input'', tx_validate tx err)
   | VPolicyFailure _ \<Rightarrow> (''policy_failure'', ''policy evaluation failed'')
   | VEvidenceResolve \<Rightarrow> (''evidence_write_failed'', ''evidence write failed'')
   | VEvidenceWrite _ \<Rightarrow> (''evidence_write_failed'', ''evidence write failed'')
   | VScenario _ \<Rightarrow> (''internal_error'', ''internal error''))"

definition clientErrCode :: "cl_err \<Rightarrow> string" where
  "clientErrCode err = (case err of
     CUnauthorized \<Rightarrow> ''unauthorized''
   | CForbidden \<Rightarrow> ''forbidden''
   | CRateLimited \<Rightarrow> ''rate_limited''
   | CInvalidInput \<Rightarrow> ''invalid_input''
   | _ \<Rightarrow> ''api_unreachable'')"

definition refuse :: "string \<Rightarrow> string \<Rightarrow> string \<Rightarrow> validate_output" where
  "refuse code msg ref = \<lparr>vo_ok = False, vo_event_id = [], vo_source = ''none'',
     vo_policy = \<lparr>psm_allow = False, psm_risk_level = ''high'', psm_reason = code, psm_policy_ref = ref\<rparr>,
     vo_rule_ids = [], vo_hints = [], vo_reasons = [], vo_resources = [],
     vo_error = Some \<lparr>es_code = code, es_message = msg\<rparr>\<rparr>"

definition svc_resourceLinks :: "world \<Rightarrow> service \<Rightarrow> fs \<Rightarrow> string \<Rightarrow> resource_link list" where
  "svc_resourceLinks w s f eventID = ResourceLinks (w_abs w) f eventID (sv_evidence_path s) (sv_include_file_links s)"

definition api_output :: "val_result \<Rightarrow> validate_output" where
  "api_output r = \<lparr>vo_ok = vr_pass r, vo_event_id = vr_evidence_id r, vo_source = ''api'',
     vo_policy = \<lparr>psm_allow = vr_pass r, psm_risk_level = vr_risk_level r, psm_reason = firstReason (vr_reasons r),
                  psm_policy_ref = vr_policy_ref r\<rparr>,
     vo_rule_ids = vr_rule_ids r, vo_hints = vr_hints r, vo_reasons = vr_reasons r, vo_resources = [], vo_error = None\<rparr>"

definition local_options :: "service \<Rightarrow> tool_invocation \<Rightarrow> options" where
  "local_options s ti = \<lparr>op_policy_path = sv_policy_path s, op_data_path = sv_data_path s,
     op_bundle_path = sv_bundle_path s,
     op_environment = (if ti_environment ti \<noteq> [] then ti_environment ti else sv_environment s),
     op_evidence_dir = sv_evidence_path s, op_skip_evidence = False\<rparr>"

definition evaluate_local :: "world \<Rightarrow> service \<Rightarrow> tool_invocation \<Rightarrow> fs \<Rightarrow> validate_output \<times> fs" where
  "evaluate_local w s ti f =
    (case validate_EvaluateInvocation (w_sha w) (w_prepare w) (w_sources w) (w_env w) ti (local_options s ti) f of
       (Inl err, f') \<Rightarrow> (case validateErrCode (w_texts w) err of (code, msg) \<Rightarrow> (refuse code msg (sv_policy_ref s), f'))
     | (Inr r, f') \<Rightarrow>
        (\<lparr>vo_ok = vr_pass r, vo_event_id = vr_evidence_id r,
          vo_source = (if sv_is_online s then ''local-fallback'' else ''local''),
          vo_policy = \<lparr>psm_allow = vr_pass r, psm_risk_level = vr_risk_level r,
                       psm_reason = firstReason (vr_reasons r), psm_policy_ref = sv_policy_ref s\<rparr>,
          vo_rule_ids = vr_rule_ids r, vo_hints = vr_hints r, vo_reasons = vr_reasons r,
          vo_resources = svc_resourceLinks w s f' (vr_evidence_id r), vo_error = None\<rparr>, f'))"

definition doEvaluate :: "world \<Rightarrow> service \<Rightarrow> tool_invocation \<Rightarrow> fs \<Rightarrow> validate_output \<times> fs" where
  "doEvaluate w s ti f =
    (case (if sv_is_online s then sv_api_client s else None) of
       None \<Rightarrow> evaluate_local w s ti f
     | Some c \<Rightarrow> (case Client_Validate (w_net w) c ti of
         Inr r \<Rightarrow> (api_output r, f)
       | Inl err \<Rightarrow>
           if IsReachabilityError err \<and> sv_fallback_policy s = ''offline'' then evaluate_local w s ti f
           else (refuse (clientErrCode err) (tx_client (w_texts w) err) [], f)))"

definition stop_hints :: "string list" where
  "stop_hints = [''This intent was previously denied with the same parameters.'',
     ''Change your plan or escalate to a human.'', ''Do not retry with unchanged input.'']"

definition stopped :: "service \<Rightarrow> error_summary \<Rightarrow> validate_output" where
  "stopped s gate = \<lparr>vo_ok = False, vo_event_id = [], vo_source = sourceLabel s,
     vo_policy = \<lparr>psm_allow = False, psm_risk_level = ''high'', psm_reason = es_message gate, psm_policy_ref = []\<rparr>,
     vo_rule_ids = [], vo_hints = stop_hints, vo_reasons = [], vo_resources = [], vo_error = Some gate\<rparr>"

definition intent_key :: "world \<Rightarrow> tool_invocation \<Rightarrow> string" where
  "intent_key w ti = IntentKey (w_sha w) (ExtractSemanticIntent (ti_tool ti) (ti_operation ti) (extractPayloadMap ti))"

text \<open>
  \<^verbatim>\<open>Validate\<close>: \<open>t1\<close> and \<open>t2\<close> are the clock at the check and at the update of the deny cache. A cache that
  is not enabled is \<^const>\<open>None\<close>.
\<close>

definition gated :: "tool_invocation \<Rightarrow> bool" where
  "gated ti \<longleftrightarrow> a_type (ti_actor ti) = ''agent'' \<or> a_type (ti_actor ti) = ''ci''"

definition update_cache :: "int \<Rightarrow> string \<Rightarrow> validate_output \<Rightarrow> deny_cache \<Rightarrow> deny_cache" where
  "update_cache now key out dc =
    (if key = [] then dc
     else if \<not> psm_allow (vo_policy out)
       then RecordDeny now key (psm_reason (vo_policy out)) (vo_rule_ids out) (vo_event_id out) dc
     else ClearIntent key dc)"

definition svc_Validate ::
  "world \<Rightarrow> service \<Rightarrow> int \<Rightarrow> int \<Rightarrow> tool_invocation \<Rightarrow> deny_cache option \<times> fs \<Rightarrow> validate_output \<times> deny_cache option \<times> fs" where
  "svc_Validate w s t1 t2 ti st = (case st of
     (None, f) \<Rightarrow> (case doEvaluate w s ti f of (out, f') \<Rightarrow> (out, None, f'))
   | (Some dc, f) \<Rightarrow>
      (let key = intent_key w ti;
           (gate, dc1) = (if gated ti then CheckDenyLoop t1 key dc else (None, dc)) in
       case gate of
         Some err \<Rightarrow> (stopped s err, Some dc1, f)
       | None \<Rightarrow> (case doEvaluate w s ti f of (out, f') \<Rightarrow> (out, Some (update_cache t2 key out dc1), f'))))"

section \<open>Lookups\<close>

record get_event_output =
  ge_ok :: bool
  ge_record :: "evidence_record option"
  ge_resources :: "resource_link list"
  ge_error :: "error_summary option"

definition ge_fail :: "string \<Rightarrow> string \<Rightarrow> get_event_output" where
  "ge_fail code msg = \<lparr>ge_ok = False, ge_record = None, ge_resources = [],
     ge_error = Some \<lparr>es_code = code, es_message = msg\<rparr>\<rparr>"

definition GetEvent :: "world \<Rightarrow> service \<Rightarrow> string \<Rightarrow> fs \<Rightarrow> get_event_output \<times> fs" where
  "GetEvent w s eventID f =
    (if eventID = [] then (ge_fail ''invalid_input'' ''event_id is required'', f)
     else (case FindByEventID (w_sha w) (w_env w) (sv_evidence_path s) eventID f of
         (Inl (EChainInvalid _), f') \<Rightarrow> (ge_fail ''evidence_chain_invalid'' ''evidence chain validation failed'', f')
       | (Inl _, f') \<Rightarrow> (ge_fail ''internal_error'' ''failed to read evidence'', f')
       | (Inr None, f') \<Rightarrow> (ge_fail ''not_found'' ''event_id not found'', f')
       | (Inr (Some rec), f') \<Rightarrow>
           (\<lparr>ge_ok = True, ge_record = Some rec, ge_resources = svc_resourceLinks w s f' (er_event_id rec),
             ge_error = None\<rparr>, f')))"

text \<open>The resources: the URI and text that are returned, or nothing for a resource that is not found.\<close>

definition trim_prefix :: "string \<Rightarrow> string \<Rightarrow> string" where
  "trim_prefix p s = (if prefix p s then drop (length p) s else s)"

definition record_text :: "evidence_record \<Rightarrow> string" where
  "record_text r = marshal_indent (record_json r)"

definition readResourceEvent :: "world \<Rightarrow> service \<Rightarrow> string \<Rightarrow> fs \<Rightarrow> (string \<times> string) option \<times> fs" where
  "readResourceEvent w s uri f =
    (let eventID = trim_prefix ''evidra://event/'' uri in
     if eventID = [] \<or> eventID = uri then (None, f)
     else (case FindByEventID (w_sha w) (w_env w) (sv_evidence_path s) eventID f of
         (Inr (Some rec), f') \<Rightarrow> (Some (uri, record_text rec), f')
       | (_, f') \<Rightarrow> (None, f')))"

definition readResourceManifest :: "world \<Rightarrow> service \<Rightarrow> fs \<Rightarrow> (string \<times> string) option \<times> fs" where
  "readResourceManifest w s f = (case LoadManifest (w_env w) (sv_evidence_path s) f of
     (Inl _, f') \<Rightarrow> (None, f')
   | (Inr m, f') \<Rightarrow> (Some (''evidra://evidence/manifest'', marshal_indent (manifest_json m)), f'))"

definition segments_json :: "store_manifest \<Rightarrow> json" where
  "segments_json m = to_json (GMap [(''sealed_segments'', GStrs (Some (sm_sealed_segments m))),
     (''current_segment'', GStr (sm_current_segment m)), (''count'', GInt (int (length (sm_sealed_segments m))))])"

definition readResourceSegments :: "world \<Rightarrow> service \<Rightarrow> fs \<Rightarrow> (string \<times> string) option \<times> fs" where
  "readResourceSegments w s f = (case LoadManifest (w_env w) (sv_evidence_path s) f of
     (Inl _, f') \<Rightarrow> (None, f')
   | (Inr m, f') \<Rightarrow> (Some (''evidra://evidence/segments'', marshal_indent (segments_json m)), f'))"

definition staticResourceText :: "string \<Rightarrow> string \<Rightarrow> string \<Rightarrow> (string \<times> string) option" where
  "staticResourceText requestURI expectedURI txt' = (if requestURI \<noteq> expectedURI then None else Some (expectedURI, txt'))"

definition effectivePolicyRef :: "service \<Rightarrow> string" where
  "effectivePolicyRef s = (if sv_policy_ref s \<noteq> [] then sv_policy_ref s else ''ops-v0.1.0-dev'')"

definition readResourceEngineLogicV2 :: "service \<Rightarrow> string \<Rightarrow> (string \<times> string) option" where
  "readResourceEngineLogicV2 s uri = staticResourceText uri ''evidra://docs/engine_logic_v2'' (sv_engine_logic_body s)"

definition readResourceProtocolErrors :: "service \<Rightarrow> string \<Rightarrow> (string \<times> string) option" where
  "readResourceProtocolErrors s uri = staticResourceText uri ''evidra://docs/protocol_errors'' (sv_protocol_errors_body s)"

definition readResourceAgentContractV1 :: "service \<Rightarrow> string \<Rightarrow> (string \<times> string) option" where
  "readResourceAgentContractV1 s uri =
    staticResourceText uri ''evidra://prompts/agent_contract_v1'' (sv_agent_contract_body s)"

definition summary_value :: "service \<Rightarrow> gval" where
  "summary_value s = GMap [
     (''policy_ref'', GStr (effectivePolicyRef s)),
     (''mode'', GStr (sv_mode s)),
     (''bundle_path'', GStr (sv_bundle_path s)),
     (''environment'', GStr (sv_environment s)),
     (''guidance'', GMap [
       (''initialize_instructions'', GBool True),
       (''initialize_points_to'', GStr ''evidra://prompts/agent_contract_v1''),
       (''validate_tool_description'', GMap [(''present'', GBool True), (''name'', GStr ''validate'')]),
       (''agent_contract'', GMap [(''latest_stable'', GStr ''v1''), (''uri'', GStr ''evidra://prompts/agent_contract_v1'')]),
       (''resources'', GStrs (Some [''evidra://docs/engine_logic_v2'', ''evidra://docs/protocol_errors'',
          ''evidra://policy/summary'', ''evidra://prompts/agent_contract_v1'']))])]"

definition readResourcePolicySummary :: "service \<Rightarrow> string \<Rightarrow> (string \<times> string) option" where
  "readResourcePolicySummary s uri =
    (if uri \<noteq> ''evidra://policy/summary'' then None
     else Some (''evidra://policy/summary'', marshal_indent (to_json (summary_value s))))"

section \<open>Start-up and handlers\<close>

record mcp_options =
  mo_name :: string
  mo_version :: string
  mo_content_dir :: string
  mo_mode :: string
  mo_policy_ref :: string
  mo_policy_path :: string
  mo_data_path :: string
  mo_bundle_path :: string
  mo_environment :: string
  mo_evidence_path :: string
  mo_include_file_links :: bool
  mo_api_client :: "client option"
  mo_fallback_policy :: string
  mo_is_online :: bool
  mo_deny_cache_enabled :: bool

text \<open>The guidance texts the service serves (the loader is in \<^verbatim>\<open>guidance_content.go\<close>).\<close>

record guidance_bodies =
  gb_engine_logic :: string
  gb_protocol_errors :: string
  gb_agent_contract :: string

definition ten_minutes :: int where "ten_minutes = 10 * 60 * 1000000000"

definition newValidateService :: "mcp_options \<Rightarrow> guidance_bodies \<Rightarrow> service \<times> deny_cache option" where
  "newValidateService opts bodies =
    (\<lparr>sv_policy_path = mo_policy_path opts, sv_data_path = mo_data_path opts, sv_bundle_path = mo_bundle_path opts,
      sv_environment = mo_environment opts, sv_evidence_path = mo_evidence_path opts,
      sv_policy_ref = mo_policy_ref opts, sv_mode = mo_mode opts,
      sv_include_file_links = mo_include_file_links opts, sv_api_client = mo_api_client opts,
      sv_fallback_policy = mo_fallback_policy opts, sv_is_online = mo_is_online opts,
      sv_engine_logic_body = gb_engine_logic bodies, sv_protocol_errors_body = gb_protocol_errors bodies,
      sv_agent_contract_body = gb_agent_contract bodies\<rparr>,
     if mo_deny_cache_enabled opts then Some (NewDenyCache ten_minutes) else None)"

text \<open>
  The defaults \<^verbatim>\<open>NewServer\<close> fills in before it builds the service: the mode is always \<^verbatim>\<open>enforce\<close>. The registration
  of tools and resources with the MCP library is not modelled.
\<close>

definition server_defaults :: "env \<Rightarrow> mcp_options \<Rightarrow> mcp_options" where
  "server_defaults e opts = opts\<lparr>
     mo_name := (if mo_name opts = [] then ''evidra-mcp'' else mo_name opts),
     mo_version := (if mo_version opts = [] then ''v0.1.0'' else mo_version opts),
     mo_mode := ''enforce'',
     mo_evidence_path := (if mo_evidence_path opts = []
       then ResolveEvidenceDir e []
       else mo_evidence_path opts)\<rparr>"

definition resourceLinksToContent :: "resource_link list \<Rightarrow> (string \<times> string \<times> string) list" where
  "resourceLinksToContent ls = map (\<lambda>l. (rl_uri l, rl_name l, rl_mime l)) ls"

definition validateHandler_Handle ::
  "world \<Rightarrow> service \<Rightarrow> int \<Rightarrow> int \<Rightarrow> tool_invocation \<Rightarrow> deny_cache option \<times> fs
    \<Rightarrow> ((string \<times> string \<times> string) list \<times> validate_output) \<times> deny_cache option \<times> fs" where
  "validateHandler_Handle w s t1 t2 input st =
    (case svc_Validate w s t1 t2 input st of (out, st') \<Rightarrow> ((resourceLinksToContent (vo_resources out), out), st'))"

definition getEventHandler_Handle ::
  "world \<Rightarrow> service \<Rightarrow> string \<Rightarrow> fs \<Rightarrow> ((string \<times> string \<times> string) list \<times> get_event_output) \<times> fs" where
  "getEventHandler_Handle w s eventID f =
    (case GetEvent w s eventID f of (out, f') \<Rightarrow> ((resourceLinksToContent (ge_resources out), out), f'))"

section \<open>Nothing is allowed without an evaluation\<close>

lemma evaluate_local_allow:
  assumes "evaluate_local w s ti f = (out, f')" "psm_allow (vo_policy out)"
  obtains r where "validate_EvaluateInvocation (w_sha w) (w_prepare w) (w_sources w) (w_env w) ti (local_options s ti) f = (Inr r, f')"
    "vr_pass r" "vo_event_id out = vr_evidence_id r" "vo_error out = None" "vo_ok out"
  using assms
  by (auto simp: evaluate_local_def refuse_def split: prod.splits sum.splits)

lemma doEvaluate_allow:
  assumes "doEvaluate w s ti f = (out, f')" "psm_allow (vo_policy out)"
  shows "(\<exists>c r. sv_is_online s \<and> sv_api_client s = Some c \<and> Client_Validate (w_net w) c ti = Inr r \<and> vr_pass r
      \<and> vo_source out = ''api'' \<and> f' = f)
    \<or> (\<exists>r. validate_EvaluateInvocation (w_sha w) (w_prepare w) (w_sources w) (w_env w) ti (local_options s ti) f = (Inr r, f')
      \<and> vr_pass r \<and> vo_event_id out = vr_evidence_id r)"
proof (cases "if sv_is_online s then sv_api_client s else None")
  case None
  then have "evaluate_local w s ti f = (out, f')" using assms(1) by (simp add: doEvaluate_def)
  from evaluate_local_allow [OF this assms(2)] show ?thesis by metis
next
  case (Some c)
  then have c: "sv_is_online s" "sv_api_client s = Some c" by (auto split: if_splits)
  show ?thesis
  proof (cases "Client_Validate (w_net w) c ti")
    case (Inr r)
    then show ?thesis using assms Some c by (auto simp: doEvaluate_def api_output_def)
  next
    case (Inl err)
    have "evaluate_local w s ti f = (out, f')"
      using assms Some Inl by (auto simp: doEvaluate_def refuse_def split: if_splits)
    from evaluate_local_allow [OF this assms(2)] show ?thesis by metis
  qed
qed

lemma svc_Validate_cached:
  "svc_Validate w s t1 t2 ti (Some dc, f) =
    (case (if gated ti then CheckDenyLoop t1 (intent_key w ti) dc else (None, dc)) of
       (Some err, dc1) \<Rightarrow> (stopped s err, Some dc1, f)
     | (None, dc1) \<Rightarrow> (case doEvaluate w s ti f of
         (out, f') \<Rightarrow> (out, Some (update_cache t2 (intent_key w ti) out dc1), f')))"
  by (auto simp: svc_Validate_def Let_def split: prod.splits option.splits)

end
