(* ===== verification/Guidance.thy ===== *)
theory Guidance
  imports McpServer
begin

text \<open>
  \<^verbatim>\<open>pkg/mcpserver/guidance_content.go\<close>, \<^verbatim>\<open>schema_embed.go\<close> and \<^verbatim>\<open>NewServer\<close> of \<^verbatim>\<open>server.go\<close>: the texts the MCP server shows to agents,
  where they are read from, and what the server registers. \<open>proc_info\<close> is what the process knows of itself: the
  working directory (\<^verbatim>\<open>os.Getwd\<close>) and the path of its executable (\<^verbatim>\<open>os.Executable\<close>), each of which may be
  unavailable. The files compiled into the program are one more file system. The MCP library receives the declarations
  and the handlers; it is not modelled.
\<close>

section \<open>The texts\<close>

record guidance_content =
  gc_initialize_instructions :: string
  gc_validate_description :: string
  gc_get_event_description :: string
  gc_engine_logic_body :: string
  gc_protocol_errors_body :: string
  gc_agent_contract_body :: string
  gc_engine_logic_description :: string
  gc_protocol_errors_description :: string
  gc_policy_summary_description :: string
  gc_agent_contract_description :: string

definition contentFileInitializeInstructions :: string where
  "contentFileInitializeInstructions = ''initialize/instructions.txt''"
definition contentFileValidateToolDescription :: string where
  "contentFileValidateToolDescription = ''tools/validate_description.txt''"
definition contentFileGetEventToolDescription :: string where
  "contentFileGetEventToolDescription = ''tools/get_event_description.txt''"
definition contentFileDocsEngineLogicBody :: string where
  "contentFileDocsEngineLogicBody = ''resources/content/docs_engine_logic_v2.md''"
definition contentFileDocsProtocolBody :: string where
  "contentFileDocsProtocolBody = ''resources/content/protocol_errors.md''"
definition contentFileAgentContractBody :: string where
  "contentFileAgentContractBody = ''resources/content/agent_contract_v1.md''"
definition contentFileDocsEngineLogicDescription :: string where
  "contentFileDocsEngineLogicDescription = ''resources/descriptions/docs_engine_logic_v2.txt''"
definition contentFileDocsProtocolDescription :: string where
  "contentFileDocsProtocolDescription = ''resources/descriptions/protocol_errors.txt''"
definition contentFilePolicySummaryDescription :: string where
  "contentFilePolicySummaryDescription = ''resources/descriptions/policy_summary.txt''"
definition contentFileAgentContractDescription :: string where
  "contentFileAgentContractDescription = ''resources/descriptions/agent_contract_v1.txt''"

definition content_files :: "string list" where
  "content_files = [contentFileInitializeInstructions, contentFileValidateToolDescription, contentFileGetEventToolDescription,
     contentFileDocsEngineLogicBody, contentFileDocsProtocolBody, contentFileAgentContractBody,
     contentFileDocsEngineLogicDescription, contentFileDocsProtocolDescription, contentFilePolicySummaryDescription,
     contentFileAgentContractDescription]"

definition defaultContentDirRelative :: string where
  "defaultContentDirRelative = ''prompts/mcpserver''"

datatype guidance_err =
    GAbs path
  | GIo ioerr
  | GNotDirectory path
  | GMissing string path ioerr
  | GIsDirectory path
  | GRead string ioerr
  | GFrom string guidance_err
  | GDirNotFound

definition loadGuidanceContentFromRead :: "(string \<Rightarrow> guidance_err + string) \<Rightarrow> guidance_err + guidance_content" where
  "loadGuidanceContentFromRead read =
    bind_res (read contentFileInitializeInstructions) (\<lambda>initialize.
    bind_res (read contentFileValidateToolDescription) (\<lambda>validateDesc.
    bind_res (read contentFileGetEventToolDescription) (\<lambda>getEventDesc.
    bind_res (read contentFileDocsEngineLogicBody) (\<lambda>engineBody.
    bind_res (read contentFileDocsProtocolBody) (\<lambda>protocolBody.
    bind_res (read contentFileAgentContractBody) (\<lambda>contractBody.
    bind_res (read contentFileDocsEngineLogicDescription) (\<lambda>engineDesc.
    bind_res (read contentFileDocsProtocolDescription) (\<lambda>protocolDesc.
    bind_res (read contentFilePolicySummaryDescription) (\<lambda>policyDesc.
    bind_res (read contentFileAgentContractDescription) (\<lambda>contractDesc.
      Inr \<lparr>gc_initialize_instructions = initialize, gc_validate_description = validateDesc,
        gc_get_event_description = getEventDesc, gc_engine_logic_body = engineBody,
        gc_protocol_errors_body = protocolBody, gc_agent_contract_body = contractBody,
        gc_engine_logic_description = engineDesc, gc_protocol_errors_description = protocolDesc,
        gc_policy_summary_description = policyDesc, gc_agent_contract_description = contractDesc\<rparr>))))))))))"

definition read_guidance :: "fs \<Rightarrow> path \<Rightarrow> string \<Rightarrow> guidance_err + string" where
  "read_guidance f baseDir rel = (case read_file f (path_join baseDir rel) of
     Inl e \<Rightarrow> Inl (GRead rel e)
   | Inr raw \<Rightarrow> Inr (trim_space raw))"

definition loadGuidanceContent :: "fs \<Rightarrow> path \<Rightarrow> guidance_err + guidance_content" where
  "loadGuidanceContent f baseDir = loadGuidanceContentFromRead (read_guidance f baseDir)"

definition embeddedContentDir :: path where
  "embeddedContentDir = Path False [''prompts'', ''mcpserver'']"

definition loadEmbeddedGuidanceContent :: "fs \<Rightarrow> guidance_err + guidance_content" where
  "loadEmbeddedGuidanceContent emb = loadGuidanceContentFromRead (read_guidance emb embeddedContentDir)"

section \<open>Where they are\<close>

record proc_info =
  pi_cwd :: "string option"
  pi_exe :: "string option"

text \<open>\<^verbatim>\<open>filepath.Abs\<close> of a cleaned path.\<close>

definition path_abs :: "proc_info \<Rightarrow> path \<Rightarrow> path option" where
  "path_abs pr p =
    (if rooted p then Some p else map_option (\<lambda>wd. path_join (clean_path wd) (path_str p)) (pi_cwd pr))"

fun check_content_files :: "fs \<Rightarrow> path \<Rightarrow> string list \<Rightarrow> guidance_err option" where
  "check_content_files f absDir [] = None"
| "check_content_files f absDir (rel # rels) = (case stat f (path_join absDir rel) of
     Inl e \<Rightarrow> Some (GMissing rel absDir e)
   | Inr Dir \<Rightarrow> Some (GIsDirectory (path_join absDir rel))
   | Inr (File _) \<Rightarrow> check_content_files f absDir rels)"

definition validateGuidanceContentDir :: "proc_info \<Rightarrow> fs \<Rightarrow> path \<Rightarrow> guidance_err + path" where
  "validateGuidanceContentDir pr f dir = (case path_abs pr dir of
     None \<Rightarrow> Inl (GAbs dir)
   | Some absDir \<Rightarrow> (case stat f absDir of
       Inl e \<Rightarrow> Inl (GIo e)
     | Inr (File _) \<Rightarrow> Inl (GNotDirectory absDir)
     | Inr Dir \<Rightarrow> (case check_content_files f absDir content_files of
         Some e \<Rightarrow> Inl e
       | None \<Rightarrow> Inr absDir)))"

text \<open>The loop over the parent directories ends at the root, or at \<^verbatim>\<open>.\<close> for a relative path.\<close>

function findGuidanceContentDir :: "proc_info \<Rightarrow> fs \<Rightarrow> path \<Rightarrow> path option" where
  "findGuidanceContentDir pr f dir = (case validateGuidanceContentDir pr f (path_join dir defaultContentDirRelative) of
     Inr v \<Rightarrow> Some v
   | Inl _ \<Rightarrow> if path_dir dir = dir then None else findGuidanceContentDir pr f (path_dir dir))"
  by pat_completeness auto

lemma path_dir_same: "path_dir p = p \<longleftrightarrow> comps p = []"
proof (cases p)
  case (Path r cs)
  have "butlast cs = cs \<longleftrightarrow> cs = []"
  proof
    assume "butlast cs = cs"
    then have "length cs - 1 = length cs" by (metis length_butlast)
    then show "cs = []" by (cases cs) auto
  qed simp
  with Path show ?thesis by (simp add: path_dir_def)
qed

termination findGuidanceContentDir
  by (relation "measure (\<lambda>(pr, f, dir). length (comps dir))")
     (auto simp: path_dir_same, auto simp: path_dir_def)

definition resolveGuidanceContentDir :: "env \<Rightarrow> proc_info \<Rightarrow> fs \<Rightarrow> string \<Rightarrow> guidance_err + path" where
  "resolveGuidanceContentDir e pr f explicitDir =
    (if trim_space explicitDir \<noteq> [] then
       (case validateGuidanceContentDir pr f (clean_path (trim_space explicitDir)) of
          Inl err \<Rightarrow> Inl (GFrom ''--content-dir'' err)
        | Inr v \<Rightarrow> Inr v)
     else if trim_space (e_getenv e ''EVIDRA_CONTENT_DIR'') \<noteq> [] then
       (case validateGuidanceContentDir pr f (clean_path (trim_space (e_getenv e ''EVIDRA_CONTENT_DIR''))) of
          Inl err \<Rightarrow> Inl (GFrom ''EVIDRA_CONTENT_DIR'' err)
        | Inr v \<Rightarrow> Inr v)
     else
       (case Option.bind (pi_cwd pr) (\<lambda>cwd. findGuidanceContentDir pr f (clean_path cwd)) of
          Some dir \<Rightarrow> Inr dir
        | None \<Rightarrow>
           (case Option.bind (pi_exe pr) (\<lambda>exe. findGuidanceContentDir pr f (path_dir (clean_path exe))) of
              Some dir \<Rightarrow> Inr dir
            | None \<Rightarrow> Inl GDirNotFound)))"

text \<open>\<^verbatim>\<open>errors.Is\<close> looks through the wrapped errors.\<close>

fun is_dir_not_found :: "guidance_err \<Rightarrow> bool" where
  "is_dir_not_found (GFrom _ err) = is_dir_not_found err"
| "is_dir_not_found err = (err = GDirNotFound)"

definition loadGuidanceContentAuto :: "env \<Rightarrow> proc_info \<Rightarrow> fs \<Rightarrow> fs \<Rightarrow> string \<Rightarrow> guidance_err + guidance_content" where
  "loadGuidanceContentAuto e pr emb f explicitDir = (case resolveGuidanceContentDir e pr f explicitDir of
     Inr dir \<Rightarrow> loadGuidanceContent f dir
   | Inl err \<Rightarrow> if \<not> is_dir_not_found err then Inl err else loadEmbeddedGuidanceContent emb)"

section \<open>The server\<close>

text \<open>Decoding into a Go map: an object, or \<^verbatim>\<open>null\<close> for the nil map. The result is \<open>None\<close> where the program panics.\<close>

definition mustLoadInputSchema :: "string \<Rightarrow> json option" where
  "mustLoadInputSchema raw = Option.bind (json_parse raw) (\<lambda>j. case j of
     JObj ms \<Rightarrow> Some (JObj ms)
   | JNull \<Rightarrow> Some JNull
   | _ \<Rightarrow> None)"

record tool_decl =
  td_name :: string
  td_title :: string
  td_description :: string
  td_annotation_title :: string
  td_read_only :: bool
  td_idempotent :: bool
  td_destructive :: bool
  td_open_world :: bool
  td_schema :: json

record resource_decl =
  rd_name :: string
  rd_title :: string
  rd_description :: string
  rd_mime :: string
  rd_uri :: string

text \<open>The method of the service that a resource is registered with.\<close>

datatype resource_handler = HEvent | HManifest | HSegments | HEngineLogic | HProtocolErrors | HPolicySummary | HAgentContract

fun call_resource :: "world \<Rightarrow> service \<Rightarrow> resource_handler \<Rightarrow> string \<Rightarrow> fs \<Rightarrow> (string \<times> string) option \<times> fs" where
  "call_resource w s HEvent uri f = readResourceEvent w s uri f"
| "call_resource w s HManifest uri f = readResourceManifest w s f"
| "call_resource w s HSegments uri f = readResourceSegments w s f"
| "call_resource w s HEngineLogic uri f = (readResourceEngineLogicV2 s uri, f)"
| "call_resource w s HProtocolErrors uri f = (readResourceProtocolErrors s uri, f)"
| "call_resource w s HPolicySummary uri f = (readResourcePolicySummary s uri, f)"
| "call_resource w s HAgentContract uri f = (readResourceAgentContractV1 s uri, f)"

record mcp_server =
  ms_name :: string
  ms_version :: string
  ms_instructions :: string
  ms_tools :: "tool_decl list"
  ms_templates :: "(resource_decl \<times> resource_handler) list"
  ms_resources :: "(resource_decl \<times> resource_handler) list"
  ms_service :: service
  ms_cache :: "deny_cache option"

definition bodies_of :: "guidance_content \<Rightarrow> guidance_bodies" where
  "bodies_of g = \<lparr>gb_engine_logic = gc_engine_logic_body g, gb_protocol_errors = gc_protocol_errors_body g,
     gb_agent_contract = gc_agent_contract_body g\<rparr>"

definition server_tools :: "guidance_content \<Rightarrow> json \<Rightarrow> json \<Rightarrow> tool_decl list" where
  "server_tools g validateSchema getEventSchema =
    [\<lparr>td_name = ''validate'', td_title = ''Validate Tool Invocation'', td_description = gc_validate_description g,
      td_annotation_title = ''Validate Scenario'', td_read_only = True, td_idempotent = True,
      td_destructive = False, td_open_world = False, td_schema = validateSchema\<rparr>,
     \<lparr>td_name = ''get_event'', td_title = ''Get Evidence Event'', td_description = gc_get_event_description g,
      td_annotation_title = ''Evidence Lookup'', td_read_only = True, td_idempotent = True,
      td_destructive = False, td_open_world = False, td_schema = getEventSchema\<rparr>]"

definition event_template :: "(resource_decl \<times> resource_handler) list" where
  "event_template = [(\<lparr>rd_name = ''evidra-event'', rd_title = ''Evidence Event Record'',
     rd_description = ''Read a specific evidence record by event_id.'', rd_mime = ''application/json'',
     rd_uri = ''evidra://event/{event_id}''\<rparr>, HEvent)]"

definition server_resources :: "guidance_content \<Rightarrow> (resource_decl \<times> resource_handler) list" where
  "server_resources g = [
     (\<lparr>rd_name = ''evidra-evidence-manifest'', rd_title = ''Evidence Manifest'',
       rd_description = ''Read evidence manifest for segmented store.'', rd_mime = ''application/json'',
       rd_uri = ''evidra://evidence/manifest''\<rparr>, HManifest),
     (\<lparr>rd_name = ''evidra-evidence-segments'', rd_title = ''Evidence Segments'',
       rd_description = ''Read sealed/current segment summary.'', rd_mime = ''application/json'',
       rd_uri = ''evidra://evidence/segments''\<rparr>, HSegments),
     (\<lparr>rd_name = ''evidra-docs-engine-logic-v2'', rd_title = ''Engine Logic v2'',
       rd_description = gc_engine_logic_description g, rd_mime = ''text/markdown'',
       rd_uri = ''evidra://docs/engine_logic_v2''\<rparr>, HEngineLogic),
     (\<lparr>rd_name = ''evidra-docs-protocol-errors'', rd_title = ''Protocol Errors'',
       rd_description = gc_protocol_errors_description g, rd_mime = ''text/markdown'',
       rd_uri = ''evidra://docs/protocol_errors''\<rparr>, HProtocolErrors),
     (\<lparr>rd_name = ''evidra-policy-summary'', rd_title = ''Policy Summary'',
       rd_description = gc_policy_summary_description g, rd_mime = ''application/json'',
       rd_uri = ''evidra://policy/summary''\<rparr>, HPolicySummary),
     (\<lparr>rd_name = ''evidra-agent-contract-v1'', rd_title = ''Evidra-Lock Agent Contract v1'',
       rd_description = gc_agent_contract_description g, rd_mime = ''text/markdown'',
       rd_uri = ''evidra://prompts/agent_contract_v1''\<rparr>, HAgentContract)]"

text \<open>
  \<^verbatim>\<open>NewServer\<close>; \<open>None\<close> where it panics.
\<close>

definition NewServer :: "env \<Rightarrow> proc_info \<Rightarrow> fs \<Rightarrow> string \<Rightarrow> string \<Rightarrow> fs \<Rightarrow> mcp_options \<Rightarrow> mcp_server option" where
  "NewServer e pr emb validateSchemaBytes getEventSchemaBytes f opts0 =
    (let opts = server_defaults e opts0 in
     case loadGuidanceContentAuto e pr emb f (mo_content_dir opts) of
       Inl _ \<Rightarrow> None
     | Inr g \<Rightarrow>
        (case (mustLoadInputSchema validateSchemaBytes, mustLoadInputSchema getEventSchemaBytes) of
           (Some vs, Some gs) \<Rightarrow>
             Some \<lparr>ms_name = mo_name opts, ms_version = mo_version opts, ms_instructions = gc_initialize_instructions g,
               ms_tools = server_tools g vs gs, ms_templates = event_template, ms_resources = server_resources g,
               ms_service = fst (newValidateService opts (bodies_of g)),
               ms_cache = snd (newValidateService opts (bodies_of g))\<rparr>
         | _ \<Rightarrow> None))"

section \<open>Laws\<close>

definition gc_texts :: "guidance_content \<Rightarrow> string list" where
  "gc_texts g = [gc_initialize_instructions g, gc_validate_description g, gc_get_event_description g, gc_engine_logic_body g,
     gc_protocol_errors_body g, gc_agent_contract_body g, gc_engine_logic_description g, gc_protocol_errors_description g,
     gc_policy_summary_description g, gc_agent_contract_description g]"

fun read_all :: "('a \<Rightarrow> 'e + 'b) \<Rightarrow> 'a list \<Rightarrow> 'e + 'b list" where
  "read_all read [] = Inr []"
| "read_all read (x # xs) = bind_res (read x) (\<lambda>y. bind_res (read_all read xs) (\<lambda>ys. Inr (y # ys)))"

lemma load_texts: "map_sum id gc_texts (loadGuidanceContentFromRead read) = read_all read content_files"
  unfolding loadGuidanceContentFromRead_def content_files_def gc_texts_def read_all.simps
  by (simp add: bind_res_def split: sum.split)

lemma read_all_Inr: "(\<And>x. x \<in> set xs \<Longrightarrow> read x = Inr (g x)) \<Longrightarrow> read_all read xs = Inr (map g xs)"
  by (induction xs) auto

definition stat_file :: "fs \<Rightarrow> path \<Rightarrow> bool" where
  "stat_file f p \<longleftrightarrow> (case stat f p of Inr (File _) \<Rightarrow> True | _ \<Rightarrow> False)"

text \<open>A directory that holds all ten texts, and the texts it holds.\<close>

definition complete_dir :: "fs \<Rightarrow> path \<Rightarrow> bool" where
  "complete_dir f d \<longleftrightarrow> stat f d = Inr Dir \<and> list_all (\<lambda>rel. stat_file f (path_join d rel)) content_files"

definition dir_texts :: "fs \<Rightarrow> path \<Rightarrow> string list" where
  "dir_texts f d = map (\<lambda>rel. trim_space (content (node_at f (path_join d rel)))) content_files"

lemma check_content_files_None:
  "check_content_files f d rels = None \<longleftrightarrow> list_all (\<lambda>rel. stat_file f (path_join d rel)) rels"
  by (induction rels) (auto simp: stat_file_def split: sum.splits node.splits)

lemma validate_dir_iff:
  "validateGuidanceContentDir pr f dir = Inr d \<longleftrightarrow> path_abs pr dir = Some d \<and> complete_dir f d"
  unfolding complete_dir_def check_content_files_None [symmetric]
  by (auto simp: validateGuidanceContentDir_def split: option.splits sum.splits node.splits)

lemma read_guidance_file:
  "unrefused f \<Longrightarrow> stat_file f (path_join d rel) \<Longrightarrow>
    read_guidance f d rel = Inr (trim_space (content (node_at f (path_join d rel))))"
  by (auto simp: stat_file_def stat_def read_guidance_def read_file_def unrefused_def
      split: sum.splits if_splits option.splits node.splits)

lemma stat_file_in_dir:
  assumes "unrefused f" "comps p \<noteq> []" "dir_at f (path_dir p)" "is_file (node_at f p)"
  shows "stat_file f p"
proof -
  have "p = child (path_dir p) (last (comps p))" using assms(2) by (simp add: child_iff)
  then have "stat f p = (case node_at f p of None \<Rightarrow> Inl NotExist | Some x \<Rightarrow> Inr x)"
    using stat_child [OF assms(1,3)] by metis
  with assms(4) show ?thesis by (auto simp: stat_file_def is_file_def split: option.splits node.splits)
qed

lemma load_complete_dir:
  "unrefused f \<Longrightarrow> complete_dir f d \<Longrightarrow> map_sum id gc_texts (loadGuidanceContent f d) = Inr (dir_texts f d)"
  by (simp add: loadGuidanceContent_def load_texts complete_dir_def dir_texts_def list_all_iff read_all_Inr read_guidance_file)

text \<open>A path and its parents, the deepest first.\<close>

definition upward :: "path \<Rightarrow> path list" where
  "upward p = rev (ancestors p @ [p])"

lemma upward_rec: "upward p = p # (if comps p = [] then [] else upward (path_dir p))"
proof (cases "comps p = []")
  case False
  then have "p = child (path_dir p) (last (comps p))" by (simp add: child_iff)
  then have "ancestors p = ancestors (path_dir p) @ [path_dir p]" by (metis ancestors_child)
  with False show ?thesis by (simp add: upward_def)
qed (simp add: upward_def ancestors_def)

lemma rooted_join [simp]: "rooted (path_join p s) = rooted p"
  by (simp add: path_join_def)

lemma rooted_dir [simp]: "rooted (path_dir p) = rooted p"
  by (simp add: path_dir_def)

declare findGuidanceContentDir.simps [simp del]

lemma find_dir_upward:
  "rooted p \<Longrightarrow>
    findGuidanceContentDir pr f p = find (complete_dir f) (map (\<lambda>q. path_join q defaultContentDirRelative) (upward p))"
proof (induction pr f p rule: findGuidanceContentDir.induct)
  case (1 pr f p)
  let ?c = "path_join p defaultContentDirRelative"
  have abs: "path_abs pr ?c = Some ?c" using 1(2) by (simp add: path_abs_def)
  show ?case
  proof (cases "validateGuidanceContentDir pr f ?c")
    case (Inr v)
    with validate_dir_iff [of pr f ?c v] abs have "v = ?c" "complete_dir f ?c" by auto
    with Inr show ?thesis by (simp add: findGuidanceContentDir.simps [of pr f p] upward_rec [of p])
  next
    case (Inl err)
    with validate_dir_iff [of pr f ?c ?c] abs have "\<not> complete_dir f ?c" by auto
    with 1 Inl show ?thesis
      by (simp add: findGuidanceContentDir.simps [of pr f p] upward_rec [of p] path_dir_same)
  qed
qed

text \<open>Where the texts are looked for when no directory is named: next to the working directory and above, then next to the executable.\<close>

definition search_dirs :: "proc_info \<Rightarrow> path list" where
  "search_dirs pr = map (\<lambda>q. path_join q defaultContentDirRelative)
    ((case pi_cwd pr of None \<Rightarrow> [] | Some wd \<Rightarrow> upward (clean_path wd))
     @ (case pi_exe pr of None \<Rightarrow> [] | Some x \<Rightarrow> upward (path_dir (clean_path x))))"

lemma find_append: "find P (xs @ ys) = (case find P xs of None \<Rightarrow> find P ys | Some x \<Rightarrow> Some x)"
  by (induction xs) auto

lemma rooted_clean: "prefix ''/'' s \<Longrightarrow> rooted (clean_path s)"
  by (auto simp: clean_path_def Let_def prefix_def)

lemma resolve_unnamed:
  assumes "first_set [explicitDir, e_getenv e ''EVIDRA_CONTENT_DIR''] = None"
    "pred_option (prefix ''/'') (pi_cwd pr)" "pred_option (prefix ''/'') (pi_exe pr)"
  shows "resolveGuidanceContentDir e pr f explicitDir =
    (case find (complete_dir f) (search_dirs pr) of Some d \<Rightarrow> Inr d | None \<Rightarrow> Inl GDirNotFound)"
  using assms
  by (cases "pi_cwd pr"; cases "pi_exe pr")
     (simp_all add: resolveGuidanceContentDir_def search_dirs_def find_append find_dir_upward rooted_clean
       split: if_splits option.splits)

lemma first_set_two:
  "first_set [a, b] = Some s \<Longrightarrow> trim_space a \<noteq> [] \<and> s = trim_space a \<or> trim_space a = [] \<and> trim_space b \<noteq> [] \<and> s = trim_space b"
  by (auto split: if_splits)

lemma validate_dir_not_found: "validateGuidanceContentDir pr f dir = Inl err \<Longrightarrow> \<not> is_dir_not_found err"
proof -
  have "check_content_files f d rels = Some err \<Longrightarrow> \<not> is_dir_not_found err" for d rels
    by (induction rels) (auto split: sum.splits node.splits)
  then show "validateGuidanceContentDir pr f dir = Inl err \<Longrightarrow> \<not> is_dir_not_found err"
    by (auto simp: validateGuidanceContentDir_def split: option.splits sum.splits node.splits)
qed

text \<open>C26
  Where the agent-facing texts come from. A directory named on the command line or in the environment is the only one
  considered: its ten texts are returned when it holds them all, and otherwise the load fails, without falling back.
  With no name given, the texts are those of the first complete directory in the search order (the working directory
  and its parents, then the directory of the executable and its parents), and the compiled-in ones when there is none.
\<close>

theorem guidance_lookup:
  assumes "unrefused f" "pred_option (prefix ''/'') (pi_cwd pr)" "pred_option (prefix ''/'') (pi_exe pr)"
  shows "case first_set [explicitDir, e_getenv e ''EVIDRA_CONTENT_DIR''] of
      Some s \<Rightarrow> (case path_abs pr (clean_path s) of
          Some d \<Rightarrow> if complete_dir f d
            then map_sum id gc_texts (loadGuidanceContentAuto e pr emb f explicitDir) = Inr (dir_texts f d)
            else (\<exists>err. loadGuidanceContentAuto e pr emb f explicitDir = Inl err)
        | None \<Rightarrow> (\<exists>err. loadGuidanceContentAuto e pr emb f explicitDir = Inl err))
    | None \<Rightarrow> map_sum id gc_texts (loadGuidanceContentAuto e pr emb f explicitDir) =
        (case find (complete_dir f) (search_dirs pr) of
           Some d \<Rightarrow> Inr (dir_texts f d)
         | None \<Rightarrow> read_all (read_guidance emb embeddedContentDir) content_files)"
proof (cases "first_set [explicitDir, e_getenv e ''EVIDRA_CONTENT_DIR'']")
  case None
  have "complete_dir f d" if "find (complete_dir f) (search_dirs pr) = Some d" for d
    using that by (auto simp: find_Some_iff)
  with None resolve_unnamed [OF None assms(2,3)] show ?thesis
    by (auto simp: loadGuidanceContentAuto_def load_complete_dir [OF assms(1)] loadEmbeddedGuidanceContent_def load_texts
        split: option.splits)
next
  case (Some s)
  let ?v = "validateGuidanceContentDir pr f (clean_path s)"
  obtain src where res: "resolveGuidanceContentDir e pr f explicitDir = (case ?v of Inl err \<Rightarrow> Inl (GFrom src err) | Inr v \<Rightarrow> Inr v)"
    using first_set_two [OF Some] by (auto simp: resolveGuidanceContentDir_def)
  show ?thesis
  proof (cases ?v)
    case (Inr d)
    with validate_dir_iff [of pr f "clean_path s" d] have "path_abs pr (clean_path s) = Some d" "complete_dir f d" by auto
    with Some res Inr show ?thesis by (simp add: loadGuidanceContentAuto_def load_complete_dir [OF assms(1)])
  next
    case (Inl err)
    with res validate_dir_not_found have "loadGuidanceContentAuto e pr emb f explicitDir = Inl (GFrom src err)"
      by (simp add: loadGuidanceContentAuto_def)
    moreover have "path_abs pr (clean_path s) = Some d \<Longrightarrow> \<not> complete_dir f d" for d
      using Inl validate_dir_iff [of pr f "clean_path s" d] by auto
    ultimately show ?thesis using Some by (auto split: option.splits)
  qed
qed

text \<open>A directory tree with all ten texts, each preceded by blanks.\<close>

definition sample_guidance_fs :: fs where
  "sample_guidance_fs = \<lparr>nodes = [
     (Path True [], Dir),
     (Path True [''prompts''], Dir),
     (Path True [''prompts'', ''mcpserver''], Dir),
     (Path True [''prompts'', ''mcpserver'', ''initialize''], Dir),
     (Path True [''prompts'', ''mcpserver'', ''tools''], Dir),
     (Path True [''prompts'', ''mcpserver'', ''resources''], Dir),
     (Path True [''prompts'', ''mcpserver'', ''resources'', ''content''], Dir),
     (Path True [''prompts'', ''mcpserver'', ''resources'', ''descriptions''], Dir),
     (Path True [''prompts'', ''mcpserver'', ''initialize'', ''instructions.txt''], File ''  initialize/instructions.txt''),
     (Path True [''prompts'', ''mcpserver'', ''tools'', ''validate_description.txt''], File ''  tools/validate_description.txt''),
     (Path True [''prompts'', ''mcpserver'', ''tools'', ''get_event_description.txt''], File ''  tools/get_event_description.txt''),
     (Path True [''prompts'', ''mcpserver'', ''resources'', ''content'', ''docs_engine_logic_v2.md''], File ''  resources/content/docs_engine_logic_v2.md''),
     (Path True [''prompts'', ''mcpserver'', ''resources'', ''content'', ''protocol_errors.md''], File ''  resources/content/protocol_errors.md''),
     (Path True [''prompts'', ''mcpserver'', ''resources'', ''content'', ''agent_contract_v1.md''], File ''  resources/content/agent_contract_v1.md''),
     (Path True [''prompts'', ''mcpserver'', ''resources'', ''descriptions'', ''docs_engine_logic_v2.txt''], File ''  resources/descriptions/docs_engine_logic_v2.txt''),
     (Path True [''prompts'', ''mcpserver'', ''resources'', ''descriptions'', ''protocol_errors.txt''], File ''  resources/descriptions/protocol_errors.txt''),
     (Path True [''prompts'', ''mcpserver'', ''resources'', ''descriptions'', ''policy_summary.txt''], File ''  resources/descriptions/policy_summary.txt''),
     (Path True [''prompts'', ''mcpserver'', ''resources'', ''descriptions'', ''agent_contract_v1.txt''], File ''  resources/descriptions/agent_contract_v1.txt'')],
     refused = (\<lambda>_ _. False)\<rparr>"

definition sample_proc :: proc_info where
  "sample_proc = \<lparr>pi_cwd = Some ''/srv'', pi_exe = None\<rparr>"

definition quiet_env :: env where
  "quiet_env = \<lparr>e_getenv = (\<lambda>_. []), e_flock = (\<lambda>_. FOk), e_delay = (\<lambda>_. 0), e_now = (\<lambda>_. \<lparr>t_year = 2025, t_month = 1, t_day = 1, t_hour = 0, t_min = 0, t_sec = 0, t_nano = 0\<rparr>), e_unix = True\<rparr>"

lemma sample_search: "search_dirs sample_proc = [clean_path ''/srv/prompts/mcpserver'', clean_path ''/prompts/mcpserver'']"
  by code_simp

lemma sample_clean:
  "clean_path ''/srv/prompts/mcpserver'' = Path True [''srv'', ''prompts'', ''mcpserver'']"
  "clean_path ''/prompts/mcpserver'' = Path True [''prompts'', ''mcpserver'']"
  by code_simp+

lemma sample_joins:
  "map (path_join (Path True [''prompts'', ''mcpserver''])) content_files = map fst (drop 8 (nodes sample_guidance_fs))"
  by code_simp

lemma sample_guidance_found:
  "find (complete_dir sample_guidance_fs) (search_dirs sample_proc) = Some (Path True [''prompts'', ''mcpserver''])"
proof -
  let ?b = "\<lambda>ds. Path True ([''prompts'', ''mcpserver''] @ ds)" and ?ps = "map fst (drop 8 (nodes sample_guidance_fs))"
  let ?dirs = "[?b [''initialize''], ?b [''tools''], ?b [''resources'', ''content''], ?b [''resources'', ''descriptions'']]"
  have "list_all (dir_at sample_guidance_fs) ?dirs"
    by (simp add: sample_guidance_fs_def dir_at_def ancestors_def upt_conv_Cons)
  moreover have "list_all (\<lambda>p. is_file (node_at sample_guidance_fs p)) ?ps" by (simp add: sample_guidance_fs_def)
  moreover have "list_all (\<lambda>p. comps p \<noteq> [] \<and> path_dir p \<in> set ?dirs) ?ps" by (simp add: sample_guidance_fs_def path_dir_def)
  moreover have "unrefused sample_guidance_fs" by (simp add: sample_guidance_fs_def unrefused_def)
  ultimately have "list_all (stat_file sample_guidance_fs) ?ps"
    unfolding list_all_iff by (blast intro: stat_file_in_dir)
  then have "list_all (\<lambda>rel. stat_file sample_guidance_fs (path_join (Path True [''prompts'', ''mcpserver'']) rel)) content_files"
    unfolding sample_joins [symmetric] by (simp add: list.pred_map comp_def)
  moreover have "stat sample_guidance_fs (Path True [''prompts'', ''mcpserver'']) = Inr Dir"
    "stat sample_guidance_fs (Path True [''srv'', ''prompts'', ''mcpserver'']) = Inl NotExist"
    by (simp_all add: sample_guidance_fs_def stat_def blocked_def ancestors_def upt_conv_Cons)
  ultimately show ?thesis by (simp add: sample_search sample_clean complete_dir_def)
qed

lemma sample_dir_texts: "dir_texts sample_guidance_fs (Path True [''prompts'', ''mcpserver'']) = content_files"
proof -
  have "dir_texts sample_guidance_fs (Path True [''prompts'', ''mcpserver'']) =
    map (\<lambda>p. trim_space (content (node_at sample_guidance_fs p))) (map fst (drop 8 (nodes sample_guidance_fs)))"
    unfolding sample_joins [symmetric] by (simp add: dir_texts_def)
  also have "\<dots> = map (\<lambda>rel. trim_space (''  '' @ rel)) content_files"
    by (simp add: sample_guidance_fs_def content_files_def contentFileInitializeInstructions_def contentFileValidateToolDescription_def
      contentFileGetEventToolDescription_def contentFileDocsEngineLogicBody_def contentFileDocsProtocolBody_def
      contentFileAgentContractBody_def contentFileDocsEngineLogicDescription_def contentFileDocsProtocolDescription_def
      contentFilePolicySummaryDescription_def contentFileAgentContractDescription_def)
  also have "\<dots> = content_files" by code_simp
  finally show ?thesis .
qed

theorem guidance_lookup_witness:
  "map_sum id gc_texts (loadGuidanceContentAuto quiet_env sample_proc sample_guidance_fs sample_guidance_fs []) = Inr content_files"
  using guidance_lookup [where f = sample_guidance_fs and pr = sample_proc and e = quiet_env and explicitDir = "[]" and emb = sample_guidance_fs] sample_guidance_found sample_dir_texts
  by (simp add: sample_guidance_fs_def unrefused_def sample_proc_def quiet_env_def trim_space_def)

text \<open>
  What the MCP server hands to the library once it starts: the loaded texts as instructions, tool and resource
  descriptions; resources with pairwise different addresses; each documentation resource, asked for its own address,
  answers with the body that was loaded for it; the addresses the policy summary lists are exactly those of the
  resources that are not about evidence; and the service is in the mode \<^verbatim>\<open>enforce\<close>.
\<close>

theorem server_serves_its_guidance:
  assumes "NewServer e pr emb vb gb f opts = Some srv"
  shows "\<exists>g. loadGuidanceContentAuto e pr emb f (mo_content_dir opts) = Inr g
    \<and> ms_instructions srv = gc_initialize_instructions g
    \<and> map td_description (ms_tools srv) = [gc_validate_description g, gc_get_event_description g]
    \<and> distinct (map (rd_uri \<circ> fst) (ms_resources srv))
    \<and> [(rd_description d, call_resource w (ms_service srv) h (rd_uri d) f'). (d, h) \<leftarrow> ms_resources srv, rd_mime d = ''text/markdown''] =
        [(gc_engine_logic_description g, Some (''evidra://docs/engine_logic_v2'', gc_engine_logic_body g), f'),
         (gc_protocol_errors_description g, Some (''evidra://docs/protocol_errors'', gc_protocol_errors_body g), f'),
         (gc_agent_contract_description g, Some (''evidra://prompts/agent_contract_v1'', gc_agent_contract_body g), f')]
    \<and> Option.bind (as_map (Some (summary_value (ms_service srv)))) (\<lambda>m. Option.bind (as_map (gget m ''guidance'')) (\<lambda>gm. gget gm ''resources'')) =
        Some (GStrs (Some [rd_uri d. (d, h) \<leftarrow> ms_resources srv, h \<notin> {HManifest, HSegments}]))
    \<and> sv_mode (ms_service srv) = ''enforce''"
proof -
  obtain g vs gs where g: "loadGuidanceContentAuto e pr emb f (mo_content_dir opts) = Inr g"
    and srv: "srv = \<lparr>ms_name = mo_name (server_defaults e opts), ms_version = mo_version (server_defaults e opts),
      ms_instructions = gc_initialize_instructions g, ms_tools = server_tools g vs gs, ms_templates = event_template,
      ms_resources = server_resources g, ms_service = fst (newValidateService (server_defaults e opts) (bodies_of g)),
      ms_cache = snd (newValidateService (server_defaults e opts) (bodies_of g))\<rparr>"
    using assms by (auto simp: NewServer_def Let_def server_defaults_def split: sum.splits option.splits)
  show ?thesis
    by (rule exI [of _ g])
       (simp add: g srv server_tools_def server_resources_def newValidateService_def server_defaults_def bodies_of_def
         readResourceEngineLogicV2_def readResourceProtocolErrors_def readResourceAgentContractV1_def staticResourceText_def
         summary_value_def as_map_def)
qed

definition sample_options :: mcp_options where
  "sample_options = \<lparr>mo_name = [], mo_version = [], mo_content_dir = [], mo_mode = [], mo_policy_ref = [], mo_policy_path = [],
     mo_data_path = [], mo_bundle_path = [], mo_environment = [], mo_evidence_path = ''/evidence'', mo_include_file_links = False,
     mo_api_client = None, mo_fallback_policy = ''closed'', mo_is_online = False, mo_deny_cache_enabled = True\<rparr>"

lemma sample_server:
  "\<exists>srv. NewServer quiet_env sample_proc sample_guidance_fs ''{}'' ''{}'' sample_guidance_fs sample_options = Some srv"
proof -
  have "resolveGuidanceContentDir quiet_env sample_proc sample_guidance_fs [] = Inr (Path True [''prompts'', ''mcpserver''])"
    using resolve_unnamed [of "[]" quiet_env sample_proc sample_guidance_fs] sample_guidance_found
    by (simp add: sample_proc_def quiet_env_def trim_space_def)
  moreover have "complete_dir sample_guidance_fs (Path True [''prompts'', ''mcpserver''])"
    using sample_guidance_found unfolding find_Some_iff by auto
  ultimately obtain g where "loadGuidanceContentAuto quiet_env sample_proc sample_guidance_fs sample_guidance_fs [] = Inr g"
    using load_complete_dir [of sample_guidance_fs "Path True [''prompts'', ''mcpserver'']"]
    by (cases "loadGuidanceContent sample_guidance_fs (Path True [''prompts'', ''mcpserver''])")
       (auto simp: loadGuidanceContentAuto_def sample_guidance_fs_def unrefused_def)
  moreover have "mustLoadInputSchema ''{}'' = Some (JObj [])" by code_simp
  ultimately show ?thesis by (simp add: NewServer_def Let_def sample_options_def server_defaults_def)
qed

theorem server_serves_its_guidance_witness:
  "\<exists>srv. NewServer quiet_env sample_proc sample_guidance_fs ''{}'' ''{}'' sample_guidance_fs sample_options = Some srv
    \<and> distinct (map (rd_uri \<circ> fst) (ms_resources srv)) \<and> sv_mode (ms_service srv) = ''enforce''"
proof -
  obtain srv where "NewServer quiet_env sample_proc sample_guidance_fs ''{}'' ''{}'' sample_guidance_fs sample_options = Some srv"
    using sample_server by blast
  with server_serves_its_guidance [OF this] show ?thesis by blast
qed

end
