(* ===== verification/PolicySources.thy ===== *)
theory PolicySources
  imports Validate
begin

text \<open>
  \<^verbatim>\<open>pkg/policysource/local_file.go\<close> and \<^verbatim>\<open>pkg/bundlesource/bundlesource.go\<close>: where an evaluator gets its policy modules
  and data from. \<open>walk\<close> is \<^verbatim>\<open>filepath.WalkDir\<close> with a callback that skips directories by name: the
  files it hands out in order, or the error it stops at. A module map is an association list with distinct
  keys. \<open>source_makers_of\<close> puts both sources behind the interface that evaluation uses.
\<close>

section \<open>Walking a directory\<close>

datatype walk_event = WFile path | WErr ioerr

definition below :: "path \<Rightarrow> path \<Rightarrow> bool" where
  "below r p \<longleftrightarrow> rooted p = rooted r \<and> length (comps r) < length (comps p) \<and> take (length (comps r)) (comps p) = comps r"

definition between :: "path \<Rightarrow> path \<Rightarrow> path list" where
  "between r p = filter (below r) (ancestors p)"

definition visited :: "fs \<Rightarrow> (string \<Rightarrow> bool) \<Rightarrow> path \<Rightarrow> path \<Rightarrow> bool" where
  "visited f skip r p \<longleftrightarrow>
    below r p \<and> list_all (\<lambda>q. node_at f q = Some Dir \<and> \<not> skip (path_base q)) (between r p)"

definition walk_entries :: "fs \<Rightarrow> (string \<Rightarrow> bool) \<Rightarrow> path \<Rightarrow> path list" where
  "walk_entries f skip r = sort_key comps (filter (visited f skip r) (remdups (map fst (nodes f))))"

definition walk_event_of :: "fs \<Rightarrow> (string \<Rightarrow> bool) \<Rightarrow> path \<Rightarrow> walk_event list" where
  "walk_event_of f skip p = (case node_at f p of
     Some (File _) \<Rightarrow> [WFile p]
   | _ \<Rightarrow> if \<not> skip (path_base p) \<and> refused f OpRead p then [WErr Refused] else [])"

text \<open>The name of the root is the last element of the path as it was given.\<close>

definition given_base :: "string \<Rightarrow> string" where
  "given_base s = (let cs = filter (\<lambda>c. c \<noteq> []) (split_on (CHR ''/'') s) in if cs = [] then s else last cs)"

definition stat_str :: "fs \<Rightarrow> string \<Rightarrow> ioerr + node" where
  "stat_str f s = (if s = [] then Inl NotExist else stat f (clean_path s))"

definition read_str :: "fs \<Rightarrow> string \<Rightarrow> ioerr + string" where
  "read_str f s = (if s = [] then Inl NotExist else read_file f (clean_path s))"

definition walk :: "fs \<Rightarrow> (string \<Rightarrow> bool) \<Rightarrow> string \<Rightarrow> walk_event list" where
  "walk f skip s = (case stat_str f s of
     Inl e \<Rightarrow> [WErr e]
   | Inr (File _) \<Rightarrow> [WFile (clean_path s)]
   | Inr Dir \<Rightarrow>
       if skip (given_base s) then []
       else if refused f OpRead (clean_path s) then [WErr Refused]
       else concat (map (walk_event_of f skip) (walk_entries f skip (clean_path s))))"

datatype src_err =
    SIo ioerr
  | SRel
  | SNoModules
  | SManifestJson
  | SManifest string
  | SDataJson path
  | SPanic

fun walk_loop :: "(path \<Rightarrow> 'a \<Rightarrow> src_err + 'a) \<Rightarrow> walk_event list \<Rightarrow> 'a \<Rightarrow> src_err + 'a" where
  "walk_loop fn [] acc = Inr acc"
| "walk_loop fn (WErr e # evs) acc = Inl (SIo e)"
| "walk_loop fn (WFile p # evs) acc = (case fn p acc of Inl e \<Rightarrow> Inl e | Inr acc' \<Rightarrow> walk_loop fn evs acc')"

text \<open>\<^verbatim>\<open>filepath.Rel\<close> on cleaned paths: drop the common prefix, then go up from what is left of the base.\<close>

fun drop_common :: "string list \<Rightarrow> string list \<Rightarrow> string list \<times> string list" where
  "drop_common (b # bs) (t # ts) = (if b = t then drop_common bs ts else (b # bs, t # ts))"
| "drop_common bs ts = (bs, ts)"

definition path_rel :: "path \<Rightarrow> path \<Rightarrow> path option" where
  "path_rel b t =
    (if rooted b \<noteq> rooted t then None
     else (case drop_common (comps b) (comps t) of
         (bs, ts) \<Rightarrow> if bs \<noteq> [] \<and> hd bs = ''..'' then None else Some (Path False (replicate (length bs) ''..'' @ ts))))"

definition add_module :: "fs \<Rightarrow> path \<Rightarrow> path \<Rightarrow> (string \<times> string) list \<Rightarrow> src_err + (string \<times> string) list" where
  "add_module f base0 p modules = (case path_rel base0 p of
     None \<Rightarrow> Inl SRel
   | Some rel \<Rightarrow> (case read_file f p of
         Inl e \<Rightarrow> Inl (SIo e)
       | Inr c \<Rightarrow> Inr (AList.update (path_str rel) c modules)))"

section \<open>Loose files\<close>

record local_file_source =
  lf_policy_path :: string
  lf_data_path :: string

definition NewLocalFileSource :: "string \<Rightarrow> string \<Rightarrow> local_file_source" where
  "NewLocalFileSource policyPath dataPath = \<lparr>lf_policy_path = policyPath, lf_data_path = dataPath\<rparr>"

definition local_step :: "fs \<Rightarrow> local_file_source \<Rightarrow> path \<Rightarrow> (string \<times> string) list \<Rightarrow> src_err + (string \<times> string) list" where
  "local_step f s p modules =
    (if path_ext p \<noteq> ''.rego'' then Inr modules else add_module f (clean_path (lf_policy_path s)) p modules)"

definition loadPolicyDir :: "fs \<Rightarrow> local_file_source \<Rightarrow> string \<Rightarrow> src_err + (string \<times> string) list" where
  "loadPolicyDir f s root = (case walk_loop (local_step f s) (walk f (\<lambda>_. False) root) [] of
     Inl e \<Rightarrow> Inl e
   | Inr modules \<Rightarrow> if modules = [] then Inl (SIo NotExist) else Inr modules)"

definition trim_ext :: "path \<Rightarrow> string" where
  "trim_ext p = take (length (path_base p) - length (path_ext p)) (path_base p)"

definition local_LoadPolicy :: "fs \<Rightarrow> local_file_source \<Rightarrow> src_err + (string \<times> string) list" where
  "local_LoadPolicy f s =
    (let p = clean_path (lf_policy_path s); dirRoot = path_join (path_dir p) (trim_ext p) in
     case stat_str f (lf_policy_path s) of
       Inl e \<Rightarrow> Inl (SIo e)
     | Inr Dir \<Rightarrow> loadPolicyDir f s (lf_policy_path s)
     | Inr (File _) \<Rightarrow>
        (case stat f dirRoot of
           Inr Dir \<Rightarrow>
            (case loadPolicyDir f s (path_str dirRoot) of
               Inl e \<Rightarrow> Inl e
             | Inr modules \<Rightarrow> (case read_str f (lf_policy_path s) of
                   Inl e \<Rightarrow> Inl (SIo e)
                 | Inr b \<Rightarrow> Inr (AList.update (path_base p) b modules)))
         | _ \<Rightarrow> (case read_str f (lf_policy_path s) of
               Inl e \<Rightarrow> Inl (SIo e)
             | Inr b \<Rightarrow> Inr [(path_base p, b)])))"

definition local_LoadData :: "fs \<Rightarrow> local_file_source \<Rightarrow> src_err + string" where
  "local_LoadData f s =
    (if lf_data_path s = [] then Inr []
     else (case read_str f (lf_data_path s) of Inl e \<Rightarrow> Inl (SIo e) | Inr b \<Rightarrow> Inr b))"

definition local_BundleRevision :: "local_file_source \<Rightarrow> string" where
  "local_BundleRevision s = []"

definition local_ProfileName :: "local_file_source \<Rightarrow> string" where
  "local_ProfileName s = []"

definition policy_digest_input :: "(string \<times> string) list \<Rightarrow> string" where
  "policy_digest_input modules = concat (map (\<lambda>m. fst m @ char_of (0 :: nat) # snd m) (sort_key fst modules))"

definition local_PolicyRef :: "(string \<Rightarrow> string) \<Rightarrow> fs \<Rightarrow> local_file_source \<Rightarrow> src_err + string" where
  "local_PolicyRef sha f s = (case local_LoadPolicy f s of
     Inl e \<Rightarrow> Inl e
   | Inr modules \<Rightarrow> Inr (sha (policy_digest_input modules)))"

section \<open>Bundles\<close>

record bundle_manifest =
  bm_revision :: string
  bm_roots :: "string list"
  bm_metadata :: "(string \<times> string) list option"

record bundle_source =
  bs_dir :: string
  bs_manifest :: bundle_manifest

definition d_str_map :: "(string \<times> string) list option \<Rightarrow> json \<Rightarrow> (string \<times> string) list option option" where
  "d_str_map x v = (case v of
     JObj ms \<Rightarrow>
       map_option (\<lambda>ss. Some (foldl (\<lambda>acc e. AList.update (fst e) (snd e) acc)
           (case x of None \<Rightarrow> [] | Some m \<Rightarrow> m) (zip (map fst ms) ss)))
         (str_elems (map snd ms))
   | JNull \<Rightarrow> Some None
   | _ \<Rightarrow> None)"

definition bundle_manifest_of_json :: "json \<Rightarrow> bundle_manifest option" where
  "bundle_manifest_of_json j = (case j of
     JNull \<Rightarrow> Some \<lparr>bm_revision = [], bm_roots = [], bm_metadata = None\<rparr>
   | JObj ms \<Rightarrow>
      (case (field d_str [] ''revision'' ms, field d_strs [] ''roots'' ms, field d_str_map None ''metadata'' ms) of
         (Some r, Some rs, Some md) \<Rightarrow> Some \<lparr>bm_revision = r, bm_roots = rs, bm_metadata = md\<rparr>
       | _ \<Rightarrow> None)
   | _ \<Rightarrow> None)"

definition root_char :: "char \<Rightarrow> bool" where
  "root_char c \<longleftrightarrow> (let n = byte c in 97 \<le> n \<and> n \<le> 122 \<or> 48 \<le> n \<and> n \<le> 57 \<or> n = 95)"

definition validateRootIdentifier :: "string \<Rightarrow> bool" where
  "validateRootIdentifier root \<longleftrightarrow> root \<noteq> [] \<and> list_all root_char root"

definition profile_of :: "bundle_manifest \<Rightarrow> string" where
  "profile_of m = (case bm_metadata m of
     None \<Rightarrow> []
   | Some kvs \<Rightarrow> (case map_of kvs ''profile_name'' of None \<Rightarrow> [] | Some v \<Rightarrow> v))"

definition NewBundleSource :: "fs \<Rightarrow> string \<Rightarrow> src_err + bundle_source" where
  "NewBundleSource f bundleDir = (case read_file f (path_join (clean_path bundleDir) ''.manifest'') of
     Inl e \<Rightarrow> Inl (SIo e)
   | Inr bytes \<Rightarrow> (case Option.bind (json_parse bytes) bundle_manifest_of_json of
         None \<Rightarrow> Inl SManifestJson
       | Some m \<Rightarrow>
          if bm_revision m = [] then Inl (SManifest ''revision'')
          else if bm_roots m = [] then Inl (SManifest ''roots'')
          else if \<not> list_all validateRootIdentifier (bm_roots m) then Inl (SManifest ''root'')
          else if profile_of m = [] then Inl (SManifest ''profile_name'')
          else Inr \<lparr>bs_dir = bundleDir, bs_manifest = m\<rparr>))"

definition is_tests :: "string \<Rightarrow> bool" where
  "is_tests n \<longleftrightarrow> n = ''tests''"

definition bundle_step :: "fs \<Rightarrow> bundle_source \<Rightarrow> path \<Rightarrow> (string \<times> string) list \<Rightarrow> src_err + (string \<times> string) list" where
  "bundle_step f s p modules =
    (if path_ext p \<noteq> ''.rego'' then Inr modules
     else if suffix ''_test.rego'' (path_base p) then Inr modules
     else add_module f (clean_path (bs_dir s)) p modules)"

definition bundle_LoadPolicy :: "fs \<Rightarrow> bundle_source \<Rightarrow> src_err + (string \<times> string) list" where
  "bundle_LoadPolicy f s = (case walk_loop (bundle_step f s) (walk f is_tests (bs_dir s)) [] of
     Inl e \<Rightarrow> Inl e
   | Inr modules \<Rightarrow> if modules = [] then Inl SNoModules else Inr modules)"

definition isUnderAnyRoot :: "string list \<Rightarrow> string \<Rightarrow> bool" where
  "isUnderAnyRoot roots rel \<longleftrightarrow> list_ex (\<lambda>root. rel = root \<or> prefix (root @ ''/'') rel) roots"

text \<open>
  The merged data. A file holding \<^verbatim>\<open>null\<close> puts a nil map into the tree, which looks like a map to the type
  assertions of \<^verbatim>\<open>setNested\<close> and panics when a member is assigned; \<^const>\<open>None\<close> is that panic.
\<close>

datatype dval = DLeaf gval | DNilMap | DMap "(string \<times> dval) list"

type_synonym dmap = "(string \<times> dval) list"

fun dval_of :: "gval \<Rightarrow> dval" where
  "dval_of (GMap m) = DMap (map (\<lambda>e. (fst e, dval_of (snd e))) m)"
| "dval_of v = DLeaf v"

fun dval_json :: "dval \<Rightarrow> json" where
  "dval_json (DLeaf v) = to_json v"
| "dval_json DNilMap = JNull"
| "dval_json (DMap m) = JObj (sort_key fst (map (\<lambda>e. (fst e, dval_json (snd e))) m))"

definition dmap_of :: "gmap \<Rightarrow> dmap" where
  "dmap_of m = map (\<lambda>e. (fst e, dval_of (snd e))) m"

definition assign_all :: "dmap \<Rightarrow> dmap \<Rightarrow> dmap" where
  "assign_all m kvs = foldl (\<lambda>acc e. AList.update (fst e) (snd e) acc) m kvs"

fun setNested :: "dmap \<Rightarrow> string list \<Rightarrow> dmap option \<Rightarrow> dmap option" where
  "setNested current [] new = None"
| "setNested current [key] new = (case map_of current key of
     Some (DMap existing) \<Rightarrow>
       Some (AList.update key (DMap (assign_all existing (case new of None \<Rightarrow> [] | Some kvs \<Rightarrow> kvs))) current)
   | Some DNilMap \<Rightarrow> (case new of Some (_ # _) \<Rightarrow> None | _ \<Rightarrow> Some current)
   | _ \<Rightarrow> Some (AList.update key (case new of None \<Rightarrow> DNilMap | Some kvs \<Rightarrow> DMap kvs) current))"
| "setNested current (part # p # ps) new = (case map_of current part of
     Some (DMap nxt) \<Rightarrow> map_option (\<lambda>nxt'. AList.update part (DMap nxt') current) (setNested nxt (p # ps) new)
   | Some DNilMap \<Rightarrow> None
   | _ \<Rightarrow> map_option (\<lambda>nxt'. AList.update part (DMap nxt') current) (setNested [] (p # ps) new))"

definition data_step :: "fs \<Rightarrow> bundle_source \<Rightarrow> path \<Rightarrow> dmap \<Rightarrow> src_err + dmap" where
  "data_step f s p merged =
    (if path_base p \<noteq> ''data.json'' then Inr merged
     else (case path_rel (clean_path (bs_dir s)) (path_dir p) of
         None \<Rightarrow> Inl SRel
       | Some rel \<Rightarrow>
          if comps rel \<noteq> [] \<and> \<not> isUnderAnyRoot (bm_roots (bs_manifest s)) (path_str rel) then Inr merged
          else (case read_file f p of
              Inl e \<Rightarrow> Inl (SIo e)
            | Inr bytes \<Rightarrow> (case Option.bind (json_parse bytes) (d_map None) of
                  None \<Rightarrow> Inl (SDataJson p)
                | Some fileData \<Rightarrow>
                   if comps rel = [] then
                     Inr (assign_all merged (case fileData of None \<Rightarrow> [] | Some m \<Rightarrow> dmap_of m))
                   else (case setNested merged (split_on (CHR ''/'') (path_str rel)) (map_option dmap_of fileData) of
                       None \<Rightarrow> Inl SPanic
                     | Some merged' \<Rightarrow> Inr merged')))))"

definition bundle_LoadData :: "fs \<Rightarrow> bundle_source \<Rightarrow> src_err + string" where
  "bundle_LoadData f s = (case walk_loop (data_step f s) (walk f is_tests (bs_dir s)) [] of
     Inl e \<Rightarrow> Inl e
   | Inr merged \<Rightarrow> if merged = [] then Inr [] else Inr (marshal (dval_json (DMap merged))))"

definition bundle_PolicyRef :: "bundle_source \<Rightarrow> src_err + string" where
  "bundle_PolicyRef s = Inr (bm_revision (bs_manifest s))"

definition bundle_BundleRevision :: "bundle_source \<Rightarrow> string" where
  "bundle_BundleRevision s = bm_revision (bs_manifest s)"

definition bundle_ProfileName :: "bundle_source \<Rightarrow> string" where
  "bundle_ProfileName s = profile_of (bs_manifest s)"

section \<open>The sources as seen by an evaluator\<close>

text \<open>A load error is passed on with a word that tells what failed; a panic does not give an evaluator either.\<close>

fun load_word :: "src_err \<Rightarrow> string" where
  "load_word (SIo e) = ''io''"
| "load_word SRel = ''rel''"
| "load_word SNoModules = ''bundle contains no policy modules''"
| "load_word SManifestJson = ''parse bundle manifest''"
| "load_word (SManifest what) = ''bundle manifest '' @ what"
| "load_word (SDataJson p) = ''parse '' @ path_str p"
| "load_word SPanic = ''panic''"

definition as_load :: "src_err + 'a \<Rightarrow> pol_err + 'a" where
  "as_load r = (case r of Inl e \<Rightarrow> Inl (PLoad (load_word e)) | Inr x \<Rightarrow> Inr x)"

definition local_policy_source :: "(string \<Rightarrow> string) \<Rightarrow> fs \<Rightarrow> local_file_source \<Rightarrow> policy_source" where
  "local_policy_source sha f s = \<lparr>ps_load_policy = as_load (local_LoadPolicy f s), ps_load_data = as_load (local_LoadData f s),
     ps_policy_ref = as_load (local_PolicyRef sha f s), ps_bundle_revision = local_BundleRevision s,
     ps_profile_name = local_ProfileName s\<rparr>"

definition bundle_policy_source :: "fs \<Rightarrow> bundle_source \<Rightarrow> policy_source" where
  "bundle_policy_source f s = \<lparr>ps_load_policy = as_load (bundle_LoadPolicy f s), ps_load_data = as_load (bundle_LoadData f s),
     ps_policy_ref = as_load (bundle_PolicyRef s), ps_bundle_revision = bundle_BundleRevision s,
     ps_profile_name = bundle_ProfileName s\<rparr>"

definition source_makers_of :: "(string \<Rightarrow> string) \<Rightarrow> source_makers" where
  "source_makers_of sha = \<lparr>
     mk_bundle = (\<lambda>f d. case NewBundleSource f d of
        Inl e \<Rightarrow> Inl (PLoad (load_word e))
      | Inr s \<Rightarrow> Inr (bundle_policy_source f s)),
     mk_local = (\<lambda>f p d. local_policy_source sha f (NewLocalFileSource p d))\<rparr>"

section \<open>Merging data\<close>

text \<open>The value at a path of keys.\<close>

fun dlook :: "dmap \<Rightarrow> string list \<Rightarrow> dval option" where
  "dlook m [] = Some (DMap m)"
| "dlook m [k] = map_of m k"
| "dlook m (k # k' # ks) = (case map_of m k of Some (DMap m') \<Rightarrow> dlook m' (k' # ks) | _ \<Rightarrow> None)"

lemma dlook_Cons:
  "dlook m (k # ks) = (if ks = [] then map_of m k
     else (case map_of m k of Some (DMap m') \<Rightarrow> dlook m' ks | _ \<Rightarrow> None))"
  by (cases ks) (auto split: option.splits dval.splits)

lemma dlook_empty [simp]: "dlook [] ks = (if ks = [] then Some (DMap []) else None)"
  by (cases ks) (auto simp: dlook_Cons)

lemma assign_all_map_of:
  "distinct (map fst kvs) \<Longrightarrow> map_of (assign_all m kvs) = map_of m ++ map_of kvs"
proof (induction kvs arbitrary: m)
  case (Cons e kvs)
  have "map_of kvs (fst e) = None" using Cons.prems by (simp add: map_of_eq_None_iff)
  with Cons show ?case
    by (auto simp: assign_all_def update_conv' fun_eq_iff map_add_def split: option.splits)
qed (simp add: assign_all_def)

lemma assign_all_Nil [simp]: "assign_all m [] = m"
  by (simp add: assign_all_def)

text \<open>What a file's members become when something is at their place already.\<close>

definition merge_at :: "dval option \<Rightarrow> dmap option \<Rightarrow> dval" where
  "merge_at old new = (case old of
     Some (DMap m) \<Rightarrow> DMap (assign_all m (case new of None \<Rightarrow> [] | Some kvs \<Rightarrow> kvs))
   | Some DNilMap \<Rightarrow> DNilMap
   | _ \<Rightarrow> (case new of None \<Rightarrow> DNilMap | Some kvs \<Rightarrow> DMap kvs))"

lemma setNested_Cons:
  assumes "ps \<noteq> []"
  shows "setNested m (part # ps) new = (case map_of m part of
     Some DNilMap \<Rightarrow> None
   | Some (DMap nxt) \<Rightarrow> map_option (\<lambda>nxt'. AList.update part (DMap nxt') m) (setNested nxt ps new)
   | _ \<Rightarrow> map_option (\<lambda>nxt'. AList.update part (DMap nxt') m) (setNested [] ps new))"
  using assms by (cases ps) (auto split: option.splits dval.splits)

lemma setNested_single:
  "setNested m [k] new = Some m' \<Longrightarrow>
    map_of m' k = Some (merge_at (map_of m k) new) \<and> (\<forall>j. j \<noteq> k \<longrightarrow> map_of m' j = map_of m j)"
  by (auto simp: merge_at_def update_conv' split: option.splits dval.splits list.splits)

lemma setNested_Cons_Some:
  assumes "setNested m (part # ps) new = Some m'" "ps \<noteq> []"
  obtains nxt nxt' where "setNested nxt ps new = Some nxt'" "m' = AList.update part (DMap nxt') m"
    "map_of m part = Some (DMap nxt) \<or> nxt = [] \<and> (\<forall>x. map_of m part \<noteq> Some (DMap x))"
  using assms that by (auto simp: setNested_Cons split: option.splits dval.splits)

lemma setNested_at:
  "setNested m ps new = Some m' \<Longrightarrow> dlook m' ps = Some (merge_at (dlook m ps) new)"
proof (induction ps arbitrary: m m')
  case (Cons part ps)
  show ?case
  proof (cases "ps = []")
    case True
    with Cons.prems setNested_single [of m part new m'] show ?thesis by simp
  next
    case False
    obtain nxt nxt' where n: "setNested nxt ps new = Some nxt'" "m' = AList.update part (DMap nxt') m"
      "map_of m part = Some (DMap nxt) \<or> nxt = [] \<and> (\<forall>x. map_of m part \<noteq> Some (DMap x))"
      using setNested_Cons_Some [OF Cons.prems False] by blast
    from Cons.IH [OF n(1)] n(2,3) False show ?thesis
      by (auto simp: dlook_Cons update_conv' merge_at_def split: option.splits dval.splits)
  qed
qed simp

lemma setNested_frame:
  "setNested m ps new = Some m' \<Longrightarrow> \<not> prefix ps qs \<Longrightarrow> \<not> prefix qs ps \<Longrightarrow> dlook m' qs = dlook m qs"
proof (induction ps arbitrary: m m' qs)
  case (Cons part ps)
  then obtain q qs' where q: "qs = q # qs'" by (cases qs) auto
  show ?case
  proof (cases "ps = []")
    case True
    with Cons.prems q setNested_single [of m part new m'] show ?thesis by (auto simp: dlook_Cons)
  next
    case False
    obtain nxt nxt' where n: "setNested nxt ps new = Some nxt'" "m' = AList.update part (DMap nxt') m"
      "map_of m part = Some (DMap nxt) \<or> nxt = [] \<and> (\<forall>x. map_of m part \<noteq> Some (DMap x))"
      using setNested_Cons_Some [OF Cons.prems(1) False] by blast
    show ?thesis
    proof (cases "q = part")
      case True
      then have "dlook nxt' qs' = dlook nxt qs'" "qs' \<noteq> []" using Cons.IH [OF n(1)] Cons.prems q by auto
      with True n(2,3) q show ?thesis
        by (auto simp: dlook_Cons update_conv' split: option.splits dval.splits if_splits)
    qed (use n q in \<open>simp add: dlook_Cons update_conv'\<close>)
  qed
qed simp

text \<open>A panic comes only from a nil map on the way or at the place.\<close>

lemma setNested_None:
  "ps \<noteq> [] \<Longrightarrow> setNested m ps new = None \<Longrightarrow> \<exists>n. 0 < n \<and> n \<le> length ps \<and> dlook m (take n ps) = Some DNilMap"
proof (induction ps arbitrary: m)
  case (Cons part ps)
  show ?case
  proof (cases "ps = []")
    case True
    with Cons.prems show ?thesis
      by (intro exI [of _ 1]) (auto split: option.splits dval.splits list.splits)
  next
    case False
    show ?thesis
    proof (cases "map_of m part = Some DNilMap")
      case True
      then show ?thesis by (intro exI [of _ 1]) auto
    next
      case not_nil: False
      define nxt where "nxt = (case map_of m part of Some (DMap x) \<Rightarrow> x | _ \<Rightarrow> [])"
      have "setNested nxt ps new = None"
        using Cons.prems False not_nil by (auto simp: setNested_Cons nxt_def split: option.splits dval.splits)
      with Cons.IH False obtain n where n: "0 < n" "n \<le> length ps" "dlook nxt (take n ps) = Some DNilMap" by blast
      then have "map_of m part = Some (DMap nxt)"
        using False by (auto simp: nxt_def split: option.splits dval.splits)
      with n False have "dlook m (take (Suc n) (part # ps)) = Some DNilMap" by (auto simp: dlook_Cons)
      with n show ?thesis by (intro exI [of _ "Suc n"]) auto
    qed
  qed
qed simp

section \<open>The modules of a bundle\<close>

lemma below_iff: "below r p \<longleftrightarrow> (\<exists>ts. ts \<noteq> [] \<and> p = Path (rooted r) (comps r @ ts))"
proof
  assume b: "below r p"
  define ts where "ts = drop (length (comps r)) (comps p)"
  have "ts \<noteq> []" using b by (simp add: ts_def below_def)
  moreover have "comps p = comps r @ ts" using b append_take_drop_id [of "length (comps r)" "comps p"] by (simp add: ts_def below_def)
  ultimately show "\<exists>ts. ts \<noteq> [] \<and> p = Path (rooted r) (comps r @ ts)"
    using b by (intro exI [of _ ts]) (simp add: below_def path.expand)
qed (auto simp: below_def)

lemma between_iff:
  "q \<in> set (between r (Path (rooted r) (comps r @ ts))) \<longleftrightarrow>
    (\<exists>i. 0 < i \<and> i < length ts \<and> q = Path (rooted r) (comps r @ take i ts))"
proof
  assume "q \<in> set (between r (Path (rooted r) (comps r @ ts)))"
  then obtain i where i: "i < length (comps r) + length ts" "q = Path (rooted r) (take i (comps r @ ts))" "below r q"
    by (auto simp: between_def ancestors_def)
  then have "length (comps r) < length (comps q)" by (simp add: below_def)
  with i have "length (comps r) < i" by simp
  with i show "\<exists>i. 0 < i \<and> i < length ts \<and> q = Path (rooted r) (comps r @ take i ts)"
    by (intro exI [of _ "i - length (comps r)"]) auto
next
  assume "\<exists>i. 0 < i \<and> i < length ts \<and> q = Path (rooted r) (comps r @ take i ts)"
  then obtain i where i: "0 < i" "i < length ts" "q = Path (rooted r) (comps r @ take i ts)" by blast
  then have "below r q" by (simp add: below_def)
  moreover have "q \<in> set (ancestors (Path (rooted r) (comps r @ ts)))"
    using i by (auto simp: ancestors_def intro!: image_eqI [of _ _ "length (comps r) + i"])
  ultimately show "q \<in> set (between r (Path (rooted r) (comps r @ ts)))" by (simp add: between_def)
qed

lemma base_below: "ts \<noteq> [] \<Longrightarrow> path_base (Path b (cs @ ts)) = last ts"
  by (simp add: path_base_def)

lemma visited_iff:
  "visited f skip r (Path (rooted r) (comps r @ ts)) \<longleftrightarrow>
    ts \<noteq> [] \<and> (\<forall>i. 0 < i \<and> i < length ts \<longrightarrow>
      node_at f (Path (rooted r) (comps r @ take i ts)) = Some Dir \<and> \<not> skip (last (take i ts)))"
proof -
  have "(\<forall>q. (\<exists>i. 0 < i \<and> i < length ts \<and> q = Path (rooted r) (comps r @ take i ts)) \<longrightarrow> node_at f q = Some Dir \<and> \<not> skip (path_base q)) \<longleftrightarrow>
    (\<forall>i. 0 < i \<and> i < length ts \<longrightarrow>
      node_at f (Path (rooted r) (comps r @ take i ts)) = Some Dir \<and> \<not> skip (path_base (Path (rooted r) (comps r @ take i ts))))"
    by blast
  moreover have "path_base (Path (rooted r) (comps r @ take i ts)) = last (take i ts)" if "0 < i" "i < length ts" for i
    using that by (intro base_below) auto
  ultimately show ?thesis
    by (simp add: visited_def list_all_iff Ball_def between_iff) (auto simp: below_def)
qed

lemma drop_common_append [simp]: "drop_common bs (bs @ ts) = ([], ts)"
  by (induction bs) (auto split: list.split)

lemma path_rel_below: "path_rel r (Path (rooted r) (comps r @ ts)) = Some (Path False ts)"
  by (simp add: path_rel_def)

text \<open>Names of files as the file system has them: no slash inside, not empty.\<close>

definition names_ok :: "fs \<Rightarrow> bool" where
  "names_ok f \<longleftrightarrow> list_all (\<lambda>e. list_all (\<lambda>c. c \<noteq> [] \<and> CHR ''/'' \<notin> set c) (comps (fst e))) (nodes f)"

lemma join_slash_Cons: "ts \<noteq> [] \<Longrightarrow> join_slash (t # ts) = t @ CHR ''/'' # join_slash ts"
  by (cases ts) (simp_all add: join_slash_def)

lemma split_join_slash:
  "ts \<noteq> [] \<Longrightarrow> \<forall>t \<in> set ts. CHR ''/'' \<notin> set t \<Longrightarrow> split_on (CHR ''/'') (join_slash ts) = ts"
proof (induction ts)
  case (Cons t ts)
  then show ?case
    by (cases "ts = []") (auto simp: join_slash_Cons split_on_append join_slash_def [of "[t]"] split_on_no_sep)
qed simp

lemma walk_loop_files:
  assumes "\<And>p acc. p \<in> set ps \<Longrightarrow> fn p acc = Inr (g p acc)"
  shows "walk_loop fn (map WFile ps) acc = Inr (foldl (\<lambda>acc p. g p acc) acc ps)"
  using assms by (induction ps arbitrary: acc) auto

lemma foldl_if_filter: "foldl (\<lambda>acc p. if P p then h p acc else acc) acc ps = foldl (\<lambda>acc p. h p acc) acc (filter P ps)"
  by (induction ps arbitrary: acc) auto

definition walk_files :: "fs \<Rightarrow> (string \<Rightarrow> bool) \<Rightarrow> path \<Rightarrow> path list" where
  "walk_files f skip r = filter (\<lambda>p. is_file (node_at f p)) (walk_entries f skip r)"

lemma walk_unrefused:
  assumes "unrefused f" "stat_str f s = Inr Dir" "\<not> skip (given_base s)"
  shows "walk f skip s = map WFile (walk_files f skip (clean_path s))"
proof -
  have "concat (map (walk_event_of f skip) ps) = map WFile (filter (\<lambda>p. is_file (node_at f p)) ps)" for ps
    using assms(1) by (induction ps) (auto simp: walk_event_of_def unrefused_def is_file_def split: option.splits node.splits)
  with assms show ?thesis by (simp add: walk_def walk_files_def unrefused_def)
qed

lemma walk_files_distinct: "distinct (walk_files f skip r)"
  by (simp add: walk_files_def walk_entries_def)

lemma set_walk_files: "set (walk_files f skip r) = {p. visited f skip r p \<and> is_file (node_at f p)}"
proof -
  have "p \<in> set (map fst (nodes f))" if "is_file (node_at f p)" for p
    using that map_of_eq_None_iff [of "nodes f" p] by (cases "node_at f p") auto
  then show ?thesis by (auto simp: walk_files_def walk_entries_def)
qed

lemma ancestors_append:
  "set (ancestors (Path b (cs @ ts))) = set (ancestors (Path b cs)) \<union> (\<lambda>i. Path b (cs @ take i ts)) ` {..<length ts}"
proof (induction ts rule: rev_induct)
  case (snoc t ts)
  have "ancestors (Path b (cs @ ts @ [t])) = ancestors (Path b (cs @ ts)) @ [Path b (cs @ ts)]"
    using ancestors_child [of "Path b (cs @ ts)" t] by (simp add: child_def)
  moreover have "(\<lambda>i. Path b (cs @ take i (ts @ [t]))) ` {..<length ts} = (\<lambda>i. Path b (cs @ take i ts)) ` {..<length ts}"
    by (rule image_cong) auto
  ultimately show ?case using snoc.IH by (simp add: lessThan_Suc)
qed simp

lemma read_visited:
  assumes "unrefused f" "stat f r = Inr Dir" "visited f skip r (Path (rooted r) (comps r @ ts))"
    "node_at f (Path (rooted r) (comps r @ ts)) = Some (File c)"
  shows "read_file f (Path (rooted r) (comps r @ ts)) = Inr c"
proof -
  have r: "\<not> blocked f r" "node_at f r = Some Dir"
    using assms(2) by (auto simp: stat_def split: if_splits option.splits)
  have "\<not> is_file (node_at f (Path (rooted r) (comps r @ take i ts)))" if "i < length ts" for i
    using that assms(3) r(2) by (cases "i = 0") (auto simp: visited_iff)
  with r(1) have "\<not> blocked f (Path (rooted r) (comps r @ ts))"
    by (auto simp: blocked_def ancestors_append)
  with assms(1,4) show ?thesis by (simp add: read_file_def unrefused_def)
qed

definition module_file :: "path \<Rightarrow> bool" where
  "module_file p \<longleftrightarrow> path_ext p = ''.rego'' \<and> \<not> suffix ''_test.rego'' (path_base p)"

definition module_key :: "path \<Rightarrow> path \<Rightarrow> string" where
  "module_key r p = join_slash (drop (length (comps r)) (comps p))"

lemma bundle_step_visited:
  assumes "unrefused f" "stat f (clean_path (bs_dir s)) = Inr Dir" "p \<in> set (walk_files f skip (clean_path (bs_dir s)))"
  shows "bundle_step f s p acc = Inr (if module_file p
    then AList.update (module_key (clean_path (bs_dir s)) p) (content (node_at f p)) acc else acc)"
proof -
  let ?r = "clean_path (bs_dir s)"
  have p: "visited f skip ?r p" "is_file (node_at f p)" using assms(3) by (auto simp: set_walk_files)
  then obtain ts where ts: "p = Path (rooted ?r) (comps ?r @ ts)" "ts \<noteq> []"
    by (auto simp: visited_def below_iff)
  obtain c where c: "node_at f p = Some (File c)"
    using p(2) by (auto simp: is_file_def split: option.splits node.splits)
  have "read_file f p = Inr c" using read_visited [of f ?r skip ts c] assms(1,2) p(1) c ts by simp
  with ts c show ?thesis
    by (simp add: bundle_step_def add_module_def module_file_def module_key_def path_rel_below path_str_def)
qed

lemma module_key_inj:
  assumes "names_ok f" shows "inj_on (module_key r) (set (walk_files f skip r))"
proof (rule inj_onI)
  fix p q assume pq: "p \<in> set (walk_files f skip r)" "q \<in> set (walk_files f skip r)" "module_key r p = module_key r q"
  have key: "\<exists>ts. p = Path (rooted r) (comps r @ ts) \<and> split_on (CHR ''/'') (module_key r p) = ts"
    if p: "p \<in> set (walk_files f skip r)" for p
  proof -
    have v: "visited f skip r p" "p \<in> fst ` set (nodes f)" using p by (auto simp: walk_files_def walk_entries_def)
    then obtain ts where ts: "p = Path (rooted r) (comps r @ ts)" "ts \<noteq> []" by (auto simp: visited_def below_iff)
    have "\<forall>t \<in> set ts. CHR ''/'' \<notin> set t"
      using v(2) ts(1) assms by (fastforce simp: names_ok_def list_all_iff)
    with ts show ?thesis by (auto simp: module_key_def split_join_slash)
  qed
  from key [OF pq(1)] key [OF pq(2)] pq(3) show "p = q" by auto
qed

definition bundle_modules :: "fs \<Rightarrow> path \<Rightarrow> (string \<times> string) list" where
  "bundle_modules f r = map (\<lambda>p. (module_key r p, content (node_at f p))) (filter module_file (walk_files f is_tests r))"

lemma bundle_modules_distinct: "names_ok f \<Longrightarrow> distinct (map fst (bundle_modules f r))"
  using module_key_inj [of f r is_tests] walk_files_distinct [of f is_tests r]
  by (auto simp: bundle_modules_def distinct_map comp_def intro: inj_on_subset)

lemma bundle_LoadPolicy_eq:
  assumes "unrefused f" "names_ok f" "stat_str f (bs_dir s) = Inr Dir" "given_base (bs_dir s) \<noteq> ''tests''"
  shows "bundle_LoadPolicy f s = (let ms = bundle_modules f (clean_path (bs_dir s)) in if ms = [] then Inl SNoModules else Inr ms)"
proof -
  let ?r = "clean_path (bs_dir s)" and ?upd = "\<lambda>acc e. AList.update (fst e) (snd e) acc"
  have st: "stat f ?r = Inr Dir" using assms(3) by (simp add: stat_str_def split: if_splits)
  have "walk_loop (bundle_step f s) (walk f is_tests (bs_dir s)) [] =
      Inr (foldl (\<lambda>acc p. if module_file p then AList.update (module_key ?r p) (content (node_at f p)) acc else acc) []
        (walk_files f is_tests ?r))"
    using assms(1,3,4) st by (simp add: walk_unrefused is_tests_def walk_loop_files bundle_step_visited)
  also have "\<dots> = Inr (foldl ?upd [] (bundle_modules f ?r))"
    by (simp add: foldl_if_filter bundle_modules_def foldl_map)
  also have "foldl ?upd [] (bundle_modules f ?r) = bundle_modules f ?r"
    using foldl_update_distinct [of "[]" "bundle_modules f ?r"] bundle_modules_distinct [OF assms(2)] by simp
  finally show ?thesis by (simp add: bundle_LoadPolicy_def Let_def)
qed

text \<open>A module file of the bundle: the components of its path below the bundle directory, and its text.\<close>

definition bundle_file :: "fs \<Rightarrow> path \<Rightarrow> string list \<Rightarrow> string \<Rightarrow> bool" where
  "bundle_file f r ts c \<longleftrightarrow>
    ts \<noteq> [] \<and> node_at f (Path (rooted r) (comps r @ ts)) = Some (File c) \<and>
    (\<forall>i. 0 < i \<and> i < length ts \<longrightarrow> node_at f (Path (rooted r) (comps r @ take i ts)) = Some Dir) \<and>
    ''tests'' \<notin> set (butlast ts) \<and> path_ext (Path False ts) = ''.rego'' \<and> \<not> suffix ''_test.rego'' (last ts)"

lemma all_last_take: "(\<forall>i. 0 < i \<and> i < length ts \<longrightarrow> P (last (take i ts))) \<longleftrightarrow> (\<forall>t \<in> set (butlast ts). P t)"
proof -
  have "last (take (Suc j) ts) = butlast ts ! j" if "Suc j < length ts" for j
    using that by (simp add: take_Suc_conv_app_nth nth_butlast)
  then have "(\<forall>j. Suc j < length ts \<longrightarrow> P (last (take (Suc j) ts))) \<longleftrightarrow> (\<forall>j. Suc j < length ts \<longrightarrow> P (butlast ts ! j))"
    by simp
  moreover have "(\<forall>i. 0 < i \<and> i < length ts \<longrightarrow> P (last (take i ts))) \<longleftrightarrow> (\<forall>j. Suc j < length ts \<longrightarrow> P (last (take (Suc j) ts)))"
    by (metis Suc_pred zero_less_Suc)
  ultimately show ?thesis by (auto simp: all_set_conv_all_nth less_diff_conv)
qed

lemma bundle_file_iff:
  "bundle_file f r ts c \<longleftrightarrow> visited f is_tests r (Path (rooted r) (comps r @ ts)) \<and>
    node_at f (Path (rooted r) (comps r @ ts)) = Some (File c) \<and> module_file (Path (rooted r) (comps r @ ts))"
proof (cases "ts = []")
  case False
  have "visited f is_tests r (Path (rooted r) (comps r @ ts)) \<longleftrightarrow>
    (\<forall>i. 0 < i \<and> i < length ts \<longrightarrow> node_at f (Path (rooted r) (comps r @ take i ts)) = Some Dir) \<and> ''tests'' \<notin> set (butlast ts)"
    using False all_last_take [of ts "\<lambda>t. t \<noteq> ''tests''"] by (auto simp: visited_iff is_tests_def)
  with False show ?thesis
    by (simp add: bundle_file_def module_file_def base_below path_ext_def path_base_def) blast
qed (simp add: bundle_file_def visited_def below_def)

lemma bundle_modules_iff:
  "(k, c) \<in> set (bundle_modules f r) \<longleftrightarrow> (\<exists>ts. bundle_file f r ts c \<and> k = join_slash ts)"
proof
  assume "(k, c) \<in> set (bundle_modules f r)"
  then obtain p where p: "visited f is_tests r p" "is_file (node_at f p)" "module_file p" "k = module_key r p" "c = content (node_at f p)"
    by (auto simp: bundle_modules_def set_walk_files)
  then obtain ts where ts: "p = Path (rooted r) (comps r @ ts)" by (auto simp: visited_def below_iff)
  have "node_at f p = Some (File c)" using p(2,5) by (auto simp: is_file_def split: option.splits node.splits)
  with p ts show "\<exists>ts. bundle_file f r ts c \<and> k = join_slash ts"
    by (intro exI [of _ ts]) (auto simp: bundle_file_iff module_key_def)
next
  assume "\<exists>ts. bundle_file f r ts c \<and> k = join_slash ts"
  then obtain ts where ts: "bundle_file f r ts c" "k = join_slash ts" by blast
  then have "Path (rooted r) (comps r @ ts) \<in> set (filter module_file (walk_files f is_tests r))"
    by (auto simp: bundle_file_iff set_walk_files)
  then have "(module_key r (Path (rooted r) (comps r @ ts)), content (node_at f (Path (rooted r) (comps r @ ts)))) \<in> set (bundle_modules f r)"
    unfolding bundle_modules_def set_map by (rule imageI)
  with ts show "(k, c) \<in> set (bundle_modules f r)" by (simp add: module_key_def bundle_file_iff)
qed

section \<open>What every source promises\<close>

text \<open>
  The interface behind which an evaluator sees a source: when its modules load there is at least one, and no name
  twice. The evaluator is then compiled from a non-empty selection of them, each name once, in ascending order.
\<close>

locale module_source =
  fixes load_policy :: "src_err + (string \<times> string) list"
  assumes modules_nonempty: "load_policy = Inr ms \<Longrightarrow> ms \<noteq> []"
    and modules_distinct: "load_policy = Inr ms \<Longrightarrow> distinct (map fst ms)"
begin

lemma evaluator_compiled:
  assumes src: "ps_load_policy src = as_load load_policy" and ev: "NewEvaluator prepare src = Inr ev"
  shows "\<exists>ms mods dt q. load_policy = Inr ms \<and> prepare mods dt = Inr q \<and> ev_engine ev = q \<and>
    mods \<noteq> [] \<and> set mods \<subseteq> set ms \<and> sorted (map fst mods) \<and> distinct (map fst mods)"
proof -
  obtain ms dt q where ms: "load_policy = Inr ms" and q: "NewOPAEngine prepare ms dt = Inr q" "ev_engine ev = q"
    using ev src by (auto simp: NewEvaluator_def bind_res_def as_load_def split: sum.splits)
  let ?filtered = "filter (\<lambda>m. \<not> is_test_module (fst m)) ms"
  define mods where "mods = sort_key fst (if ?filtered \<noteq> [] \<and> length ?filtered < length ms then ?filtered else ms)"
  have "\<exists>dt'. prepare mods dt' = Inr q"
    using q(1) by (auto simp: NewOPAEngine_def mods_def Let_def split: if_splits option.splits sum.splits)
  moreover have "(sort_key fst xs = []) = (xs = [])" for xs :: "(string \<times> string) list"
    by (metis length_0_conv length_sort)
  moreover from this have "mods \<noteq> []" "set mods \<subseteq> set ms" "sorted (map fst mods)" "distinct (map fst mods)"
    using modules_nonempty [OF ms] modules_distinct [OF ms] by (auto simp: mods_def distinct_map_filter)
  ultimately show ?thesis using ms q(2) by blast
qed

end

lemma walk_loop_inv:
  assumes "\<And>p acc acc'. I acc \<Longrightarrow> fn p acc = Inr acc' \<Longrightarrow> I acc'"
  shows "I acc \<Longrightarrow> walk_loop fn evs acc = Inr r \<Longrightarrow> I r"
proof (induction evs arbitrary: acc)
  case (Cons ev evs)
  then show ?case using assms by (cases ev) (auto split: sum.splits)
qed simp

lemma add_module_distinct:
  "distinct (map fst acc) \<Longrightarrow> add_module f b p acc = Inr acc' \<Longrightarrow> distinct (map fst acc')"
  by (auto simp: add_module_def distinct_update split: option.splits sum.splits)

lemma bundle_modules_valid:
  assumes "bundle_LoadPolicy f s = Inr ms" shows "ms \<noteq> [] \<and> distinct (map fst ms)"
proof -
  have "walk_loop (bundle_step f s) (walk f is_tests (bs_dir s)) [] = Inr ms" "ms \<noteq> []"
    using assms by (auto simp: bundle_LoadPolicy_def split: sum.splits if_splits)
  moreover have "distinct (map fst acc')" if "distinct (map fst acc)" "bundle_step f s p acc = Inr acc'" for p acc acc'
    using that by (auto simp: bundle_step_def dest: add_module_distinct split: if_splits)
  ultimately show ?thesis
    using walk_loop_inv [of "\<lambda>ms. distinct (map fst ms)" "bundle_step f s" "[]"] by (metis distinct.simps(1) list.map(1))
qed

lemma loadPolicyDir_valid:
  assumes "loadPolicyDir f s root = Inr ms" shows "ms \<noteq> [] \<and> distinct (map fst ms)"
proof -
  have "walk_loop (local_step f s) (walk f (\<lambda>_. False) root) [] = Inr ms" "ms \<noteq> []"
    using assms by (auto simp: loadPolicyDir_def split: sum.splits if_splits)
  moreover have "distinct (map fst acc')" if "distinct (map fst acc)" "local_step f s p acc = Inr acc'" for p acc acc'
    using that by (auto simp: local_step_def dest: add_module_distinct split: if_splits)
  ultimately show ?thesis
    using walk_loop_inv [of "\<lambda>ms. distinct (map fst ms)" "local_step f s" "[]"] by (metis distinct.simps(1) list.map(1))
qed

lemma local_modules_valid: "local_LoadPolicy f s = Inr ms \<Longrightarrow> ms \<noteq> [] \<and> distinct (map fst ms)"
  by (auto simp: local_LoadPolicy_def Let_def distinct_update dest: loadPolicyDir_valid
      split: sum.splits node.splits)

interpretation bundled: module_source "bundle_LoadPolicy f s" for f s
  using bundle_modules_valid by unfold_locales blast+

interpretation loose: module_source "local_LoadPolicy f s" for f s
  using local_modules_valid by unfold_locales blast+

section \<open>Properties\<close>

text \<open>C33
  On a file system that refuses nothing, the policy of a bundle is exactly its \<^verbatim>\<open>.rego\<close> files, at any depth,
  without test files and without what lies below a directory \<^verbatim>\<open>tests\<close>, each under its path relative to the bundle;
  a bundle without any is an error.
\<close>

theorem bundle_policy_exact:
  assumes "unrefused f" "names_ok f" "stat_str f (bs_dir s) = Inr Dir" "given_base (bs_dir s) \<noteq> ''tests''"
  shows "case bundle_LoadPolicy f s of
      Inl e \<Rightarrow> e = SNoModules \<and> (\<nexists>ts c. bundle_file f (clean_path (bs_dir s)) ts c)
    | Inr ms \<Rightarrow> ms \<noteq> [] \<and> distinct (map fst ms) \<and>
        (\<forall>k c. (k, c) \<in> set ms \<longleftrightarrow> (\<exists>ts. bundle_file f (clean_path (bs_dir s)) ts c \<and> k = join_slash ts))"
proof -
  let ?ms = "bundle_modules f (clean_path (bs_dir s))"
  have "\<nexists>ts c. bundle_file f (clean_path (bs_dir s)) ts c" if "?ms = []"
    using bundle_modules_iff [of _ _ f "clean_path (bs_dir s)"] that by fastforce
  then show ?thesis
    using bundle_modules_distinct [OF assms(2)] by (simp add: bundle_LoadPolicy_eq [OF assms] Let_def bundle_modules_iff)
qed

definition sample_bundle :: bundle_source where
  "sample_bundle = \<lparr>bs_dir = ''/b'', bs_manifest = \<lparr>bm_revision = ''r1'', bm_roots = [''ops''], bm_metadata = Some [(''profile_name'', ''p'')]\<rparr>\<rparr>"

definition sample_bundle_fs :: fs where
  "sample_bundle_fs = \<lparr>nodes = [(Path True [], Dir), (Path True [''b''], Dir), (Path True [''b'', ''ops''], Dir),
      (Path True [''b'', ''tests''], Dir), (Path True [''b'', ''ops'', ''a.rego''], File ''A''),
      (Path True [''b'', ''ops'', ''a_test.rego''], File ''T''), (Path True [''b'', ''tests'', ''x.rego''], File ''X'')],
    refused = (\<lambda>_ _. False)\<rparr>"

theorem bundle_policy_exact_witness:
  "bundle_LoadPolicy sample_bundle_fs sample_bundle = Inr [(''ops/a.rego'', ''A'')] \<and>
    (\<forall>k c. k = ''ops/a.rego'' \<and> c = ''A'' \<longleftrightarrow> (\<exists>ts. bundle_file sample_bundle_fs (clean_path ''/b'') ts c \<and> k = join_slash ts))"
proof -
  have l: "bundle_LoadPolicy sample_bundle_fs sample_bundle = Inr [(''ops/a.rego'', ''A'')]" by code_simp
  have "unrefused sample_bundle_fs" by (simp add: unrefused_def sample_bundle_fs_def)
  moreover have "names_ok sample_bundle_fs" by code_simp
  moreover have "stat_str sample_bundle_fs (bs_dir sample_bundle) = Inr Dir" by code_simp
  moreover have "given_base (bs_dir sample_bundle) \<noteq> ''tests''" by code_simp
  ultimately show ?thesis
    using bundle_policy_exact [of sample_bundle_fs sample_bundle] l by (simp add: sample_bundle_def)
qed

text \<open>C40
  Placing the members of a data file at a path merges them with the map that is there, or replaces what else
  is there, and leaves every unrelated path of the merged data unchanged. The only failure is the panic on a nil
  map, which an earlier file holding \<^verbatim>\<open>null\<close> has left on the way or at the place.
\<close>

theorem setNested_places_data:
  assumes "parts \<noteq> []"
  shows "case setNested root parts new of
      Some root' \<Rightarrow> dlook root' parts = Some (merge_at (dlook root parts) new) \<and>
        (\<forall>qs. \<not> prefix parts qs \<and> \<not> prefix qs parts \<longrightarrow> dlook root' qs = dlook root qs)
    | None \<Rightarrow> \<exists>n. 0 < n \<and> n \<le> length parts \<and> dlook root (take n parts) = Some DNilMap"
  using setNested_at [of root parts new] setNested_frame [of root parts new] setNested_None [OF assms, of root new]
  by (auto split: option.split)

theorem setNested_places_data_witness:
  "dlook [(''ops'', DMap [(''x'', DMap []), (''p'', DMap [(''k'', DLeaf (GStr ''v''))])])] [''ops'', ''p''] =
    Some (merge_at None (Some [(''k'', DLeaf (GStr ''v''))]))"
  using setNested_places_data [of "[''ops'', ''p'']" "[(''ops'', DMap [(''x'', DMap [])])]" "Some [(''k'', DLeaf (GStr ''v''))]"]
  by simp

text \<open>
  An evaluator made from a bundle or from loose files has been compiled from modules that source loaded, at least
  one, every name once and in ascending order, so the order in which files are found has no influence.
\<close>
theorem evaluator_compiled_from_source:
  assumes "NewEvaluator prepare src = Inr ev"
    and "src = bundle_policy_source f b \<and> loaded = bundle_LoadPolicy f b \<or> src = local_policy_source sha f s \<and> loaded = local_LoadPolicy f s"
  shows "\<exists>ms mods dt. loaded = Inr ms \<and> prepare mods dt = Inr (ev_engine ev) \<and>
    mods \<noteq> [] \<and> set mods \<subseteq> set ms \<and> sorted (map fst mods) \<and> distinct (map fst mods)"
  using assms bundled.evaluator_compiled [of src f b prepare ev] loose.evaluator_compiled [of src f s prepare ev]
  by (auto simp: bundle_policy_source_def local_policy_source_def)

theorem evaluator_compiled_from_source_witness:
  "\<exists>mods. mods \<noteq> [] \<and> set mods \<subseteq> {(''ops/a.rego'', ''A'')}"
proof -
  let ?prepare = "\<lambda>_ _. Inr (\<lambda>_. Inl []) :: string + opa_query"
  have l: "bundle_LoadPolicy sample_bundle_fs sample_bundle = Inr [(''ops/a.rego'', ''A'')]" by code_simp
  have d: "bundle_LoadData sample_bundle_fs sample_bundle = Inr []" by code_simp
  have "NewEvaluator ?prepare (bundle_policy_source sample_bundle_fs sample_bundle) =
    Inr \<lparr>ev_engine = (\<lambda>_. Inl []), ev_policy_ref = ''r1'', ev_bundle_revision = ''r1'', ev_profile_name = ''p''\<rparr>"
    using l d by (simp add: NewEvaluator_def bundle_policy_source_def as_load_def bind_res_def NewOPAEngine_def is_test_module_def contains_str_def
      bundle_PolicyRef_def bundle_BundleRevision_def bundle_ProfileName_def sample_bundle_def profile_of_def)
  from evaluator_compiled_from_source [OF this disjI1 [OF conjI [OF refl refl]]] l show ?thesis by auto
qed

definition loose_fs :: "(string \<times> string) list \<Rightarrow> fs" where
  "loose_fs files = \<lparr>nodes = [(Path True [], Dir), (Path True [''p''], Dir)] @ map (\<lambda>e. (Path True [''p'', fst e], File (snd e))) files,
     refused = (\<lambda>_ _. False)\<rparr>"

text \<open>
  The policy reference of a loose-file source is a hash over names and texts without their lengths, so two
  different policies, the second with the text of a whole module appended to another one, have the same
  reference whatever the hash function is.
\<close>

theorem policy_ref_collides:
  "\<exists>f g s. local_LoadPolicy f s = Inr [(''a.rego'', ''x''), (''b.rego'', ''y'')] \<and>
    local_LoadPolicy g s = Inr [(''a.rego'', ''xb.rego'' @ char_of (0 :: nat) # ''y'')] \<and>
    (\<forall>sha. local_PolicyRef sha f s = local_PolicyRef sha g s)"
proof -
  let ?s = "NewLocalFileSource ''/p'' []"
  let ?f = "loose_fs [(''a.rego'', ''x''), (''b.rego'', ''y'')]" and ?g = "loose_fs [(''a.rego'', ''xb.rego'' @ char_of (0 :: nat) # ''y'')]"
  have f: "local_LoadPolicy ?f ?s = Inr [(''a.rego'', ''x''), (''b.rego'', ''y'')]" by code_simp
  have g: "local_LoadPolicy ?g ?s = Inr [(''a.rego'', ''xb.rego'' @ char_of (0 :: nat) # ''y'')]" by code_simp
  have "policy_digest_input [(''a.rego'', ''x''), (''b.rego'', ''y'')] =
      policy_digest_input [(''a.rego'', ''xb.rego'' @ char_of (0 :: nat) # ''y'')]" by code_simp
  with f g show ?thesis by (intro exI [of _ ?f] exI [of _ ?g] exI [of _ ?s]) (simp add: local_PolicyRef_def)
qed

end
