(* ===== verification/EmbeddedBundle.thy ===== *)
theory EmbeddedBundle
  imports PolicySources McpServer
begin

text \<open>
  The policy bundle that is compiled into the servers and how it gets on disk: \<^verbatim>\<open>embeddedBundleHash\<close>,
  \<^verbatim>\<open>extractEmbeddedBundle\<close> and \<^verbatim>\<open>extractEmbeddedBundleCached\<close> of \<^verbatim>\<open>cmd/evidra-mcp/main.go\<close>, and \<^verbatim>\<open>extractEmbeddedBundle\<close> of
  \<^verbatim>\<open>cmd/evidra-api/main.go\<close>. The compiled-in files are one more file system; \<open>walk_dir\<close> is \<^verbatim>\<open>fs.WalkDir\<close>, which hands out
  directories as well as files, each directory before what is in it. \<open>remove_all\<close> is \<^verbatim>\<open>os.RemoveAll\<close>: the whole tree goes, or
  the system refuses and nothing does.
\<close>

section \<open>Walking and removing trees\<close>

datatype dir_event = DEntry path bool | DErr ioerr

definition entry_events :: "fs \<Rightarrow> path \<Rightarrow> dir_event list" where
  "entry_events f p = (case node_at f p of
     Some Dir \<Rightarrow> DEntry p True # (if refused f OpRead p then [DErr Refused] else [])
   | _ \<Rightarrow> [DEntry p False])"

definition walk_dir :: "fs \<Rightarrow> path \<Rightarrow> dir_event list" where
  "walk_dir f root = (case stat f root of
     Inl e \<Rightarrow> [DErr e]
   | Inr (File _) \<Rightarrow> [DEntry root False]
   | Inr Dir \<Rightarrow> concat (map (entry_events f) (root # walk_entries f (\<lambda>_. False) root)))"

definition remove_all :: "fs \<Rightarrow> path \<Rightarrow> fs" where
  "remove_all f p =
    (if refused f OpRemove p then f else f\<lparr>nodes := filter (\<lambda>e. fst e \<noteq> p \<and> \<not> below p (fst e)) (nodes f)\<rparr>)"

section \<open>Extraction\<close>

definition bundleRoot :: path where
  "bundleRoot = Path False [''policy'', ''bundles'', ''ops-v0.1'']"

definition extract_entry :: "fs \<Rightarrow> path \<Rightarrow> path \<Rightarrow> bool \<Rightarrow> fs \<Rightarrow> ioerr option \<times> fs" where
  "extract_entry emb targetDir p isDir f =
    (if p = bundleRoot then (None, f)
     else (let dst = path_join targetDir (trim_prefix (path_str bundleRoot @ ''/'') (path_str p)) in
       if isDir then mkdir_all f dst
       else (case mkdir_all f (path_dir dst) of
           (Some e, f1) \<Rightarrow> (Some e, f1)
         | (None, f1) \<Rightarrow> (case read_file emb p of
             Inl e \<Rightarrow> (Some e, f1)
           | Inr bytes \<Rightarrow> write_file f1 dst bytes))))"

fun extract_events :: "fs \<Rightarrow> path \<Rightarrow> dir_event list \<Rightarrow> fs \<Rightarrow> ioerr option \<times> fs" where
  "extract_events emb targetDir [] f = (None, f)"
| "extract_events emb targetDir (DErr e # evs) f = (Some e, f)"
| "extract_events emb targetDir (DEntry p isDir # evs) f = (case extract_entry emb targetDir p isDir f of
     (Some e, f1) \<Rightarrow> (Some e, f1)
   | (None, f1) \<Rightarrow> extract_events emb targetDir evs f1)"

definition extract_into :: "fs \<Rightarrow> path \<Rightarrow> fs \<Rightarrow> (ioerr + path) \<times> fs" where
  "extract_into emb targetDir f = (case extract_events emb targetDir (walk_dir emb bundleRoot) f of
     (Some e, f1) \<Rightarrow> (Inl e, remove_all f1 targetDir)
   | (None, f1) \<Rightarrow> (Inr targetDir, f1))"

definition mcp_extractEmbeddedBundle :: "fs \<Rightarrow> path \<Rightarrow> fs \<Rightarrow> (ioerr + path) \<times> fs" where
  "mcp_extractEmbeddedBundle emb targetDir f = (case mkdir_all f targetDir of
     (Some e, f1) \<Rightarrow> (Inl e, f1)
   | (None, f1) \<Rightarrow> extract_into emb targetDir f1)"

text \<open>
  \<^verbatim>\<open>os.TempDir\<close> and \<^verbatim>\<open>os.MkdirTemp\<close>: the random parts of the names it tries are an argument, and a name that is taken
  is skipped.
\<close>

definition temp_root :: "env \<Rightarrow> string" where
  "temp_root e = (if e_getenv e ''TMPDIR'' = [] then ''/tmp'' else e_getenv e ''TMPDIR'')"

fun mkdir_temp :: "path \<Rightarrow> string \<Rightarrow> string list \<Rightarrow> fs \<Rightarrow> (ioerr + path) \<times> fs" where
  "mkdir_temp d pre [] f = (Inl Refused, f)"
| "mkdir_temp d pre (r # rs) f =
    (let p = path_join d (pre @ r) in
     if node_at f p \<noteq> None then mkdir_temp d pre rs f
     else if refused f OpMkdir p then (Inl Refused, f)
     else if node_at f d \<noteq> Some Dir then (Inl NotExist, f)
     else (Inr p, put_node p Dir f))"

definition api_extractEmbeddedBundle :: "env \<Rightarrow> string list \<Rightarrow> fs \<Rightarrow> fs \<Rightarrow> (ioerr + path) \<times> fs" where
  "api_extractEmbeddedBundle e rands emb f = (case mkdir_temp (clean_path (temp_root e)) ''evidra-bundle-'' rands f of
     (Inl err, f1) \<Rightarrow> (Inl err, f1)
   | (Inr dir, f1) \<Rightarrow> extract_into emb dir f1)"

section \<open>The cache\<close>

definition bundleCachePath :: "env \<Rightarrow> path" where
  "bundleCachePath e =
    (let home = (if e_getenv e ''HOME'' = [] then temp_root e else e_getenv e ''HOME'') in
     path_join (clean_path home) ''.evidra/bundles/ops-v0.1'')"

definition bundleSHAFile :: string where
  "bundleSHAFile = ''BUNDLE.SHA256''"

fun walked_files :: "dir_event list \<Rightarrow> ioerr + string list" where
  "walked_files [] = Inr []"
| "walked_files (DErr e # evs) = Inl e"
| "walked_files (DEntry p isDir # evs) =
    bind_res (walked_files evs) (\<lambda>ps. Inr (if isDir then ps else path_str p # ps))"

fun digest_files :: "fs \<Rightarrow> string list \<Rightarrow> ioerr + string" where
  "digest_files emb [] = Inr []"
| "digest_files emb (p # ps) =
    bind_res (read_file emb (clean_path p)) (\<lambda>bytes.
    bind_res (digest_files emb ps) (\<lambda>rest. Inr (p @ [CHR 0x0A] @ bytes @ rest)))"

definition embedded_digest_input :: "fs \<Rightarrow> ioerr + string" where
  "embedded_digest_input emb =
    bind_res (walked_files (walk_dir emb bundleRoot)) (\<lambda>paths. digest_files emb (sort paths))"

definition embeddedBundleHash :: "(string \<Rightarrow> string) \<Rightarrow> fs \<Rightarrow> ioerr + string" where
  "embeddedBundleHash sha emb = bind_res (embedded_digest_input emb) (\<lambda>s. Inr (sha s))"

definition cache_hit :: "fs \<Rightarrow> path \<Rightarrow> string \<Rightarrow> bool" where
  "cache_hit f dir want \<longleftrightarrow> (case read_file f (path_join dir bundleSHAFile) of Inr got \<Rightarrow> trim_space got = want | Inl _ \<Rightarrow> False)"

definition extractEmbeddedBundleCached :: "(string \<Rightarrow> string) \<Rightarrow> env \<Rightarrow> fs \<Rightarrow> fs \<Rightarrow> (ioerr + path) \<times> fs" where
  "extractEmbeddedBundleCached sha e emb f =
    (let dir = bundleCachePath e in
     case embeddedBundleHash sha emb of
       Inl err \<Rightarrow> (Inl err, f)
     | Inr want \<Rightarrow>
        if cache_hit f dir want then (Inr dir, f)
        else (case mcp_extractEmbeddedBundle emb dir (remove_all f dir) of
            (Inl err, f1) \<Rightarrow> (Inl err, f1)
          | (Inr _, f1) \<Rightarrow> (case write_file f1 (path_join dir bundleSHAFile) (want @ [CHR 0x0A]) of
              (Some err, f2) \<Rightarrow> (Inl err, f2)
            | (None, f2) \<Rightarrow> (Inr dir, f2))))"

end
