(* ===== verification/EvidenceForwarder.thy ===== *)
theory EvidenceForwarder
  imports EvidenceLog
begin

text \<open>
  \<^verbatim>\<open>pkg/evidence/forwarder.go\<close>: the state file of a forwarder (its cursor into the store) and the record
  a cursor points at.
\<close>

record forwarder_cursor =
  fc_segment :: string
  fc_line :: int

record forwarder_destination =
  fd_type :: string
  fd_id :: string

record forwarder_state =
  fw_format :: string
  fw_updated_at :: string
  fw_cursor :: forwarder_cursor
  fw_last_ack_hash :: string
  fw_destination :: forwarder_destination
  fw_notes :: string

definition forwarderStateFileName :: string where "forwarderStateFileName = ''forwarder_state.json''"

definition cursor_json :: "forwarder_cursor \<Rightarrow> json" where
  "cursor_json c = JObj [(''segment'', JStr (fc_segment c)), (''line'', JNum (fc_line c))]"

definition destination_json :: "forwarder_destination \<Rightarrow> json" where
  "destination_json d = JObj [(''type'', JStr (fd_type d)), (''id'', JStr (fd_id d))]"

definition forwarder_json :: "forwarder_state \<Rightarrow> json" where
  "forwarder_json s = JObj
    [(''format'', JStr (fw_format s)), (''updated_at'', JStr (fw_updated_at s)),
     (''cursor'', cursor_json (fw_cursor s)), (''last_ack_hash'', JStr (fw_last_ack_hash s)),
     (''destination'', destination_json (fw_destination s)), (''notes'', JStr (fw_notes s))]"

definition zero_cursor :: forwarder_cursor where "zero_cursor = \<lparr>fc_segment = [], fc_line = 0\<rparr>"
definition zero_destination :: forwarder_destination where "zero_destination = \<lparr>fd_type = [], fd_id = []\<rparr>"

definition zero_forwarder :: forwarder_state where
  "zero_forwarder = \<lparr>fw_format = [], fw_updated_at = [], fw_cursor = zero_cursor, fw_last_ack_hash = [],
     fw_destination = zero_destination, fw_notes = []\<rparr>"

definition d_cursor :: "forwarder_cursor \<Rightarrow> json \<Rightarrow> forwarder_cursor option" where
  "d_cursor x v = (case v of
     JNull \<Rightarrow> Some x
   | JObj ms \<Rightarrow> do {
       s \<leftarrow> field d_str (fc_segment x) ''segment'' ms;
       l \<leftarrow> field d_int (fc_line x) ''line'' ms;
       Some \<lparr>fc_segment = s, fc_line = l\<rparr> }
   | _ \<Rightarrow> None)"

definition d_destination :: "forwarder_destination \<Rightarrow> json \<Rightarrow> forwarder_destination option" where
  "d_destination x v = (case v of
     JNull \<Rightarrow> Some x
   | JObj ms \<Rightarrow> do {
       t \<leftarrow> field d_str (fd_type x) ''type'' ms;
       i \<leftarrow> field d_str (fd_id x) ''id'' ms;
       Some \<lparr>fd_type = t, fd_id = i\<rparr> }
   | _ \<Rightarrow> None)"

definition d_forwarder :: "json \<Rightarrow> forwarder_state option" where
  "d_forwarder v = (case v of
     JNull \<Rightarrow> Some zero_forwarder
   | JObj ms \<Rightarrow> do {
       fo \<leftarrow> field d_str [] ''format'' ms;
       ua \<leftarrow> field d_str [] ''updated_at'' ms;
       cu \<leftarrow> field d_cursor zero_cursor ''cursor'' ms;
       lh \<leftarrow> field d_str [] ''last_ack_hash'' ms;
       de \<leftarrow> field d_destination zero_destination ''destination'' ms;
       no \<leftarrow> field d_str [] ''notes'' ms;
       Some \<lparr>fw_format = fo, fw_updated_at = ua, fw_cursor = cu, fw_last_ack_hash = lh,
             fw_destination = de, fw_notes = no\<rparr> }
   | _ \<Rightarrow> None)"

section \<open>Operations\<close>

definition ForwarderStatePath :: "path \<Rightarrow> path" where
  "ForwarderStatePath root = path_join root forwarderStateFileName"

definition LoadForwarderState :: "env \<Rightarrow> string \<Rightarrow> forwarder_state option io" where
  "LoadForwarderState e path = withStoreLock e path (with_mode path (\<lambda>m resolved. case m of
     Legacy \<Rightarrow> io_fail (EMsg ''cursor not supported for legacy evidence'')
   | Segmented \<Rightarrow> lift_res (\<lambda>f. case read_file f (ForwarderStatePath resolved) of
         Inl NotExist \<Rightarrow> Inr None
       | Inl err \<Rightarrow> Inl (EIO [] err)
       | Inr raw \<Rightarrow> (case Option.bind (json_parse raw) d_forwarder of
             None \<Rightarrow> Inl EParseForwarder
           | Some st \<Rightarrow> Inr (Some st)))))"

definition fill_forwarder :: "forwarder_state \<Rightarrow> forwarder_state" where
  "fill_forwarder s0 =
    (let s1 = (if fw_format s0 = [] then s0\<lparr>fw_format := ''evidra-forwarder-state-v0.1''\<rparr> else s0)
     in if fd_type (fw_destination s1) = []
        then s1\<lparr>fw_destination := (fw_destination s1)\<lparr>fd_type := ''none''\<rparr>\<rparr> else s1)"

definition forwarder_text :: "forwarder_state \<Rightarrow> string" where
  "forwarder_text s = marshal_indent (forwarder_json s) @ [CHR 0x0A]"

definition SaveForwarderState :: "env \<Rightarrow> string \<Rightarrow> forwarder_state \<Rightarrow> unit io" where
  "SaveForwarderState e path s0 = withStoreLock e path (with_mode path (\<lambda>m resolved. case m of
     Legacy \<Rightarrow> io_fail (EMsg ''cursor not supported for legacy evidence'')
   | Segmented \<Rightarrow>
      (let s = fill_forwarder s0; tmp = path_join resolved (forwarderStateFileName @ ''.tmp'') in
       io_bind (io_do ''create evidence root'' (\<lambda>f. mkdir_all f resolved)) (\<lambda>_.
       io_bind (io_do ''write forwarder state tmp'' (\<lambda>f. write_file f tmp (forwarder_text s))) (\<lambda>_.
       io_do ''rename forwarder state tmp'' (\<lambda>f. rename_file f tmp (ForwarderStatePath resolved)))))))"

text \<open>The callback that stops at the record with the wanted position.\<close>

definition cursor_step ::
  "int \<Rightarrow> evidence_record \<Rightarrow> int \<times> evidence_record option \<Rightarrow> ev_err option \<times> (int \<times> evidence_record option)" where
  "cursor_step line rec st =
    (if fst st = line then (Some EStop, (fst st, Some rec)) else (None, (fst st + 1, snd st)))"

definition resolveCursorRecordUnlocked :: "string \<Rightarrow> string \<Rightarrow> int \<Rightarrow> evidence_record io" where
  "resolveCursorRecordUnlocked path segment line =
    (if line < 0 then io_fail ECursorLineOutOfRange
     else with_mode path (\<lambda>m resolved. case m of
       Legacy \<Rightarrow> io_fail (EMsg ''cursor not supported for legacy evidence'')
     | Segmented \<Rightarrow> lift_res (\<lambda>f.
         case stat f (segment_path resolved segment) of
           Inl NotExist \<Rightarrow> Inl ECursorSegmentNotFound
         | Inl err \<Rightarrow> Inl (EIO [] err)
         | Inr _ \<Rightarrow>
             (case streamFileRecords f (segment_path resolved segment) (cursor_step line) (0, None) of
                (Some EStop, (_, Some rec)) \<Rightarrow> Inr rec
              | (Some EStop, (_, None)) \<Rightarrow> Inl EStop
              | (Some err, _) \<Rightarrow> Inl err
              | (None, _) \<Rightarrow> Inl ECursorLineOutOfRange))))"

definition ResolveCursorRecord :: "env \<Rightarrow> string \<Rightarrow> string \<Rightarrow> int \<Rightarrow> evidence_record io" where
  "ResolveCursorRecord e path segment line = withStoreLock e path (resolveCursorRecordUnlocked path segment line)"

section \<open>Laws\<close>

definition forwarder_ok :: "forwarder_state \<Rightarrow> bool" where
  "forwarder_ok s \<longleftrightarrow> utf8_valid (fw_format s) \<and> utf8_valid (fw_updated_at s) \<and> utf8_valid (fc_segment (fw_cursor s))
    \<and> int64 (fc_line (fw_cursor s)) \<and> utf8_valid (fw_last_ack_hash s) \<and> utf8_valid (fd_type (fw_destination s))
    \<and> utf8_valid (fd_id (fw_destination s)) \<and> utf8_valid (fw_notes s)"

lemma d_cursor_json: "int64 (fc_line c) \<Longrightarrow> d_cursor zero_cursor (cursor_json c) = Some c"
  by (simp add: d_cursor_def cursor_json_def field_def member_simps)

lemma d_destination_json: "d_destination zero_destination (destination_json d) = Some d"
  by (simp add: d_destination_def destination_json_def field_def member_simps)

lemma forwarder_roundtrip:
  assumes "forwarder_ok s"
  shows "Option.bind (json_parse (forwarder_text s)) d_forwarder = Some s"
proof -
  have "json_ok (forwarder_json s)"
    using assms by (simp add: forwarder_json_def cursor_json_def destination_json_def forwarder_ok_def rune_len_ascii)
  then have "json_parse (forwarder_text s) = Some (forwarder_json s)"
    unfolding forwarder_text_def by (rule json_parse_marshal_indent) (simp add: ws_str_def is_ws_def)
  moreover have "d_forwarder (forwarder_json s) = Some s"
    unfolding d_forwarder_def forwarder_json_def
    using assms by (simp add: field_def member_simps d_cursor_json d_destination_json forwarder_ok_def)
  ultimately show ?thesis by simp
qed

lemma forwarder_ok_fill: "forwarder_ok s \<Longrightarrow> forwarder_ok (fill_forwarder s)"
  by (simp add: forwarder_ok_def fill_forwarder_def Let_def rune_len_ascii)

lemma each_cursor_step:
  "each (cursor_step line) rs (c, None) =
    (if c \<le> line \<and> line < c + int (length rs)
     then (Some EStop, (line, Some (rs ! nat (line - c)))) else (None, (c + int (length rs), None)))"
proof (induction rs arbitrary: c)
  case Nil
  then show ?case by simp
next
  case (Cons r rs)
  show ?case
  proof (cases "c = line")
    case True
    then show ?thesis by (simp add: cursor_step_def)
  next
    case False
    then have "nat (line - c) = Suc (nat (line - (c + 1)))" if "c < line" using that by simp
    then show ?thesis using False Cons [of "c + 1"] by (auto simp: cursor_step_def)
  qed
qed

text \<open>The forwarder's files beside a store: neither of them is a directory.\<close>

definition forwarder_files :: "path \<Rightarrow> fs \<Rightarrow> bool" where
  "forwarder_files root f \<longleftrightarrow> node_at f (child root forwarderStateFileName) \<noteq> Some Dir
    \<and> node_at f (child root (forwarderStateFileName @ ''.tmp'')) \<noteq> Some Dir"

lemma forwarder_names [simp]:
  "plain_name forwarderStateFileName" "plain_name (forwarderStateFileName @ ''.tmp'')"
  "lockFileName \<noteq> forwarderStateFileName" "lockFileName \<noteq> forwarderStateFileName @ ''.tmp''"
  "forwarderStateFileName \<noteq> lockFileName" "forwarderStateFileName @ ''.tmp'' \<noteq> lockFileName"
  "forwarderStateFileName \<noteq> manifestFileName" "forwarderStateFileName @ ''.tmp'' \<noteq> manifestFileName"
  "manifestFileName \<noteq> forwarderStateFileName" "manifestFileName \<noteq> forwarderStateFileName @ ''.tmp''"
  "forwarderStateFileName \<noteq> segmentsDirName" "forwarderStateFileName @ ''.tmp'' \<noteq> segmentsDirName"
  by (simp_all add: forwarderStateFileName_def plain_name_def lockFileName_def manifestFileName_def segmentsDirName_def)

text \<open>The records of a store are in its manifest and its segments: other files may change.\<close>

lemma seg_inv_same_files:
  assumes "seg_inv sha root m n rs f" "unrefused f'" "dir_at f' (segs root)"
    "node_at f' (child root manifestFileName) = node_at f (child root manifestFileName)"
    "\<And>s. node_at f' (child (segs root) s) = node_at f (child (segs root) s)"
    "node_at f' (child root (manifestFileName @ ''.tmp'')) \<noteq> Some Dir" "node_at f' (child root lockFileName) \<noteq> Some Dir"
  shows "seg_inv sha root m n rs f'"
  using assms
  by (simp add: seg_inv_def store_files_def seg_files_def readable_def store_records_def file_records_def)

lemma save_then_load:
  assumes "seg_store sha e path k rs f" "forwarder_files (clean_path path) f" "forwarder_ok s"
  obtains f1 f2 where "SaveForwarderState e path s f = (Inr (), f1)"
    "LoadForwarderState e path f1 = (Inr (Some (fill_forwarder s)), f2)" "seg_store sha e path k rs f1"
proof -
  let ?root = "clean_path path"
  let ?t = "child ?root (forwarderStateFileName @ ''.tmp'')" and ?m = "child ?root forwarderStateFileName"
  let ?n = "File (forwarder_text (fill_forwarder s))"
  let ?f0 = "locked ?root f"
  let ?f1 = "moved ?t ?m ?n (put_node ?t ?n ?f0)"
  note l = seg_store_locked [OF assms(1)]
  have g: "lock_granted e" using assms(1) by (simp add: seg_store_def)
  obtain m n where inv: "seg_inv sha ?root m n rs ?f0" and mn: "n + k \<le> 999999" "sm_policy_ref m = policy_end [] rs"
    using l(1) by (auto simp: seg_store_def)
  note d = seg_invD [OF inv]
  have nd: "node_at ?f0 ?t \<noteq> Some Dir" "node_at ?f0 ?m \<noteq> Some Dir"
    using assms(2) by (simp_all add: forwarder_files_def node_at_locked)
  have 1: "write_file ?f0 ?t (forwarder_text (fill_forwarder s)) = (None, put_node ?t ?n ?f0)"
    using nd by (intro write_file_child d)
  have 2: "rename_file (put_node ?t ?n ?f0) ?t ?m = (None, ?f1)" using nd d(8) by (intro rename_file_moved) auto
  have save: "SaveForwarderState e path s f = (Inr (), ?f1)"
    using 1 2 d(9)
    by (simp add: SaveForwarderState_def l(2) with_mode_ok [OF l(3)] ForwarderStatePath_def Let_def io_bind_def io_do_def)
  have root: "dir_at ?f1 ?root" using d(9) nd by (intro dir_at_moved dir_at_put_file) auto
  have mode: "detectStoreMode ?f1 path = Inr (Segmented, ?root)"
    using stat_dir [OF _ root] d(8) by (simp add: detectStoreMode_def detect_mode_def)
  let ?f2 = "locked ?root ?f1"
  have lock: "withStoreLock e path fn ?f1 = fn ?f2" for fn :: "forwarder_state option io"
    using root d(8) inv mode
    by (intro withStoreLock_ok g) (auto simp: lockRootForPath_def seg_inv_def store_files_def)
  have r2: "dir_at ?f2 ?root" "unrefused ?f2"
    using wrote_dir_at [OF wrote_locked root] wrote_unrefused [OF wrote_locked] d(8) inv
    by (auto simp: seg_inv_def store_files_def)
  have "read_file ?f2 ?m = Inr (forwarder_text (fill_forwarder s))"
    using r2 by (intro read_file_child) (simp_all add: node_at_locked)
  moreover have "detectStoreMode ?f2 path = Inr (Segmented, ?root)"
    using stat_dir [OF r2(2,1)] by (simp add: detectStoreMode_def detect_mode_def)
  ultimately have "LoadForwarderState e path ?f1 = (Inr (Some (fill_forwarder s)), ?f2)"
    using forwarder_roundtrip [OF forwarder_ok_fill [OF assms(3)]]
    by (simp add: LoadForwarderState_def lock with_mode_ok lift_res_def ForwarderStatePath_def)
  moreover have "dir_at ?f1 (segs ?root)" using d(10) nd by (intro dir_at_moved dir_at_put_file) auto
  then have "seg_inv sha ?root m n rs ?f1"
    using d(8) inv by (intro seg_inv_same_files [OF inv]) (auto simp: seg_inv_def store_files_def)
  then have "seg_store sha e path k rs ?f1" using assms(1) mn unfolding seg_store_def by blast
  ultimately show ?thesis using save that by blast
qed

lemma resolve_cursor:
  assumes "seg_store sha e path k rs f"
  obtains n where "\<And>i. 1 \<le> i \<Longrightarrow> i \<le> n \<Longrightarrow>
      ResolveCursorRecord e path (segmentName i) line f =
        (let frs = file_records f (child (segs (clean_path path)) (segmentName i)) in
         (if line < 0 \<or> int (length frs) \<le> line then Inl ECursorLineOutOfRange else Inr (frs ! nat line),
          locked (clean_path path) f))"
    "rs = concat (map (\<lambda>i. file_records f (child (segs (clean_path path)) (segmentName i))) [1..<Suc n])"
proof -
  let ?root = "clean_path path"
  note l = seg_store_locked [OF assms]
  obtain m n where inv0: "seg_inv sha ?root m n rs f" using assms by (auto simp: seg_store_def)
  note inv = seg_inv_locked [OF inv0]
  note d = seg_invD [OF inv]
  have res: "ResolveCursorRecord e path (segmentName i) line f =
        (let frs = file_records f (child (segs ?root) (segmentName i)) in
         (if line < 0 \<or> int (length frs) \<le> line then Inl ECursorLineOutOfRange else Inr (frs ! nat line),
          locked ?root f))" if i: "1 \<le> i" "i \<le> n" for i
  proof -
    let ?p = "child (segs ?root) (segmentName i)"
    have r: "readable (locked ?root f) ?p" using d(4) i by (simp add: store_files_def)
    then obtain t where "node_at (locked ?root f) ?p = Some (File t)"
      by (auto simp: readable_def is_file_def split: option.splits node.splits)
    then have "stat (locked ?root f) ?p = Inr (File t)"
      using stat_child [OF d(8,10)] by simp
    moreover have "file_records (locked ?root f) ?p = file_records f ?p"
      by (simp add: file_records_def node_at_locked)
    ultimately show ?thesis
      using streamFileRecords_readable [OF d(8,10) r, of "cursor_step line" "(0, None)"]
      by (auto simp: ResolveCursorRecord_def l(2) resolveCursorRecordUnlocked_def lift_res_def
          each_cursor_step Let_def with_mode_ok [OF l(3)])
  qed
  have "rs = concat (map (\<lambda>i. file_records f (child (segs ?root) (segmentName i))) [1..<Suc n])"
    using seg_invD(6) [OF inv0] by (simp add: store_records_def seg_names_def o_def del: upt_Suc)
  with res that show ?thesis by blast
qed

end
