(* ===== verification/GoClock.thy ===== *)
theory GoClock
  imports GoTime
begin

text \<open>
  Arithmetic on instants (\<^verbatim>\<open>time.Time.Add\<close>) through the number of nanoseconds since the first day of the year 1 of
  the Gregorian calendar, and \<^verbatim>\<open>time.ParseDuration\<close>. The calendar has no years below 0: subtracting a duration, which
  is at most 292 years, from a present-day instant does not get there.
\<close>

section \<open>Instants as numbers\<close>

definition days_before_year :: "nat \<Rightarrow> int" where
  "days_before_year y = (let p = int y - 1 in 365 * p + p div 4 - p div 100 + p div 400)"

definition days_before_month :: "nat \<Rightarrow> nat \<Rightarrow> nat" where
  "days_before_month y m = sum_list (map (\<lambda>i. days_in i y) [1..<m])"

lemma days_before_month_Suc: "1 \<le> m \<Longrightarrow> days_before_month y (Suc m) = days_before_month y m + days_in m y"
  by (simp add: days_before_month_def)

definition time_days :: "gtime \<Rightarrow> int" where
  "time_days t = days_before_year (t_year t) + int (days_before_month (t_year t) (t_month t)) + int (t_day t) - 1"

definition time_nanos :: "gtime \<Rightarrow> int" where
  "time_nanos t =
    (((time_days t * 24 + int (t_hour t)) * 60 + int (t_min t)) * 60 + int (t_sec t)) * 1000000000 + int (t_nano t)"

lemma div_pred:
  fixes a k :: int
  assumes "0 < k" shows "a div k = (a - 1) div k + (if a mod k = 0 then 1 else 0)"
proof -
  have a: "a = k * (a div k) + a mod k" by simp
  have r: "0 \<le> a mod k" "a mod k < k" using assms by simp_all
  show ?thesis
  proof (cases "a mod k = 0")
    case True
    then have "(a - 1) div k = a div k - 1"
      using a assms by (intro int_div_pos_eq [of _ _ _ "k - 1"]) (auto simp: algebra_simps)
    with True show ?thesis by simp
  next
    case False
    then have "(a - 1) div k = a div k"
      using a r by (intro int_div_pos_eq [of _ _ _ "a mod k - 1"]) auto
    with False show ?thesis by simp
  qed
qed

lemma year_length: "days_before_year (Suc y) = days_before_year y + (if leap y then 366 else 365)"
proof -
  have m: "int y mod 4 = 0 \<longleftrightarrow> y mod 4 = 0" "int y mod 100 = 0 \<longleftrightarrow> y mod 100 = 0" "int y mod 400 = 0 \<longleftrightarrow> y mod 400 = 0"
    by (metis of_nat_0_eq_iff of_nat_numeral zmod_int)+
  have dvd: "y mod 400 = 0 \<Longrightarrow> y mod 100 = 0" "y mod 100 = 0 \<Longrightarrow> y mod 4 = 0"
    using dvd_trans [of 100 400 y] dvd_trans [of 4 100 y] by (simp_all add: mod_eq_0_iff_dvd)
  have "days_before_year (Suc y) = 365 * int y + int y div 4 - int y div 100 + int y div 400"
    by (simp add: days_before_year_def Let_def)
  also have "\<dots> = 365 * int y + ((int y - 1) div 4 + (if y mod 4 = 0 then 1 else 0))
      - ((int y - 1) div 100 + (if y mod 100 = 0 then 1 else 0)) + ((int y - 1) div 400 + (if y mod 400 = 0 then 1 else 0))"
    by (simp only: div_pred [of 4 "int y"] div_pred [of 100 "int y"] div_pred [of 400 "int y"] m zero_less_numeral)
  also have "\<dots> = days_before_year y + (if leap y then 366 else 365)"
    unfolding days_before_year_def leap_def Let_def using dvd by (cases "y mod 4 = 0"; cases "y mod 100 = 0"; cases "y mod 400 = 0") simp_all
  finally show ?thesis .
qed

function year_from :: "nat \<Rightarrow> int \<Rightarrow> nat" where
  "year_from y n = (if days_before_year (Suc y) \<le> n then year_from (Suc y) n else y)"
  by pat_completeness auto
termination
  by (relation "measure (\<lambda>(y, n). nat (n - days_before_year y))") (auto simp: year_length split: if_splits)

declare year_from.simps [simp del]

function month_from :: "nat \<Rightarrow> nat \<Rightarrow> nat \<Rightarrow> nat \<times> nat" where
  "month_from y m n = (if m < 12 \<and> days_in m y \<le> n then month_from y (Suc m) (n - days_in m y) else (m, n))"
  by pat_completeness auto
termination
  by (relation "measure (\<lambda>(y, m, n). 12 - m)") auto

declare month_from.simps [simp del]

definition time_of_nanos :: "int \<Rightarrow> gtime" where
  "time_of_nanos i =
    (let s = i div 1000000000; d = s div 86400; r = nat (s mod 86400);
         y = year_from (nat (d div 366)) d; (m, k) = month_from y 1 (nat (d - days_before_year y)) in
     \<lparr>t_year = y, t_month = m, t_day = Suc k, t_hour = r div 3600, t_min = r div 60 mod 60, t_sec = r mod 60,
      t_nano = nat (i mod 1000000000)\<rparr>)"

definition time_add :: "gtime \<Rightarrow> int \<Rightarrow> gtime" where
  "time_add t d = time_of_nanos (time_nanos t + d)"

lemma days_before_year_mono: "y \<le> z \<Longrightarrow> days_before_year y + 365 * int (z - y) \<le> days_before_year z"
  by (induction z rule: dec_induct) (auto simp: year_length of_nat_diff Suc_diff_le split: if_splits)

lemma days_before_year_le: "days_before_year (Suc y) \<le> 366 * int y"
  by (induction y) (simp_all add: year_length days_before_year_def [of "Suc 0"] days_before_year_def [of 0])

lemma year_from_eq:
  assumes "y0 \<le> y" "days_before_year y \<le> n" "n < days_before_year (Suc y)"
  shows "year_from y0 n = y"
  using assms
proof (induction "y - y0" arbitrary: y0)
  case 0
  then show ?case by (subst year_from.simps) simp
next
  case (Suc d)
  have "Suc y0 \<le> y" using Suc(2) by simp
  then have "days_before_year (Suc y0) \<le> days_before_year y"
    using days_before_year_mono [of "Suc y0" y] Suc(2) by (simp add: of_nat_diff)
  with Suc show ?case by (subst year_from.simps) (simp add: Suc_leI)
qed

lemma month_from_eq:
  assumes "k < days_in m y" "1 \<le> m0" "m0 \<le> m" "m \<le> 12"
  shows "month_from y m0 (days_before_month y m - days_before_month y m0 + k) = (m, k)"
  using assms
proof (induction "m - m0" arbitrary: m0)
  case 0
  then show ?case by (subst month_from.simps) simp
next
  case (Suc d)
  have step: "days_before_month y (Suc m0) = days_before_month y m0 + days_in m0 y"
    using Suc.prems(2) by (rule days_before_month_Suc)
  have mono: "i \<le> j \<Longrightarrow> 1 \<le> i \<Longrightarrow> days_before_month y i \<le> days_before_month y j" for i j
  proof (induction j rule: dec_induct)
    case (step j)
    then show ?case by (simp add: days_before_month_Suc)
  qed simp
  have "days_before_month y (Suc m0) \<le> days_before_month y m" using Suc by (intro mono) auto
  moreover from this step have "days_before_month y m - days_before_month y m0 + k - days_in m0 y =
    days_before_month y m - days_before_month y (Suc m0) + k" by linarith
  ultimately show ?case
    using Suc(1) [of "Suc m0"] Suc(2-) step by (subst month_from.simps) auto
qed

lemma days_before_month_bound:
  assumes "1 \<le> m" "m \<le> 12" "d \<le> days_in m y"
  shows "days_before_month y m + d \<le> (if leap y then 366 else 365)"
proof -
  have "m = 1 \<or> m = 2 \<or> m = 3 \<or> m = 4 \<or> m = 5 \<or> m = 6 \<or> m = 7 \<or> m = 8 \<or> m = 9 \<or> m = 10 \<or> m = 11 \<or> m = 12"
    using assms(1,2) by presburger
  with assms(3) show ?thesis by (elim disjE; cases "leap y") (simp_all add: days_before_month_def days_in_def upt_conv_Cons numeral_2_eq_2 [symmetric])
qed

text \<open>Turning an instant into a number and back gives the instant.\<close>

lemma time_of_nanos_nanos:
  assumes "time_ok t" shows "time_of_nanos (time_nanos t) = t"
proof -
  define secs where "secs = t_hour t * 3600 + t_min t * 60 + t_sec t"
  have ok: "t_hour t < 24" "t_min t < 60" "t_sec t < 60" "t_nano t < 1000000000" "1 \<le> t_month t" "t_month t \<le> 12"
    "1 \<le> t_day t" "t_day t \<le> days_in (t_month t) (t_year t)" using assms by (simp_all add: time_ok_def)
  have s: "secs < 86400" using ok by (simp add: secs_def)
  have n: "time_nanos t = 1000000000 * (time_days t * 86400 + int secs) + int (t_nano t)"
    by (simp add: time_nanos_def secs_def algebra_simps)
  have div: "time_nanos t div 1000000000 = time_days t * 86400 + int secs" "time_nanos t mod 1000000000 = int (t_nano t)"
    using ok(4) int_div_pos_eq [OF n] int_mod_pos_eq [OF n] by simp_all
  have day: "(time_days t * 86400 + int secs) div 86400 = time_days t" "(time_days t * 86400 + int secs) mod 86400 = int secs"
    using s by simp_all
  have k: "days_before_month (t_year t) (t_month t) + (t_day t - 1) < (if leap (t_year t) then 366 else 365)"
    using days_before_month_bound [OF ok(5,6,8)] ok(7) by linarith
  have d: "time_days t = days_before_year (t_year t) + int (days_before_month (t_year t) (t_month t) + (t_day t - 1))"
    using ok(7) by (simp add: time_days_def of_nat_diff)
  have "nat (time_days t div 366) \<le> t_year t"
  proof -
    have "time_days t < 366 * int (t_year t)"
      using d k days_before_year_le [of "t_year t"] by (simp add: year_length split: if_splits)
    then show ?thesis by linarith
  qed
  then have y: "year_from (nat (time_days t div 366)) (time_days t) = t_year t"
    using d k by (intro year_from_eq) (auto simp: year_length)
  have "days_before_month (t_year t) 1 = 0" by (simp add: days_before_month_def)
  then have m: "month_from (t_year t) 1 (days_before_month (t_year t) (t_month t) + (t_day t - 1)) = (t_month t, t_day t - 1)"
    using month_from_eq [of "t_day t - 1" "t_month t" "t_year t" 1] ok(5-8) by simp
  have h: "secs div 3600 = t_hour t" "secs div 60 mod 60 = t_min t" "secs mod 60 = t_sec t"
  proof -
    have e: "secs = t_sec t + (t_min t + t_hour t * 60) * 60" by (simp add: secs_def)
    have "secs mod 60 = t_sec t" unfolding e mod_mult_self1 using ok(3) by simp
    moreover have "secs div 60 = t_min t + t_hour t * 60"
      unfolding e by (subst div_mult_self1) (use ok(3) in simp_all)
    ultimately show "secs div 3600 = t_hour t" "secs div 60 mod 60 = t_min t" "secs mod 60 = t_sec t"
      using ok(2) div_mult2_eq [of secs 60 60] by simp_all
  qed
  have k': "nat (time_days t - days_before_year (t_year t)) = days_before_month (t_year t) (t_month t) + (t_day t - 1)"
    using d by linarith
  show ?thesis
    using ok(7) m k' unfolding time_of_nanos_def Let_def div day y by (simp add: h)
qed

section \<open>Durations\<close>

text \<open>
  \<open>frac x u k\<close> is the part of a unit that the fraction \<open>x\<close> with \<open>k\<close> digits stands for,
  \<^verbatim>\<open>uint64(float64(x) * (float64(u) / 10^k))\<close>, which is computed in floating point and is an argument here.
\<close>

fun lead_frac :: "string \<Rightarrow> nat \<Rightarrow> nat \<Rightarrow> bool \<Rightarrow> nat \<times> nat" where
  "lead_frac [] x k over = (x, k)"
| "lead_frac (c # cs) x k over =
    (if over \<or> (2 ^ 63 - 1) div 10 < x \<or> 2 ^ 63 < x * 10 + undec [c] then lead_frac cs x k True
     else lead_frac cs (x * 10 + undec [c]) (Suc k) False)"

definition duration_unit :: "string \<Rightarrow> nat option" where
  "duration_unit u = map_of [(''ns'', 1), (''us'', 1000), ([CHR 0xC2, CHR 0xB5, CHR ''s''], 1000),
     ([CHR 0xCE, CHR 0xBC, CHR ''s''], 1000), (''ms'', 1000000), (''s'', 1000000000), (''m'', 60 * 1000000000),
     (''h'', 3600 * 1000000000)] u"

function duration_from :: "(nat \<Rightarrow> nat \<Rightarrow> nat \<Rightarrow> nat) \<Rightarrow> string \<Rightarrow> nat \<Rightarrow> nat option" where
  "duration_from frac s d =
    (if s = [] then Some d
     else
       (let ds = takeWhile is_digit s; s1 = dropWhile is_digit s; dotted = (s1 \<noteq> [] \<and> hd s1 = CHR ''.'');
            fs = (if dotted then takeWhile is_digit (tl s1) else []);
            s2 = (if dotted then dropWhile is_digit (tl s1) else s1);
            u = takeWhile (\<lambda>c. c \<noteq> CHR ''.'' \<and> \<not> is_digit c) s2; rest = dropWhile (\<lambda>c. c \<noteq> CHR ''.'' \<and> \<not> is_digit c) s2;
            v = undec ds; (x, k) = lead_frac fs 0 0 False in
        if 2 ^ 63 < v \<or> (ds = [] \<and> fs = []) \<or> u = [] then None
        else (case duration_unit u of
            None \<Rightarrow> None
          | Some unit \<Rightarrow>
             (let v' = v * unit + (if 0 < x then frac x unit k else 0); d' = (d + v') mod 2 ^ 64 in
              if 2 ^ 63 div unit < v \<or> 2 ^ 63 < v' \<or> 2 ^ 63 < d' then None else duration_from frac rest d'))))"
  by pat_completeness auto
termination
proof (relation "measure (\<lambda>(frac, s, d). length s)", goal_cases)
  case (2 frac s d ds s1 dotted fs s2 u rest v xk x k unit v' d')
  have "length rest + length u = length s2"
    using 2(6-8) by (metis add.commute length_append takeWhile_dropWhile_id)
  moreover have "length s2 \<le> length s1" using 2(4,6) by (auto intro: order_trans [OF length_dropWhile_le])
  moreover have "length s1 \<le> length s" using 2(3) by (simp add: length_dropWhile_le)
  moreover have "u \<noteq> []" using 2 by auto
  ultimately show ?case by (cases u) auto
qed simp

declare duration_from.simps [simp del]

definition parse_duration :: "(nat \<Rightarrow> nat \<Rightarrow> nat \<Rightarrow> nat) \<Rightarrow> string \<Rightarrow> int option" where
  "parse_duration frac s =
    (let neg = (s \<noteq> [] \<and> hd s = CHR ''-''); b = (if s \<noteq> [] \<and> hd s \<in> {CHR ''-'', CHR ''+''} then tl s else s) in
     if b = ''0'' then Some 0
     else if b = [] then None
     else (case duration_from frac b 0 of
         None \<Rightarrow> None
       | Some d \<Rightarrow> if neg then Some (- int d) else if 2 ^ 63 - 1 < d then None else Some (int d)))"

end
