(* ===== verification/GoFlag.thy ===== *)
theory GoFlag
  imports GoInt
begin

text \<open>
  The part of package \<^verbatim>\<open>flag\<close> the commands use: a flag set with string, boolean and integer flags, its parser, and
  \<^verbatim>\<open>strconv.ParseInt(s, 0, 64)\<close>, which accepts a base prefix and underscores between digits. A value that is set
  twice keeps the last one. Parsing stops at the first argument that is not a flag; the rest are the positional
  arguments. \<^const>\<open>None\<close> is any parse error, \<^verbatim>\<open>-h\<close> and \<^verbatim>\<open>--help\<close> included.
\<close>

datatype flag_kind = FBool | FString | FInt

datatype flag_val = VBool bool | VStr string | VInt int

type_synonym flag_vals = "(string \<times> flag_val) list"

definition parse_bool :: "string \<Rightarrow> bool option" where
  "parse_bool s =
    (if s \<in> set [''1'', ''t'', ''T'', ''true'', ''TRUE'', ''True''] then Some True
     else if s \<in> set [''0'', ''f'', ''F'', ''false'', ''FALSE'', ''False''] then Some False else None)"

section \<open>Integers with a base prefix\<close>

definition digit36 :: "char \<Rightarrow> nat option" where
  "digit36 c =
    (let n = byte (lower_char c) in
     if is_digit c then Some (byte c - 48) else if 97 \<le> n \<and> n \<le> 122 then Some (n - 87) else None)"

fun base_value :: "nat \<Rightarrow> nat \<Rightarrow> string \<Rightarrow> nat option" where
  "base_value b acc [] = Some acc"
| "base_value b acc (c # cs) =
    (if c = CHR ''_'' then base_value b acc cs
     else (case digit36 c of
         None \<Rightarrow> None
       | Some d \<Rightarrow> if b \<le> d then None else base_value b (acc * b + d) cs))"

definition split_base :: "string \<Rightarrow> nat \<times> string" where
  "split_base s =
    (if s = [] \<or> hd s \<noteq> CHR ''0'' then (10, s)
     else if 3 \<le> length s \<and> lower_char (s ! 1) = CHR ''b'' then (2, drop 2 s)
     else if 3 \<le> length s \<and> lower_char (s ! 1) = CHR ''o'' then (8, drop 2 s)
     else if 3 \<le> length s \<and> lower_char (s ! 1) = CHR ''x'' then (16, drop 2 s)
     else (8, tl s))"

text \<open>\<^verbatim>\<open>underscoreOK\<close>: underscores only between digits, or between the base prefix and a digit.\<close>

datatype under_state = UStart | UDigit | UUnder | UOther

fun underscores_from :: "bool \<Rightarrow> under_state \<Rightarrow> string \<Rightarrow> bool" where
  "underscores_from hex st [] = (st \<noteq> UUnder)"
| "underscores_from hex st (c # cs) =
    (if is_digit c \<or> hex \<and> (case digit36 c of Some d \<Rightarrow> d < 16 | None \<Rightarrow> False) then underscores_from hex UDigit cs
     else if c = CHR ''_'' then st = UDigit \<and> underscores_from hex UUnder cs
     else st \<noteq> UUnder \<and> underscores_from hex UOther cs)"

definition underscoreOK :: "string \<Rightarrow> bool" where
  "underscoreOK s =
    (if 2 \<le> length s \<and> hd s = CHR ''0'' \<and> lower_char (s ! 1) \<in> {CHR ''b'', CHR ''o'', CHR ''x''}
     then underscores_from (lower_char (s ! 1) = CHR ''x'') UDigit (drop 2 s)
     else underscores_from False UStart s)"

definition parse_int0 :: "string \<Rightarrow> int option" where
  "parse_int0 s =
    (let neg = (s \<noteq> [] \<and> hd s = CHR ''-''); u = (if s \<noteq> [] \<and> hd s \<in> {CHR ''-'', CHR ''+''} then tl s else s);
         (b, ds) = split_base u in
     if u = [] then None
     else (case base_value b 0 ds of
         None \<Rightarrow> None
       | Some n \<Rightarrow>
          (let i = (if neg then - int n else int n) in
           if CHR ''_'' \<in> set u \<and> \<not> underscoreOK u then None else if int64 i then Some i else None)))"

section \<open>Flag sets\<close>

definition set_flag :: "flag_kind \<Rightarrow> string \<Rightarrow> flag_val option" where
  "set_flag k v = (case k of
     FBool \<Rightarrow> map_option VBool (parse_bool v)
   | FString \<Rightarrow> Some (VStr v)
   | FInt \<Rightarrow> map_option VInt (parse_int0 v))"

text \<open>The name and, after an equals sign that is not the first character, the value.\<close>

definition split_flag :: "string \<Rightarrow> string \<times> string option" where
  "split_flag s =
    (let n = hd s # takeWhile (\<lambda>c. c \<noteq> CHR ''='') (tl s); r = dropWhile (\<lambda>c. c \<noteq> CHR ''='') (tl s) in
     (n, if r = [] then None else Some (tl r)))"

function parse_flags :: "(string \<Rightarrow> flag_kind option) \<Rightarrow> string list \<Rightarrow> flag_vals \<Rightarrow> (flag_vals \<times> string list) option" where
  "parse_flags kinds [] acc = Some (acc, [])"
| "parse_flags kinds (s # args) acc =
    (if length s < 2 \<or> hd s \<noteq> CHR ''-'' then Some (acc, s # args)
     else if s = ''--'' then Some (acc, args)
     else
       (let body0 = (if s ! 1 = CHR ''-'' then drop 2 s else tl s); (name, v) = split_flag body0 in
        if body0 = [] \<or> hd body0 = CHR ''-'' \<or> hd body0 = CHR ''='' then None
        else (case kinds name of
            None \<Rightarrow> None
          | Some k \<Rightarrow>
             (case v of
                Some val \<Rightarrow> (case set_flag k val of None \<Rightarrow> None | Some x \<Rightarrow> parse_flags kinds args ((name, x) # acc))
              | None \<Rightarrow>
                  if k = FBool then parse_flags kinds args ((name, VBool True) # acc)
                  else (case args of
                      [] \<Rightarrow> None
                    | val # rest \<Rightarrow> (case set_flag k val of None \<Rightarrow> None | Some x \<Rightarrow> parse_flags kinds rest ((name, x) # acc)))))))"
  by pat_completeness auto
termination
  by (relation "measure (\<lambda>(kinds, args, acc). length args)") auto

definition flag_str :: "flag_vals \<Rightarrow> string \<Rightarrow> string \<Rightarrow> string" where
  "flag_str vs n d = (case map_of vs n of Some (VStr s) \<Rightarrow> s | _ \<Rightarrow> d)"

definition flag_bool :: "flag_vals \<Rightarrow> string \<Rightarrow> bool" where
  "flag_bool vs n = (case map_of vs n of Some (VBool b) \<Rightarrow> b | _ \<Rightarrow> False)"

definition flag_int :: "flag_vals \<Rightarrow> string \<Rightarrow> int \<Rightarrow> int" where
  "flag_int vs n d = (case map_of vs n of Some (VInt i) \<Rightarrow> i | _ \<Rightarrow> d)"

section \<open>Laws\<close>

lemma digit36_digit: "is_digit c \<Longrightarrow> digit36 c = Some (digit_val c)"
  by (simp add: digit36_def Let_def digit_val_def)

lemma base_value_decimal:
  "list_all is_digit ds \<Longrightarrow> base_value 10 acc ds = Some (foldl (\<lambda>n c. 10 * n + digit_val c) acc ds)"
proof (induction ds arbitrary: acc)
  case (Cons c cs)
  then have "is_digit c" "c \<noteq> CHR ''_''" by (auto simp: is_digit_def)
  with Cons digit_val_less10 [of c] show ?case by (simp add: digit36_digit mult.commute not_le)
qed simp

lemma parse_int0_dec: "int n < 2 ^ 63 \<Longrightarrow> parse_int0 (dec n) = Some (int n)"
proof -
  assume n: "int n < 2 ^ 63"
  have ds: "list_all is_digit (dec n)" "dec n \<noteq> []" using dec_digits [of n] by (auto simp: list_all_iff)
  then have h: "hd (dec n) \<notin> {CHR ''-'', CHR ''+''}" "CHR ''_'' \<notin> set (dec n)"
    using is_digit_no_sign [of "hd (dec n)"] by (auto simp: list_all_iff is_digit_def dest: bspec [of _ _ "hd (dec n)"] bspec [of _ _ "CHR ''_''"])
  have "(case split_base (dec n) of (b, ds) \<Rightarrow> base_value b 0 ds) = Some n"
  proof (cases "n = 0")
    case True
    then have "dec n = ''0''" by (simp add: dec.simps digit_char_def)
    then show ?thesis using True by (simp add: split_base_def)
  next
    case False
    then have "hd (dec n) \<noteq> CHR ''0''" using dec_no_leading_zero by simp
    then have "split_base (dec n) = (10, dec n)" by (simp add: split_base_def)
    then show ?thesis using ds(1) undec_dec [of n] by (simp add: base_value_decimal undec_def)
  qed
  with n h ds(2) show ?thesis by (auto simp: parse_int0_def Let_def int64_def split: prod.splits)
qed

end
