(* ===== verification/EvidenceCmd.thy ===== *)
theory EvidenceCmd
  imports PolicySources EvidenceForwarder GoClock GoFlag "HOL-Library.Product_Lexorder"
begin

text \<open>
  \<^verbatim>\<open>cmd/evidra/evidence_cmd.go\<close>: the commands that verify, export and summarise an evidence store and move a
  forwarder's cursor. A command returns its exit code and what it wrote to standard output, and changes the files (the
  lock files of a store, the exported archive, the forwarder state); messages on standard error are left out. \<open>tx\<close> is
  the text of an error, \<open>frac\<close> the floating-point part of \<^verbatim>\<open>time.ParseDuration\<close>, \<open>pack\<close> the bytes of a gzipped tar
  archive with the given names and contents, written when the archive is closed.
\<close>

record cli_out =
  co_exit :: int
  co_stdout :: string

definition exitOK :: int where "exitOK = 0"
definition exitVerifyFailed :: int where "exitVerifyFailed = 1"
definition exitInputError :: int where "exitInputError = 2"
definition exitExportFailure :: int where "exitExportFailure = 3"

definition cli_writeJSON :: "json \<Rightarrow> string" where
  "cli_writeJSON v = marshal_indent v @ [CHR 0x0A]"

definition silent :: "int \<Rightarrow> fs \<Rightarrow> cli_out \<times> fs" where
  "silent code f = (\<lparr>co_exit = code, co_stdout = []\<rparr>, f)"

definition say :: "int \<Rightarrow> json \<Rightarrow> fs \<Rightarrow> cli_out \<times> fs" where
  "say code v f = (\<lparr>co_exit = code, co_stdout = cli_writeJSON v\<rparr>, f)"

fun kinds_of :: "(string \<times> flag_kind) list \<Rightarrow> string \<Rightarrow> flag_kind option" where
  "kinds_of ks n = map_of ks n"

section \<open>Verify\<close>

definition fail_members :: "(ev_err \<Rightarrow> string) \<Rightarrow> ev_err \<Rightarrow> (string \<times> json) list" where
  "fail_members tx err = [(''ok'', JBool False)] @ omit (ErrorCode err = []) ''code'' (JStr (ErrorCode err)) @ [(''error'', JStr (tx err))]"

text \<open>\<^verbatim>\<open>errors.As\<close> for a \<^verbatim>\<open>ChainValidationError\<close>: the index and the event id.\<close>

fun chain_error :: "ev_err \<Rightarrow> (nat \<times> string) option" where
  "chain_error (EChain i ident msg) = Some (i, ident)"
| "chain_error _ = None"

definition failed_at :: "ev_err \<Rightarrow> (string \<times> json) list" where
  "failed_at err = (case chain_error err of
     None \<Rightarrow> []
   | Some (i, ident) \<Rightarrow> [(''failed_at'', if ident \<noteq> [] then JStr ident else JNum (int i))])"

definition verify_ok_json :: "metadata \<Rightarrow> json" where
  "verify_ok_json md = JObj [(''ok'', JBool True), (''records'', JNum (md_records md)), (''last_hash'', JStr (md_last_hash md))]"

definition runVerify :: "(ev_err \<Rightarrow> string) \<Rightarrow> (string \<Rightarrow> string) \<Rightarrow> env \<Rightarrow> string list \<Rightarrow> fs \<Rightarrow> cli_out \<times> fs" where
  "runVerify tx sha e args f = (case parse_flags (kinds_of [(''evidence'', FString)]) args [] of
     None \<Rightarrow> silent exitInputError f
   | Some (vs, _) \<Rightarrow>
      (let path = flag_str vs ''evidence'' [] in
       if path = [] then silent exitInputError f
       else (case stat_str f path of
           Inl _ \<Rightarrow> silent exitInputError f
         | Inr _ \<Rightarrow>
            (case ValidateChainAtPath sha e path f of
               (Inl err, f1) \<Rightarrow> say exitVerifyFailed (JObj (fail_members tx err @ failed_at err)) f1
             | (Inr _, f1) \<Rightarrow>
                (case MetadataAtPath e path f1 of
                   (Inl _, f2) \<Rightarrow> silent exitInputError f2
                 | (Inr md, f2) \<Rightarrow> say exitOK (verify_ok_json md) f2)))))"

section \<open>Export\<close>

record audit_manifest =
  am_format :: string
  am_created_at :: string
  am_evidence_file :: string
  am_records :: int
  am_last_hash :: string
  am_policy_ref :: string
  am_notes :: string
  am_store_format :: string
  am_store_manifest_last_hash :: string
  am_policy_file_sha256 :: string
  am_data_file_sha256 :: string

definition audit_manifest_json :: "audit_manifest \<Rightarrow> json" where
  "audit_manifest_json m = JObj
    ([(''format'', JStr (am_format m)), (''created_at'', JStr (am_created_at m)), (''evidence_file'', JStr (am_evidence_file m)),
      (''records'', JNum (am_records m)), (''last_hash'', JStr (am_last_hash m)), (''policy_ref'', JStr (am_policy_ref m)),
      (''notes'', JStr (am_notes m)), (''evidence_store_format'', JStr (am_store_format m))]
     @ omit (am_store_manifest_last_hash m = []) ''evidence_store_manifest_last_hash'' (JStr (am_store_manifest_last_hash m))
     @ omit (am_policy_file_sha256 m = []) ''policy_file_sha256'' (JStr (am_policy_file_sha256 m))
     @ omit (am_data_file_sha256 m = []) ''data_file_sha256'' (JStr (am_data_file_sha256 m)))"

definition mode_name :: "mode \<Rightarrow> string" where
  "mode_name m = (case m of Segmented \<Rightarrow> ''segmented'' | Legacy \<Rightarrow> ''legacy'')"

text \<open>Adding files to the archive stops at the first that cannot be read; what was added before stays in it.\<close>

definition addFileToTar :: "fs \<Rightarrow> path \<Rightarrow> string \<Rightarrow> (string \<times> string) list \<Rightarrow> bool \<times> (string \<times> string) list" where
  "addFileToTar f srcPath destPath tw = (case read_file f srcPath of
     Inl _ \<Rightarrow> (False, tw)
   | Inr c \<Rightarrow> (True, tw @ [(destPath, c)]))"

definition addBytesToTar :: "string \<Rightarrow> string \<Rightarrow> (string \<times> string) list \<Rightarrow> (string \<times> string) list" where
  "addBytesToTar destPath c tw = tw @ [(destPath, c)]"

fun add_segments :: "fs \<Rightarrow> path list \<Rightarrow> (string \<times> string) list \<Rightarrow> bool \<times> (string \<times> string) list" where
  "add_segments f [] tw = (True, tw)"
| "add_segments f (seg # segments) tw = (case addFileToTar f seg (''evidence/segments/'' @ path_base seg) tw of
     (False, tw') \<Rightarrow> (False, tw')
   | (True, tw') \<Rightarrow> add_segments f segments tw')"

definition add_store :: "env \<Rightarrow> string \<Rightarrow> mode \<Rightarrow> fs \<Rightarrow> (bool \<times> (string \<times> string) list) \<times> fs" where
  "add_store e evidencePath m f = (case m of
     Legacy \<Rightarrow> (addFileToTar f (clean_path evidencePath) ''evidence/evidence.log'' [], f)
   | Segmented \<Rightarrow>
      (case addFileToTar f (ManifestPath (clean_path evidencePath)) ''evidence/manifest.json'' [] of
         (False, tw) \<Rightarrow> ((False, tw), f)
       | (True, tw) \<Rightarrow>
          (case SegmentFiles e evidencePath f of
             (Inl _, f') \<Rightarrow> ((False, tw), f')
           | (Inr segments, f') \<Rightarrow> (add_segments f' segments tw, f'))))"

definition writeAuditPack ::
  "((string \<times> string) list \<Rightarrow> string) \<Rightarrow> env \<Rightarrow> string \<Rightarrow> string \<Rightarrow> mode \<Rightarrow> string \<Rightarrow> string \<Rightarrow> audit_manifest \<Rightarrow> fs \<Rightarrow> bool \<times> fs" where
  "writeAuditPack pack e outPath evidencePath fmt policyBytes dataBytes m f =
    (case write_file f (clean_path outPath) [] of
       (Some _, f1) \<Rightarrow> (False, f1)
     | (None, f1) \<Rightarrow>
        (case add_store e evidencePath fmt f1 of
           ((False, tw), f2) \<Rightarrow> (False, put_node (clean_path outPath) (File (pack tw)) f2)
         | ((True, tw), f2) \<Rightarrow>
            (let tw1 = addBytesToTar ''manifest.json'' (marshal_indent (audit_manifest_json m)) tw;
                 tw2 = (if policyBytes \<noteq> [] then addBytesToTar ''policy/active.rego'' policyBytes tw1 else tw1);
                 tw3 = (if dataBytes \<noteq> [] then addBytesToTar ''policy/active-data.json'' dataBytes tw2 else tw2) in
             (True, put_node (clean_path outPath) (File (pack tw3)) f2))))"

definition optional_file :: "fs \<Rightarrow> string \<Rightarrow> ioerr + string" where
  "optional_file f p = (if p = [] then Inr [] else read_str f p)"

definition optional_stat :: "fs \<Rightarrow> string \<Rightarrow> bool" where
  "optional_stat f p \<longleftrightarrow> p = [] \<or> (case stat_str f p of Inl _ \<Rightarrow> False | Inr _ \<Rightarrow> True)"

definition export_flags :: "(string \<times> flag_kind) list" where
  "export_flags = [(''evidence'', FString), (''out'', FString), (''policy'', FString), (''data'', FString)]"

definition store_last_hash :: "env \<Rightarrow> string \<Rightarrow> mode \<Rightarrow> string io" where
  "store_last_hash e path fmt = (case fmt of
     Legacy \<Rightarrow> io_ret []
   | Segmented \<Rightarrow> io_bind (LoadManifest e path) (\<lambda>sm. io_ret (sm_last_hash sm)))"

definition audit_manifest_of :: "(string \<Rightarrow> string) \<Rightarrow> env \<Rightarrow> metadata \<Rightarrow> mode \<Rightarrow> string \<Rightarrow> string \<Rightarrow> string \<Rightarrow> audit_manifest" where
  "audit_manifest_of sha e md fmt lastHash policyBytes dataBytes =
    \<lparr>am_format = ''evidra-audit-pack-v0.1'', am_created_at = fmt_rfc3339 (e_now e 7),
     am_evidence_file = (if fmt = Segmented then ''evidence/manifest.json'' else ''evidence/evidence.log''),
     am_records = md_records md, am_last_hash = md_last_hash md, am_policy_ref = md_policy_ref md,
     am_notes = ''Evidra-Lock audit pack v0.1'', am_store_format = mode_name fmt,
     am_store_manifest_last_hash = lastHash,
     am_policy_file_sha256 = (if policyBytes \<noteq> [] then sha policyBytes else []),
     am_data_file_sha256 = (if dataBytes \<noteq> [] then sha dataBytes else [])\<rparr>"

text \<open>The part of \<^verbatim>\<open>runExport\<close> after the store has been validated and its format found.\<close>

definition export_store ::
  "((string \<times> string) list \<Rightarrow> string) \<Rightarrow> (ev_err \<Rightarrow> string) \<Rightarrow> (string \<Rightarrow> string) \<Rightarrow> env \<Rightarrow> flag_vals \<Rightarrow> metadata \<Rightarrow> mode \<Rightarrow> fs \<Rightarrow> cli_out \<times> fs" where
  "export_store pack tx sha e vs md fmt f =
    (let path = flag_str vs ''evidence'' []; out = flag_str vs ''out'' [] in
     case (optional_file f (flag_str vs ''policy'' []), optional_file f (flag_str vs ''data'' [])) of
       (Inr policyBytes, Inr dataBytes) \<Rightarrow>
        (case store_last_hash e path fmt f of
           (Inl err, f1) \<Rightarrow> say exitExportFailure (JObj (fail_members tx err)) f1
         | (Inr lastHash, f1) \<Rightarrow>
            (case writeAuditPack pack e out path fmt policyBytes dataBytes
                (audit_manifest_of sha e md fmt lastHash policyBytes dataBytes) f1 of
               (False, f2) \<Rightarrow> silent exitExportFailure f2
             | (True, f2) \<Rightarrow> say exitOK (JObj [(''ok'', JBool True), (''out'', JStr out)]) f2))
     | _ \<Rightarrow> silent exitInputError f)"

definition runExport ::
  "((string \<times> string) list \<Rightarrow> string) \<Rightarrow> (ev_err \<Rightarrow> string) \<Rightarrow> (string \<Rightarrow> string) \<Rightarrow> env \<Rightarrow> string list \<Rightarrow> fs \<Rightarrow> cli_out \<times> fs" where
  "runExport pack tx sha e args f = (case parse_flags (kinds_of export_flags) args [] of
     None \<Rightarrow> silent exitInputError f
   | Some (vs, _) \<Rightarrow>
      (let path = flag_str vs ''evidence'' [] in
       if path = [] \<or> flag_str vs ''out'' [] = [] \<or> \<not> optional_stat f path
          \<or> \<not> optional_stat f (flag_str vs ''policy'' []) \<or> \<not> optional_stat f (flag_str vs ''data'' [])
       then silent exitInputError f
       else (case ValidateChainAtPath sha e path f of
           (Inl err, f1) \<Rightarrow> say exitVerifyFailed (JObj (fail_members tx err)) f1
         | (Inr _, f1) \<Rightarrow>
            (case MetadataAtPath e path f1 of
               (Inl err, f2) \<Rightarrow> say exitVerifyFailed (JObj (fail_members tx err)) f2
             | (Inr md, f2) \<Rightarrow>
                (case StoreFormatAtPath f2 path of
                   Inl err \<Rightarrow> say exitExportFailure (JObj (fail_members tx err)) f2
                 | Inr fmt \<Rightarrow> export_store pack tx sha e vs md fmt f2)))))"

section \<open>Violations\<close>

definition riskRank :: "string \<Rightarrow> int \<times> bool" where
  "riskRank level =
    (let l = to_lower (trim_space level) in
     if l = ''low'' then (1, True) else if l = ''medium'' then (2, True) else if l = ''high'' then (3, True) else (3, False))"

definition normalizedRiskLevel :: "string \<Rightarrow> string" where
  "normalizedRiskLevel level =
    (let l = to_lower (trim_space level) in if l \<in> set [''low'', ''medium'', ''high''] then l else ''high'')"

text \<open>Incrementing an entry of a counting map.\<close>

fun bump :: "string \<Rightarrow> (string \<times> nat) list \<Rightarrow> (string \<times> nat) list" where
  "bump k [] = [(k, 1)]"
| "bump k ((j, n) # m) = (if j = k then (j, Suc n) # m else (j, n) # bump k m)"

record violations =
  vs_scanned :: nat
  vs_total :: nat
  vs_reasons :: "(string \<times> nat) list"
  vs_tools :: "(string \<times> nat) list"
  vs_actors :: "(string \<times> nat) list"
  vs_samples :: "json list"

definition no_violations :: violations where
  "no_violations = \<lparr>vs_scanned = 0, vs_total = 0, vs_reasons = [], vs_tools = [], vs_actors = [], vs_samples = []\<rparr>"

definition reason_of :: "evidence_record \<Rightarrow> string" where
  "reason_of r = (let reason = pd_reason (er_policy_decision r) in if reason = [] then ''unknown_reason'' else reason)"

definition actor_of :: "evidence_record \<Rightarrow> string" where
  "actor_of r = (let i = a_id (er_actor r) in if i = [] then ''unknown'' else i)"

definition tool_key :: "evidence_record \<Rightarrow> string" where
  "tool_key r = er_tool r @ ''|'' @ er_operation r"

definition is_violation :: "int \<Rightarrow> evidence_record \<Rightarrow> bool" where
  "is_violation minRank r \<longleftrightarrow>
    \<not> pd_allow (er_policy_decision r) \<or> minRank \<le> fst (riskRank (pd_risk_level (er_policy_decision r)))"

definition within_window :: "gtime option \<Rightarrow> evidence_record \<Rightarrow> bool" where
  "within_window cutoff r \<longleftrightarrow> (case cutoff of None \<Rightarrow> True | Some c \<Rightarrow> \<not> time_before (er_timestamp r) c)"

definition sample_json :: "evidence_record \<Rightarrow> json" where
  "sample_json r = JObj
    [(''event_id'', JStr (er_event_id r)), (''timestamp'', JStr (fmt_rfc3339 (er_timestamp r))), (''tool'', JStr (er_tool r)),
     (''operation'', JStr (er_operation r)), (''allow'', JBool (pd_allow (er_policy_decision r))),
     (''risk_level'', JStr (normalizedRiskLevel (pd_risk_level (er_policy_decision r)))), (''reason'', JStr (reason_of r))]"

definition violation_step :: "int \<Rightarrow> gtime option \<Rightarrow> evidence_record \<Rightarrow> violations \<Rightarrow> ev_err option \<times> violations" where
  "violation_step minRank cutoff r v =
    (if \<not> within_window cutoff r then (None, v)
     else
       (let v1 = v\<lparr>vs_scanned := Suc (vs_scanned v)\<rparr> in
        if \<not> is_violation minRank r then (None, v1)
        else (None, v1\<lparr>vs_total := Suc (vs_total v), vs_reasons := bump (reason_of r) (vs_reasons v),
            vs_tools := bump (tool_key r) (vs_tools v), vs_actors := bump (actor_of r) (vs_actors v),
            vs_samples := (if length (vs_samples v) < 10 then vs_samples v @ [sample_json r] else vs_samples v)\<rparr>)))"

definition buildReasonCounts :: "(string \<times> nat) list \<Rightarrow> nat \<Rightarrow> (string \<times> nat) list" where
  "buildReasonCounts input limit = take limit (sort_key (\<lambda>(reason, n). (- int n, reason)) input)"

definition split_tool :: "string \<times> nat \<Rightarrow> string \<times> string \<times> nat" where
  "split_tool e = (case split2 (CHR ''|'') (fst e) of
     None \<Rightarrow> (fst e, [], snd e)
   | Some (tool, operation) \<Rightarrow> (tool, operation, snd e))"

definition buildToolCounts :: "(string \<times> nat) list \<Rightarrow> nat \<Rightarrow> (string \<times> string \<times> nat) list" where
  "buildToolCounts input limit =
    take limit (sort_key (\<lambda>(tool, operation, n). (- int n, tool, operation)) (map split_tool input))"

definition buildActorCounts :: "(string \<times> nat) list \<Rightarrow> nat \<Rightarrow> (string \<times> nat) list" where
  "buildActorCounts input limit = take limit (sort_key (\<lambda>(actorID, n). (- int n, actorID)) input)"

definition opt_str :: "string option \<Rightarrow> json" where
  "opt_str s = (case s of None \<Rightarrow> JNull | Some t \<Rightarrow> JStr t)"

definition violations_json :: "string \<Rightarrow> int \<Rightarrow> violations \<Rightarrow> string option \<Rightarrow> string option \<Rightarrow> string \<Rightarrow> string \<Rightarrow> json" where
  "violations_json path recordsTotal v since from to minRisk = JObj
    [(''ok'', JBool True), (''evidence_path'', JStr path), (''records_total'', JNum recordsTotal), (''records_scanned'', JNum (int (vs_scanned v))),
     (''time_window'', JObj [(''since'', opt_str since), (''from'', opt_str from), (''to'', JStr to)]),
     (''filters'', JObj [(''min_risk'', JStr (normalizedRiskLevel minRisk)), (''include_denies'', JBool True)]),
     (''violations_total'', JNum (int (vs_total v))),
     (''by_reason'', JArr (map (\<lambda>(r, n). JObj [(''reason'', JStr r), (''count'', JNum (int n))]) (buildReasonCounts (vs_reasons v) 50))),
     (''by_tool'', JArr (map (\<lambda>(t, p, n). JObj [(''tool'', JStr t), (''operation'', JStr p), (''count'', JNum (int n))]) (buildToolCounts (vs_tools v) 50))),
     (''top_actors'', JArr (map (\<lambda>(a, n). JObj [(''actor_id'', JStr a), (''count'', JNum (int n))]) (buildActorCounts (vs_actors v) 10))),
     (''samples'', JArr (vs_samples v))]"

definition hint_json :: "(ev_err \<Rightarrow> string) \<Rightarrow> ev_err \<Rightarrow> string \<Rightarrow> json" where
  "hint_json tx err hint = JObj [(''error'', JStr (tx err)), (''hint'', JStr hint), (''ok'', JBool False)]"

definition violations_flags :: "(string \<times> flag_kind) list" where
  "violations_flags = [(''evidence'', FString), (''since'', FString), (''min-risk'', FString), (''json'', FBool)]"

text \<open>The part of \<^verbatim>\<open>runViolations\<close> after the flags have been checked; the window is a duration, if there is one.\<close>

definition report_violations ::
  "(ev_err \<Rightarrow> string) \<Rightarrow> (string \<Rightarrow> string) \<Rightarrow> env \<Rightarrow> string \<Rightarrow> string \<Rightarrow> (string \<times> int) option \<Rightarrow> fs \<Rightarrow> cli_out \<times> fs" where
  "report_violations tx sha e path minRisk window f = (case ValidateChainAtPath sha e path f of
     (Inl err, f1) \<Rightarrow>
       (case chain_error err of
          Some _ \<Rightarrow> say exitVerifyFailed (hint_json tx err ''evidence chain is invalid'') f1
        | None \<Rightarrow> say exitExportFailure (hint_json tx err ''evidence parse or internal error'') f1)
   | (Inr _, f1) \<Rightarrow>
      (case MetadataAtPath e path f1 of
         (Inl err, f2) \<Rightarrow> say exitExportFailure (hint_json tx err ''failed to read evidence metadata'') f2
       | (Inr md, f2) \<Rightarrow>
          (let cutoff = map_option (\<lambda>w. time_add (e_now e 9) (wrap64 (- snd w))) window;
               from = map_option (\<lambda>w. fmt_rfc3339 (time_add (e_now e 8) (wrap64 (- snd w)))) window in
           case ForEachRecordAtPath e path (violation_step (fst (riskRank minRisk)) cutoff) no_violations f2 of
             (Inl err, f3) \<Rightarrow> say exitExportFailure (hint_json tx err ''failed to parse evidence records'') f3
           | (Inr (Some err, _), f3) \<Rightarrow> say exitExportFailure (hint_json tx err ''failed to parse evidence records'') f3
           | (Inr (None, v), f3) \<Rightarrow>
               say exitOK (violations_json path (md_records md) v (map_option fst window) from (fmt_rfc3339 (e_now e 9)) minRisk) f3)))"

definition runViolations ::
  "(nat \<Rightarrow> nat \<Rightarrow> nat \<Rightarrow> nat) \<Rightarrow> (ev_err \<Rightarrow> string) \<Rightarrow> (string \<Rightarrow> string) \<Rightarrow> env \<Rightarrow> string list \<Rightarrow> fs \<Rightarrow> cli_out \<times> fs" where
  "runViolations frac tx sha e args f = (case parse_flags (kinds_of violations_flags) args [] of
     None \<Rightarrow> silent exitInputError f
   | Some (vs, _) \<Rightarrow>
      (let path = flag_str vs ''evidence'' []; minRisk = flag_str vs ''min-risk'' ''high'';
           since = trim_space (flag_str vs ''since'' []) in
       if path = [] \<or> \<not> optional_stat f path \<or> \<not> snd (riskRank minRisk) then silent exitInputError f
       else if since = [] then report_violations tx sha e path minRisk None f
       else (case parse_duration frac since of
           None \<Rightarrow> silent exitInputError f
         | Some d \<Rightarrow> report_violations tx sha e path minRisk (Some (since, d)) f)))"

section \<open>Cursor\<close>

definition error_json :: "(ev_err \<Rightarrow> string) \<Rightarrow> ev_err \<Rightarrow> json" where
  "error_json tx err = JObj [(''error'', JStr (tx err)), (''ok'', JBool False)]"

definition cursor_out :: "forwarder_state \<Rightarrow> json" where
  "cursor_out st = JObj
    [(''cursor'', cursor_json (fw_cursor st)), (''last_ack_hash'', JStr (fw_last_ack_hash st)), (''ok'', JBool True)]"

text \<open>Both cursor commands work on a directory that holds a segmented store.\<close>

definition cursor_store :: "fs \<Rightarrow> string \<Rightarrow> bool" where
  "cursor_store f path \<longleftrightarrow> stat_str f path = Inr Dir \<and> StoreFormatAtPath f path = Inr Segmented"

definition runCursorShow :: "(ev_err \<Rightarrow> string) \<Rightarrow> env \<Rightarrow> string list \<Rightarrow> fs \<Rightarrow> cli_out \<times> fs" where
  "runCursorShow tx e args f = (case parse_flags (kinds_of [(''evidence'', FString)]) args [] of
     None \<Rightarrow> silent exitInputError f
   | Some (vs, _) \<Rightarrow>
      (let path = flag_str vs ''evidence'' [] in
       if path = [] \<or> \<not> cursor_store f path then silent exitInputError f
       else (case LoadForwarderState e path f of
           (Inl err, f1) \<Rightarrow> say exitExportFailure (error_json tx err) f1
         | (Inr None, f1) \<Rightarrow> say exitOK (JObj [(''cursor'', JNull), (''ok'', JBool True)]) f1
         | (Inr (Some st), f1) \<Rightarrow> say exitOK (cursor_out st) f1)))"

definition acked :: "env \<Rightarrow> string \<Rightarrow> int \<Rightarrow> evidence_record \<Rightarrow> forwarder_state" where
  "acked e segment line rec = \<lparr>fw_format = ''evidra-forwarder-state-v0.1'', fw_updated_at = fmt_rfc3339 (e_now e 10),
     fw_cursor = \<lparr>fc_segment = segment, fc_line = line\<rparr>, fw_last_ack_hash = er_hash rec,
     fw_destination = \<lparr>fd_type = ''none'', fd_id = []\<rparr>, fw_notes = []\<rparr>"

definition ack_flags :: "(string \<times> flag_kind) list" where
  "ack_flags = [(''evidence'', FString), (''segment'', FString), (''line'', FInt)]"

definition runCursorAck :: "(ev_err \<Rightarrow> string) \<Rightarrow> (string \<Rightarrow> string) \<Rightarrow> env \<Rightarrow> string list \<Rightarrow> fs \<Rightarrow> cli_out \<times> fs" where
  "runCursorAck tx sha e args f = (case parse_flags (kinds_of ack_flags) args [] of
     None \<Rightarrow> silent exitInputError f
   | Some (vs, _) \<Rightarrow>
      (let path = flag_str vs ''evidence'' []; segment = flag_str vs ''segment'' []; line = flag_int vs ''line'' (-1) in
       if path = [] \<or> segment = [] \<or> line < 0 \<or> \<not> cursor_store f path then silent exitInputError f
       else (case ValidateChainAtPath sha e path f of
           (Inl err, f1) \<Rightarrow> say exitVerifyFailed (error_json tx err) f1
         | (Inr _, f1) \<Rightarrow>
            (case ResolveCursorRecord e path segment line f1 of
               (Inl err, f2) \<Rightarrow>
                 if err = ECursorSegmentNotFound \<or> err = ECursorLineOutOfRange then silent exitInputError f2
                 else say exitExportFailure (error_json tx err) f2
             | (Inr rec, f2) \<Rightarrow>
                (case SaveForwarderState e path (acked e segment line rec) f2 of
                   (Inl err, f3) \<Rightarrow> say exitExportFailure (error_json tx err) f3
                 | (Inr _, f3) \<Rightarrow> say exitOK (cursor_out (acked e segment line rec)) f3)))))"

definition runCursor :: "(ev_err \<Rightarrow> string) \<Rightarrow> (string \<Rightarrow> string) \<Rightarrow> env \<Rightarrow> string list \<Rightarrow> fs \<Rightarrow> cli_out \<times> fs" where
  "runCursor tx sha e args f = (case args of
     [] \<Rightarrow> silent exitInputError f
   | c # rest \<Rightarrow>
       if c = ''show'' then runCursorShow tx e rest f
       else if c = ''ack'' then runCursorAck tx sha e rest f
       else silent exitInputError f)"

section \<open>Dispatch\<close>

record cmd_world =
  cw_version :: string
  cw_text :: "ev_err \<Rightarrow> string"
  cw_sha :: "string \<Rightarrow> string"
  cw_frac :: "nat \<Rightarrow> nat \<Rightarrow> nat \<Rightarrow> nat"
  cw_pack :: "(string \<times> string) list \<Rightarrow> string"
  cw_env :: env

definition runEvidenceCommand :: "cmd_world \<Rightarrow> string list \<Rightarrow> fs \<Rightarrow> cli_out \<times> fs" where
  "runEvidenceCommand w args f = (case args of
     [] \<Rightarrow> silent exitInputError f
   | c # rest \<Rightarrow>
       if rest = [] \<and> trim_space c = ''--version''
       then (\<lparr>co_exit = exitOK, co_stdout = ''evidra evidence '' @ cw_version w @ [CHR 0x0A]\<rparr>, f)
       else if c = ''verify'' then runVerify (cw_text w) (cw_sha w) (cw_env w) rest f
       else if c = ''export'' then runExport (cw_pack w) (cw_text w) (cw_sha w) (cw_env w) rest f
       else if c = ''violations'' then runViolations (cw_frac w) (cw_text w) (cw_sha w) (cw_env w) rest f
       else if c = ''cursor'' then runCursor (cw_text w) (cw_sha w) (cw_env w) rest f
       else silent exitInputError f)"

end
