(* ===== verification/Signing.thy ===== *)
theory Signing
  imports Client
begin

text \<open>
  \<^verbatim>\<open>internal/evidence\<close>: the evidence record the API returns, its signing payload, its construction and the signer.
  Ed25519 and the PEM and PKCS8 decoders are parameters; base64 and the encoding of the public key are defined. The hexadecimal SHA-256 digest is
  the parameter \<open>sha\<close>.
\<close>

section \<open>Records\<close>

record decision_record =
  dr_allow :: bool
  dr_risk_level :: string
  dr_reason :: string
  dr_reasons :: "string list"
  dr_hints :: "string list"
  dr_hits :: "string list"
  dr_rule_ids :: "string list"

record signed_record =
  sr_event_id :: string
  sr_timestamp :: gtime
  sr_server_id :: string
  sr_tenant_id :: string
  sr_environment :: string
  sr_actor :: actor
  sr_tool :: string
  sr_operation :: string
  sr_input_hash :: string
  sr_policy_ref :: string
  sr_bundle_revision :: string
  sr_profile_name :: string
  sr_decision :: decision_record
  sr_signature :: string
  sr_signing_payload :: string

section \<open>The signing payload\<close>

definition newline :: char where "newline = CHR 0x0A"

definition writeField :: "string \<Rightarrow> string \<Rightarrow> string" where
  "writeField key val = key @ ''='' @ val @ [newline]"

fun lengthPrefixedJoin :: "string list \<Rightarrow> string" where
  "lengthPrefixedJoin [] = []"
| "lengthPrefixedJoin [v] = dec (length v) @ '':'' @ v"
| "lengthPrefixedJoin (v # w # vs) = dec (length v) @ '':'' @ v @ '','' @ lengthPrefixedJoin (w # vs)"

definition writeListField :: "string \<Rightarrow> string list \<Rightarrow> string" where
  "writeListField key vals = key @ ''='' @ lengthPrefixedJoin vals @ [newline]"

definition format_bool :: "bool \<Rightarrow> string" where
  "format_bool b = (if b then ''true'' else ''false'')"

definition BuildSigningPayload :: "signed_record \<Rightarrow> string" where
  "BuildSigningPayload r = ''evidra.v1'' @ [newline]
    @ writeField ''event_id'' (sr_event_id r)
    @ writeField ''timestamp'' (fmt_millis (sr_timestamp r))
    @ writeField ''server_id'' (sr_server_id r)
    @ writeField ''tenant_id'' (sr_tenant_id r)
    @ writeField ''environment'' (sr_environment r)
    @ writeField ''actor.type'' (a_type (sr_actor r))
    @ writeField ''actor.id'' (a_id (sr_actor r))
    @ writeField ''actor.origin'' (a_origin (sr_actor r))
    @ writeField ''tool'' (sr_tool r)
    @ writeField ''operation'' (sr_operation r)
    @ writeField ''input_hash'' (sr_input_hash r)
    @ writeField ''policy_ref'' (sr_policy_ref r)
    @ writeField ''bundle_revision'' (sr_bundle_revision r)
    @ writeField ''profile_name'' (sr_profile_name r)
    @ writeField ''allow'' (format_bool (dr_allow (sr_decision r)))
    @ writeField ''risk_level'' (dr_risk_level (sr_decision r))
    @ writeField ''reason'' (dr_reason (sr_decision r))
    @ writeListField ''reasons'' (dr_reasons (sr_decision r))
    @ writeListField ''hints'' (dr_hints (sr_decision r))
    @ writeListField ''hits'' (dr_hits (sr_decision r))
    @ writeListField ''rule_ids'' (dr_rule_ids (sr_decision r))"

section \<open>Building a record\<close>

record builder_config =
  bc_server_id :: string
  bc_tenant_id :: string

text \<open>\<^verbatim>\<open>json.Marshal\<close> does not fail on an invocation decoded from JSON, so \<^verbatim>\<open>hashInvocation\<close> has no error branch here.\<close>

definition hashInvocation :: "(string \<Rightarrow> string) \<Rightarrow> tool_invocation \<Rightarrow> string" where
  "hashInvocation sha ti = ''sha256:'' @ sha (marshal (invocation_json ti))"

text \<open>\<open>ulid\<close> is the identifier the ULID library generates.\<close>

definition BuildRecord ::
  "(string \<Rightarrow> string) \<Rightarrow> string \<Rightarrow> gtime \<Rightarrow> builder_config \<Rightarrow> decision \<Rightarrow> tool_invocation \<Rightarrow> signed_record" where
  "BuildRecord sha ulid now cfg d ti = \<lparr>
     sr_event_id = ''evt_'' @ ulid, sr_timestamp = now, sr_server_id = bc_server_id cfg, sr_tenant_id = bc_tenant_id cfg,
     sr_environment = ti_environment ti, sr_actor = ti_actor ti, sr_tool = ti_tool ti, sr_operation = ti_operation ti,
     sr_input_hash = hashInvocation sha ti, sr_policy_ref = dc_policy_ref d, sr_bundle_revision = dc_bundle_revision d,
     sr_profile_name = dc_profile_name d,
     sr_decision = \<lparr>dr_allow = dc_allow d, dr_risk_level = dc_risk_level d, dr_reason = dc_reason d,
       dr_reasons = dc_reasons d, dr_hints = dc_hints d, dr_hits = dc_hits d, dr_rule_ids = dc_hits d\<rparr>,
     sr_signature = [], sr_signing_payload = []\<rparr>"

section \<open>Base64\<close>

definition b64_char :: "nat \<Rightarrow> char" where
  "b64_char n = char_of (if n < 26 then n + 65 else if n < 52 then n + 71 else if n < 62 then n - 4
     else if n = 62 then 43 else 47)"

definition b64_val :: "char \<Rightarrow> nat option" where
  "b64_val c =
    (let n = byte c in
     if 65 \<le> n \<and> n \<le> 90 then Some (n - 65)
     else if 97 \<le> n \<and> n \<le> 122 then Some (n - 71)
     else if 48 \<le> n \<and> n \<le> 57 then Some (n + 4)
     else if n = 43 then Some 62
     else if n = 47 then Some 63
     else None)"

fun b64_encode :: "string \<Rightarrow> string" where
  "b64_encode [] = []"
| "b64_encode [a] = [b64_char (byte a div 4), b64_char (byte a mod 4 * 16), CHR ''='', CHR ''='']"
| "b64_encode [a, b] = [b64_char (byte a div 4), b64_char (byte a mod 4 * 16 + byte b div 16),
     b64_char (byte b mod 16 * 4), CHR ''='']"
| "b64_encode (a # b # c # r) = b64_char (byte a div 4) # b64_char (byte a mod 4 * 16 + byte b div 16)
     # b64_char (byte b mod 16 * 4 + byte c div 64) # b64_char (byte c mod 64) # b64_encode r"

text \<open>
  \<^verbatim>\<open>StdEncoding.DecodeString\<close>: line breaks are skipped, a final group may end in one or two padding characters,
  and trailing bits are ignored.
\<close>

fun b64_groups :: "string \<Rightarrow> string option" where
  "b64_groups [] = Some []"
| "b64_groups (w # x # y # z # r) =
    (case (b64_val w, b64_val x) of
       (Some i, Some j) \<Rightarrow>
         if y = CHR ''='' then (if z = CHR ''='' \<and> r = [] then Some [char_of (i * 4 + j div 16)] else None)
         else (case b64_val y of
             None \<Rightarrow> None
           | Some k \<Rightarrow>
               if z = CHR ''='' then
                 (if r = [] then Some [char_of (i * 4 + j div 16), char_of (j mod 16 * 16 + k div 4)] else None)
               else (case b64_val z of
                   None \<Rightarrow> None
                 | Some l \<Rightarrow> map_option (\<lambda>t. char_of (i * 4 + j div 16) # char_of (j mod 16 * 16 + k div 4)
                     # char_of (k mod 4 * 64 + l) # t) (b64_groups r)))
     | _ \<Rightarrow> None)"
| "b64_groups _ = None"

definition b64_decode :: "string \<Rightarrow> string option" where
  "b64_decode s = b64_groups (filter (\<lambda>c. c \<noteq> CHR 0x0A \<and> c \<noteq> CHR 0x0D) s)"

section \<open>The signer\<close>

text \<open>
  The primitives of \<^verbatim>\<open>crypto/ed25519\<close>, the random source and the two decoders of a key file. A private key is its 64
  bytes, whose second half is the public key.
\<close>

datatype pem_key = PemNone | PemOther | PemNotEd25519 | PemBadPKCS8 | PemEd25519 string

record crypto =
  cr_sign :: "string \<Rightarrow> string \<Rightarrow> string"
  cr_verify :: "string \<Rightarrow> string \<Rightarrow> string \<Rightarrow> bool"
  cr_from_seed :: "string \<Rightarrow> string"
  cr_generate :: "string option"
  cr_pem_key :: "string \<Rightarrow> pem_key"

definition ed_public :: "string \<Rightarrow> string" where
  "ed_public priv = drop 32 priv"

record signer =
  sg_private :: string
  sg_public :: string

record signer_config =
  sc_key_base64 :: string
  sc_key_path :: string
  sc_dev_mode :: bool

datatype sign_err = SNoSigningKey | SInvalidKey | SInvalidPEMBlock | SBase64 | SReadKey ioerr | SParsePKCS8 | SGenerate

definition signer_of :: "string \<Rightarrow> signer" where
  "signer_of priv = \<lparr>sg_private = priv, sg_public = ed_public priv\<rparr>"

definition signerFromBase64 :: "crypto \<Rightarrow> string \<Rightarrow> sign_err + signer" where
  "signerFromBase64 cr encoded = (case b64_decode encoded of
     None \<Rightarrow> Inl SBase64
   | Some raw \<Rightarrow>
       if length raw = 32 then Inr (signer_of (cr_from_seed cr raw))
       else if length raw = 64 then Inr (signer_of raw)
       else Inl SInvalidKey)"

definition signerFromPEM :: "crypto \<Rightarrow> fs \<Rightarrow> string \<Rightarrow> sign_err + signer" where
  "signerFromPEM cr f path = (case read_file f (clean_path path) of
     Inl err \<Rightarrow> Inl (SReadKey err)
   | Inr txt' \<Rightarrow> (case cr_pem_key cr txt' of
       PemNone \<Rightarrow> Inl SInvalidPEMBlock
     | PemOther \<Rightarrow> Inl SInvalidPEMBlock
     | PemBadPKCS8 \<Rightarrow> Inl SParsePKCS8
     | PemNotEd25519 \<Rightarrow> Inl SInvalidKey
     | PemEd25519 priv \<Rightarrow> Inr (signer_of priv)))"

definition signerEphemeral :: "crypto \<Rightarrow> sign_err + signer" where
  "signerEphemeral cr = (case cr_generate cr of None \<Rightarrow> Inl SGenerate | Some priv \<Rightarrow> Inr (signer_of priv))"

definition NewSigner :: "crypto \<Rightarrow> fs \<Rightarrow> signer_config \<Rightarrow> sign_err + signer" where
  "NewSigner cr f cfg =
    (if sc_key_base64 cfg \<noteq> [] then signerFromBase64 cr (sc_key_base64 cfg)
     else if sc_key_path cfg \<noteq> [] then signerFromPEM cr f (sc_key_path cfg)
     else if sc_dev_mode cfg then signerEphemeral cr
     else Inl SNoSigningKey)"

definition Signer_Sign :: "crypto \<Rightarrow> signer \<Rightarrow> string \<Rightarrow> string" where
  "Signer_Sign cr s payload = cr_sign cr (sg_private s) payload"

definition Signer_Verify :: "crypto \<Rightarrow> signer \<Rightarrow> string \<Rightarrow> string \<Rightarrow> bool" where
  "Signer_Verify cr s payload sig = cr_verify cr (sg_public s) payload sig"

section \<open>The published key\<close>

text \<open>
  \<^verbatim>\<open>PublicKeyPEM\<close> with the two encoders of the standard library: \<^verbatim>\<open>x509.MarshalPKIXPublicKey\<close> puts the algorithm identifier of
  Ed25519 and a bit string around the key (lengths in one byte: a public key has 32), and \<^verbatim>\<open>pem.EncodeToMemory\<close> writes base64
  in lines of 64 characters between two markers.
\<close>

definition pkix_der :: "string \<Rightarrow> string" where
  "pkix_der pub = map char_of [0x30, length pub + 10, 0x30, 0x05, 0x06, 0x03, 0x2b, 0x65, 0x70, 0x03, length pub + 1, 0x00] @ pub"

function pem_lines :: "string \<Rightarrow> string" where
  "pem_lines s = (if s = [] then [] else take 64 s @ [newline] @ pem_lines (drop 64 s))"
  by pat_completeness auto
termination
  by (relation "measure length") auto

declare pem_lines.simps [simp del]

definition pem_begin :: string where "pem_begin = ''-----BEGIN PUBLIC KEY-----'' @ [newline]"
definition pem_end :: string where "pem_end = ''-----END PUBLIC KEY-----'' @ [newline]"

definition PublicKeyPEM :: "signer \<Rightarrow> string" where
  "PublicKeyPEM s = pem_begin @ pem_lines (b64_encode (pkix_der (sg_public s))) @ pem_end"

section \<open>Laws\<close>

lemma of_char_of_small: "n < 256 \<Longrightarrow> byte (char_of n) = n"
  by simp

lemma byte_eqD: "byte c \<noteq> byte d \<Longrightarrow> c \<noteq> d"
  by auto

lemma byte_b64_char: "n < 64 \<Longrightarrow> byte (b64_char n) =
  (if n < 26 then n + 65 else if n < 52 then n + 71 else if n < 62 then n - 4 else if n = 62 then 43 else 47)"
  unfolding b64_char_def by (subst of_char_of_small) auto

lemma b64_val_char [simp]: "n < 64 \<Longrightarrow> b64_val (b64_char n) = Some n"
  by (auto simp: b64_val_def byte_b64_char Let_def)

lemma b64_char_plain [simp]:
  assumes "n < 64"
  shows "b64_char n \<noteq> CHR ''=''" "b64_char n \<noteq> CHR 0x0A" "b64_char n \<noteq> CHR 0x0D"
  using byte_b64_char [OF assms] assms by (auto intro!: byte_eqD split: if_splits)

lemma byte_bounds [simp]:
  "byte c div 4 < 64" "byte c mod 4 * 16 < 64" "byte c mod 16 * 4 < 64" "byte c mod 64 < 64"
  "byte c mod 4 * 16 + byte d div 16 < 64" "byte c mod 16 * 4 + byte d div 64 < 64"
  using nat_of_char_less_256 [of c] nat_of_char_less_256 [of d] by linarith+

lemma two_digits: "y < (k::nat) \<Longrightarrow> (x * k + y) div k = x" "y < (k::nat) \<Longrightarrow> (x * k + y) mod k = y"
  by simp_all

lemma byte_quotients [simp]: "byte c div 16 < 16" "byte c div 64 < 4"
  using nat_of_char_less_256 [of c] by linarith+

lemma b64_groups_encode: "b64_groups (b64_encode s) = Some s"
proof (induction s rule: b64_encode.induct)
  case 1
  then show ?case by simp
next
  case (2 a)
  have "byte a div 4 * 4 + byte a mod 4 * 16 div 16 = byte a" by simp
  then show ?case by simp
next
  case (3 a b)
  then show ?case by (simp add: two_digits)
next
  case (4 a b c r)
  then show ?case by (simp add: two_digits)
qed

lemma b64_encode_plain: "filter (\<lambda>c. c \<noteq> CHR 0x0A \<and> c \<noteq> CHR 0x0D) (b64_encode s) = b64_encode s"
  by (induction s rule: b64_encode.induct) simp_all

lemma b64_roundtrip: "b64_decode (b64_encode s) = Some s"
  by (simp add: b64_decode_def b64_encode_plain b64_groups_encode)

text \<open>Lists of strings are decodable from the text that follows, whatever the strings contain.\<close>

lemma digits_then_colon:
  assumes "dec m @ CHR '':'' # x = dec n @ CHR '':'' # y"
  shows "m = n" "x = y"
proof -
  have d: "takeWhile is_digit (dec k @ CHR '':'' # z) = dec k" for k z
    using dec_digits [of k] by (simp add: takeWhile_append list_all_iff is_digit_def)
  from arg_cong [OF assms, of "takeWhile is_digit"] show "m = n" by (simp only: d dec_inject)
  with assms show "x = y" by simp
qed

lemma first_is_digit: "\<exists>c s. dec n = c # s \<and> is_digit c"
  using dec_digits [of n] dec_nonempty [of n] by (cases "dec n") auto

lemma lpj_Cons: "lengthPrefixedJoin (v # vs) =
  dec (length v) @ CHR '':'' # v @ (if vs = [] then [] else CHR '','' # lengthPrefixedJoin vs)"
  by (cases vs) simp_all

lemma lpj_nonempty: "vs \<noteq> [] \<Longrightarrow> \<exists>c s. lengthPrefixedJoin vs = c # s \<and> is_digit c"
proof (cases vs)
  case (Cons v us)
  then show ?thesis using first_is_digit [of "length v"] by (auto simp: lpj_Cons)
qed simp

lemma lpj_inject:
  "lengthPrefixedJoin xs @ newline # r = lengthPrefixedJoin ys @ newline # s \<Longrightarrow> xs = ys \<and> r = s"
proof (induction xs arbitrary: ys)
  case Nil
  then show ?case
    using lpj_nonempty [of ys] by (cases "ys = []") (auto simp: newline_def is_digit_def)
next
  case (Cons x xs)
  then obtain y ys' where ys: "ys = y # ys'"
    using lpj_nonempty [of "x # xs"] by (cases ys) (auto simp: newline_def is_digit_def)
  let ?t = "\<lambda>vs r. if vs = [] then newline # r else CHR '','' # lengthPrefixedJoin vs @ newline # r"
  have t: "lengthPrefixedJoin (v # vs) @ newline # r = dec (length v) @ CHR '':'' # v @ ?t vs r" for v vs r
    by (simp add: lpj_Cons)
  from Cons.prems have "dec (length x) @ CHR '':'' # x @ ?t xs r = dec (length y) @ CHR '':'' # y @ ?t ys' s"
    by (simp only: ys t)
  note this [THEN digits_then_colon(1)] this [THEN digits_then_colon(2)]
  then have "x = y" "?t xs r = ?t ys' s" by auto
  then show ?case using Cons.IH [of ys'] ys by (auto simp: newline_def split: if_splits)
qed

lemma writeListField_inject:
  "writeListField k xs @ r = writeListField k ys @ s \<longleftrightarrow> xs = ys \<and> r = s"
  using lpj_inject [of xs r ys s] by (auto simp: writeListField_def)

lemma line_inject: "newline \<notin> set v \<Longrightarrow> newline \<notin> set w \<Longrightarrow> v @ newline # r = w @ newline # s \<longleftrightarrow> v = w \<and> r = s"
  by (induction v arbitrary: w) (case_tac w; auto)+

lemma writeField_inject:
  "newline \<notin> set v \<Longrightarrow> newline \<notin> set w \<Longrightarrow> writeField k v @ r = writeField k w @ s \<longleftrightarrow> v = w \<and> r = s"
  using line_inject [of v w r s] by (simp add: writeField_def)

text \<open>What a signature covers: every field but the signature itself, the timestamp as it is printed.\<close>

definition signed_content :: "signed_record \<Rightarrow> signed_record \<times> string" where
  "signed_content r = (r\<lparr>sr_timestamp := zero_time, sr_signature := [], sr_signing_payload := []\<rparr>, fmt_millis (sr_timestamp r))"

definition single_line :: "signed_record \<Rightarrow> bool" where
  "single_line r \<longleftrightarrow> list_all (\<lambda>v. newline \<notin> set v)
    [sr_event_id r, sr_server_id r, sr_tenant_id r, sr_environment r, a_type (sr_actor r), a_id (sr_actor r),
     a_origin (sr_actor r), sr_tool r, sr_operation r, sr_input_hash r, sr_policy_ref r, sr_bundle_revision r,
     sr_profile_name r, dr_risk_level (sr_decision r), dr_reason (sr_decision r)]"

lemma pad_no_newline: "newline \<notin> set (pad k n)"
  using pad_digits [of k n] by (auto simp: list_all_iff is_digit_def newline_def)

lemma fmt_millis_line: "newline \<notin> set (fmt_millis t)"
  using pad_no_newline by (auto simp: fmt_millis_def fmt_seconds_def newline_def)

lemma format_bool_line: "newline \<notin> set (format_bool b)" "format_bool b = format_bool c \<longleftrightarrow> b = c"
  by (auto simp: format_bool_def newline_def)

lemma payload_inject:
  assumes "single_line r" "single_line q" "BuildSigningPayload r = BuildSigningPayload q"
  shows "signed_content r = signed_content q"
proof -
  have n: "writeListField k xs = writeListField k ys \<longleftrightarrow> xs = ys" for k xs ys
    using writeListField_inject [of k xs "[]" ys "[]"] by simp
  have "sr_event_id r = sr_event_id q \<and> fmt_millis (sr_timestamp r) = fmt_millis (sr_timestamp q)
    \<and> sr_server_id r = sr_server_id q \<and> sr_tenant_id r = sr_tenant_id q \<and> sr_environment r = sr_environment q
    \<and> a_type (sr_actor r) = a_type (sr_actor q) \<and> a_id (sr_actor r) = a_id (sr_actor q)
    \<and> a_origin (sr_actor r) = a_origin (sr_actor q) \<and> sr_tool r = sr_tool q \<and> sr_operation r = sr_operation q
    \<and> sr_input_hash r = sr_input_hash q \<and> sr_policy_ref r = sr_policy_ref q
    \<and> sr_bundle_revision r = sr_bundle_revision q \<and> sr_profile_name r = sr_profile_name q
    \<and> sr_decision r = sr_decision q"
    using assms
    by (simp add: single_line_def BuildSigningPayload_def writeField_inject writeListField_inject n fmt_millis_line
        format_bool_line)
  then show ?thesis
    by (simp add: signed_content_def)
qed

text \<open>The documented property of Ed25519: what a private key signs verifies under its public key.\<close>

definition ed25519_ok :: "crypto \<Rightarrow> bool" where
  "ed25519_ok cr \<longleftrightarrow> (\<forall>priv m. cr_verify cr (ed_public priv) m (cr_sign cr priv m))"

lemma NewSigner_pair: "NewSigner cr f cfg = Inr s \<Longrightarrow> sg_public s = ed_public (sg_private s)"
  by (auto simp: NewSigner_def signerFromBase64_def signerFromPEM_def signerEphemeral_def signer_of_def
      split: if_splits option.splits sum.splits pem_key.splits)

lemma sign_verifies:
  "ed25519_ok cr \<Longrightarrow> NewSigner cr f cfg = Inr s \<Longrightarrow> Signer_Verify cr s m (Signer_Sign cr s m)"
  by (simp add: ed25519_ok_def Signer_Verify_def Signer_Sign_def NewSigner_pair)

text \<open>How a reader takes the key out of the text: between the markers, base64, behind the twelve bytes of the wrapping.\<close>

definition read_public_key :: "string \<Rightarrow> string option" where
  "read_public_key text' =
    (if prefix pem_begin text' \<and> suffix pem_end text'
     then map_option (drop 12) (b64_decode (drop (length pem_begin) (take (length text' - length pem_end) text'))) else None)"

lemma filter_pem_lines:
  "\<not> P newline \<Longrightarrow> filter P (pem_lines s) = filter P s"
proof (induction s rule: pem_lines.induct)
  case (1 s)
  have "filter P (take 64 s) @ filter P (drop 64 s) = filter P s" by (metis append_take_drop_id filter_append)
  moreover have "pem_lines [] = []" by (simp add: pem_lines.simps [of "[]"])
  ultimately show ?case using 1 by (cases "s = []") (simp_all add: pem_lines.simps [of s])
qed

lemma PublicKeyPEM_read: "read_public_key (PublicKeyPEM s) = Some (sg_public s)"
proof -
  have "b64_decode (pem_lines (b64_encode x)) = Some x" for x
    using b64_roundtrip [of x] by (simp add: b64_decode_def filter_pem_lines newline_def)
  then have "read_public_key (PublicKeyPEM s) = Some (drop 12 (pkix_der (sg_public s)))"
    by (simp add: read_public_key_def PublicKeyPEM_def suffix_def)
  then show ?thesis by (simp add: pkix_der_def)
qed

end
