(* ===== verification/Keys.thy ===== *)
theory Keys
  imports Prelude GoTime "HOL-Library.Word"
begin

text \<open>
  \<^verbatim>\<open>internal/store/keys.go\<close> and \<^verbatim>\<open>internal/db/db.go\<close>: API keys in the two tables of \<^verbatim>\<open>migrations/001_keys.sql\<close> with their
  constraints (primary keys, the unique index on the key hash, the reference to the tenant), and the splitting of
  migration files. The database may refuse any statement; a transaction that fails is rolled back. \<open>sha\<close> is SHA-256.
\<close>

section \<open>Base 62\<close>

definition base62_alphabet :: string where
  "base62_alphabet = ''0123456789ABCDEFGHIJKLMNOPQRSTUVWXYZabcdefghijklmnopqrstuvwxyz''"

definition allZero :: "8 word list \<Rightarrow> bool" where
  "allZero b = list_all (\<lambda>v. v = 0) b"

text \<open>The inner loop: one long division by 62 in place, with the remainder of the bytes before.\<close>

fun divide62 :: "nat \<Rightarrow> 8 word list \<Rightarrow> 8 word list \<times> nat" where
  "divide62 remainder [] = ([], remainder)"
| "divide62 remainder (x # xs) =
    (let val = remainder * 256 + unat x;
         (q, r) = divide62 (val mod 62) xs
     in (word_of_nat (val div 62) # q, r))"

lemma unat_byte: "unat x < 256" for x :: "8 word"
proof -
  have "unat x < 2 ^ LENGTH(8)" by (rule unsigned_less)
  then show ?thesis by simp
qed

definition bytes_value :: "8 word list \<Rightarrow> nat" where
  "bytes_value b = foldl (\<lambda>a x. a * 256 + unat x) 0 b"

lemma bytes_value_from: "foldl (\<lambda>a x. a * 256 + unat x) n b = n * 256 ^ length b + bytes_value b" for b :: "8 word list"
proof (induction b arbitrary: n)
  case Nil
  then show ?case by (simp add: bytes_value_def)
next
  case (Cons x b)
  have "bytes_value (x # b) = unat x * 256 ^ length b + bytes_value b"
    using Cons.IH [of "unat x"] by (simp add: bytes_value_def)
  moreover have "foldl (\<lambda>a x. a * 256 + unat x) n (x # b) = (n * 256 + unat x) * 256 ^ length b + bytes_value b"
    using Cons.IH [of "n * 256 + unat x"] by simp
  ultimately show ?case by (simp add: algebra_simps)
qed

lemma bytes_value_simps [simp]:
  "bytes_value [] = 0" "bytes_value (x # b) = unat x * 256 ^ length b + bytes_value b"
  using bytes_value_from [of "unat x" b] by (simp_all add: bytes_value_def)

lemma bytes_value_less: "bytes_value b < 256 ^ length b"
proof (induction b)
  case Nil
  then show ?case by simp
next
  case (Cons x b)
  have "unat x \<le> 255" using unat_byte [of x] by simp
  then have "unat x * 256 ^ length b \<le> 255 * 256 ^ length b" by (rule mult_right_mono) simp
  with Cons show ?case unfolding bytes_value_simps length_Cons power_Suc by linarith
qed

lemma divide62_correct:
  assumes "divide62 r b = (q, r')" "r < 62"
  shows "r * 256 ^ length b + bytes_value b = bytes_value q * 62 + r' \<and> r' < 62 \<and> length q = length b"
  using assms
proof (induction b arbitrary: r q r')
  case Nil
  then show ?case by simp
next
  case (Cons x b)
  let ?val = "r * 256 + unat x"
  obtain q0 where q0: "divide62 (?val mod 62) b = (q0, r')" "q = word_of_nat (?val div 62) # q0"
    using Cons.prems by (auto simp: Let_def split: prod.splits)
  have ih: "?val mod 62 * 256 ^ length b + bytes_value b = bytes_value q0 * 62 + r'" "r' < 62" "length q0 = length b"
    using Cons.IH [OF q0(1)] by simp_all
  have "unat x < 256" using unat_byte [of x] by simp
  then have "?val div 62 < 256" using Cons.prems(2) by (auto simp: less_mult_imp_div_less)
  then have w: "unat (word_of_nat (?val div 62) :: 8 word) = ?val div 62"
    by (simp add: unat_of_nat take_bit_nat_def)
  have "r * 256 ^ length (x # b) + bytes_value (x # b) = ?val * 256 ^ length b + bytes_value b"
    by (simp add: algebra_simps)
  also have "\<dots> = (?val div 62 * 62 + ?val mod 62) * 256 ^ length b + bytes_value b" by simp
  also have "\<dots> = ?val div 62 * 256 ^ length b * 62 + (bytes_value q0 * 62 + r')"
    using ih(1) by (simp only: distrib_right)
  also have "\<dots> = bytes_value q * 62 + r'" using w ih(3) by (simp add: q0(2) algebra_simps)
  finally show ?case using ih(2,3) q0(2) by simp
qed

lemma allZero_value: "allZero b \<longleftrightarrow> bytes_value b = 0"
  by (induction b) (auto simp: allZero_def unat_eq_0)

function base62_loop :: "8 word list \<Rightarrow> string \<Rightarrow> string" where
  "base62_loop n result =
    (if allZero n then result
     else (let (q, remainder) = divide62 0 n in base62_loop q (result @ [base62_alphabet ! remainder])))"
  by pat_completeness auto
termination
proof (relation "measure (\<lambda>(n, result). bytes_value n)")
  fix n :: "8 word list" and result :: string and x q r
  assume a: "\<not> allZero n" "x = divide62 0 n" "(q, r) = x"
  then have "bytes_value n = bytes_value q * 62 + r" using divide62_correct [of 0 n q r] by simp
  moreover have "0 < bytes_value n" using a(1) by (simp add: allZero_value)
  ultimately have "bytes_value q < bytes_value n" by arith
  then show "((q, result @ [base62_alphabet ! r]), n, result) \<in> measure (\<lambda>(n, result). bytes_value n)" by simp
qed simp

declare base62_loop.simps [simp del]

definition base62Encode :: "8 word list \<Rightarrow> string" where
  "base62Encode b = rev (base62_loop b [])"

section \<open>Tables\<close>

record tenant_row =
  tr_id :: string
  tr_label :: string
  tr_created_at :: gtime

record key_row =
  kr_id :: string
  kr_tenant_id :: string
  kr_key_hash :: string
  kr_prefix :: string
  kr_label :: string
  kr_created_at :: gtime
  kr_revoked_at :: "gtime option"
  kr_last_used_at :: "gtime option"

record key_db =
  tenants :: "tenant_row list"
  api_keys :: "key_row list"

record key_record =
  kc_id :: string
  kc_tenant_id :: string
  kc_prefix :: string
  kc_label :: string
  kc_created_at :: gtime
  kc_last_used_at :: "gtime option"

datatype db_op = DbBegin | DbInsertTenant | DbInsertKey | DbCommit | DbQuery | DbUpdate

datatype key_err =
    KRand
  | KPanic
  | KBegin
  | KInsertTenant
  | KInsertKey
  | KCommit
  | KNotFound
  | KLookup

definition insert_tenant :: "(db_op \<Rightarrow> bool) \<Rightarrow> tenant_row \<Rightarrow> key_db \<Rightarrow> key_db option" where
  "insert_tenant refuses row db =
    (if refuses DbInsertTenant \<or> tr_id row \<in> tr_id ` set (tenants db) then None
     else Some (db\<lparr>tenants := tenants db @ [row]\<rparr>))"

definition insert_key :: "(db_op \<Rightarrow> bool) \<Rightarrow> key_row \<Rightarrow> key_db \<Rightarrow> key_db option" where
  "insert_key refuses row db =
    (if refuses DbInsertKey \<or> kr_id row \<in> kr_id ` set (api_keys db) \<or> kr_key_hash row \<in> kr_key_hash ` set (api_keys db)
        \<or> kr_tenant_id row \<notin> tr_id ` set (tenants db) then None
     else Some (db\<lparr>api_keys := api_keys db @ [row]\<rparr>))"

text \<open>
  \<^verbatim>\<open>CreateKey\<close>: \<open>tenantID\<close> and \<open>keyID\<close> are the generated ULIDs, \<open>raw\<close> the random bytes if there are any. Cutting the
  prefix panics when the text is shorter than twelve characters.
\<close>

definition CreateKey ::
  "(string \<Rightarrow> string) \<Rightarrow> (db_op \<Rightarrow> bool) \<Rightarrow> string \<Rightarrow> string \<Rightarrow> 8 word list option \<Rightarrow> gtime \<Rightarrow> string \<Rightarrow> key_db
    \<Rightarrow> (key_err + string \<times> key_record) \<times> key_db" where
  "CreateKey sha refuses tenantID keyID raw now label db = (case raw of
     None \<Rightarrow> (Inl KRand, db)
   | Some bs \<Rightarrow>
      (let plaintext = ''ev1_'' @ base62Encode bs in
       if length plaintext < 12 then (Inl KPanic, db)
       else if refuses DbBegin then (Inl KBegin, db)
       else (case insert_tenant refuses \<lparr>tr_id = tenantID, tr_label = label, tr_created_at = now\<rparr> db of
           None \<Rightarrow> (Inl KInsertTenant, db)
         | Some db1 \<Rightarrow>
            (case insert_key refuses \<lparr>kr_id = keyID, kr_tenant_id = tenantID, kr_key_hash = sha plaintext,
                 kr_prefix = take 12 plaintext, kr_label = label, kr_created_at = now,
                 kr_revoked_at = None, kr_last_used_at = None\<rparr> db1 of
               None \<Rightarrow> (Inl KInsertKey, db)
             | Some db2 \<Rightarrow>
                 if refuses DbCommit then (Inl KCommit, db)
                 else (Inr (plaintext, \<lparr>kc_id = keyID, kc_tenant_id = tenantID, kc_prefix = take 12 plaintext,
                     kc_label = label, kc_created_at = now, kc_last_used_at = None\<rparr>), db2)))))"

definition active :: "string \<Rightarrow> key_row \<Rightarrow> bool" where
  "active h row \<longleftrightarrow> kr_key_hash row = h \<and> kr_revoked_at row = None"

definition LookupKey :: "(string \<Rightarrow> string) \<Rightarrow> (db_op \<Rightarrow> bool) \<Rightarrow> string \<Rightarrow> key_db \<Rightarrow> key_err + string \<times> string \<times> string" where
  "LookupKey sha refuses plaintext db =
    (if refuses DbQuery then Inl KLookup
     else (case List.find (active (sha plaintext)) (api_keys db) of
         None \<Rightarrow> Inl KNotFound
       | Some row \<Rightarrow> Inr (kr_tenant_id row, kr_id row, kr_prefix row)))"

text \<open>\<^verbatim>\<open>TouchKey\<close>: the update that its goroutine makes; a failure is only logged.\<close>

definition TouchKey :: "(db_op \<Rightarrow> bool) \<Rightarrow> gtime \<Rightarrow> string \<Rightarrow> key_db \<Rightarrow> key_db" where
  "TouchKey refuses now keyID db =
    (if refuses DbUpdate then db
     else db\<lparr>api_keys := map (\<lambda>row. if kr_id row = keyID then row\<lparr>kr_last_used_at := Some now\<rparr> else row) (api_keys db)\<rparr>)"

section \<open>Migrations\<close>

definition is_sql_comment :: "string \<Rightarrow> bool" where
  "is_sql_comment line \<longleftrightarrow> prefix ''--'' (trim_space line)"

definition join_lines :: "string list \<Rightarrow> string" where
  "join_lines ls = concat (case ls of [] \<Rightarrow> [] | l # r \<Rightarrow> l # map (\<lambda>x. CHR 0x0A # x) r)"

definition splitStatements :: "string \<Rightarrow> string list" where
  "splitStatements sql = filter (\<lambda>s. s \<noteq> [])
    (map (\<lambda>raw. trim_space (join_lines (filter (\<lambda>l. \<not> is_sql_comment l) (split_on (CHR 0x0A) raw))))
      (split_on (CHR '';'') sql))"

text \<open>
  \<^verbatim>\<open>runMigrations\<close> on the embedded files, which are given with their names: files in name order, the statements of each
  in order, until one fails. \<open>exec\<close> runs a statement on the database.
\<close>

fun exec_all :: "(string \<Rightarrow> 'd \<Rightarrow> bool \<times> 'd) \<Rightarrow> string list \<Rightarrow> 'd \<Rightarrow> bool \<times> 'd" where
  "exec_all exec [] d = (True, d)"
| "exec_all exec (s # ss) d = (case exec s d of (ok, d') \<Rightarrow> if ok then exec_all exec ss d' else (False, d'))"

fun run_files :: "(string \<Rightarrow> 'd \<Rightarrow> bool \<times> 'd) \<Rightarrow> (string \<times> string) list \<Rightarrow> 'd \<Rightarrow> string option \<times> 'd" where
  "run_files exec [] d = (None, d)"
| "run_files exec ((name, sql) # fs) d = (case exec_all exec (splitStatements sql) d of
     (ok, d') \<Rightarrow> if ok then run_files exec fs d' else (Some name, d'))"

definition runMigrations :: "bool \<Rightarrow> (string \<Rightarrow> 'd \<Rightarrow> bool \<times> 'd) \<Rightarrow> (string \<times> string) list \<Rightarrow> 'd \<Rightarrow> string option \<times> 'd" where
  "runMigrations acquired exec files d =
    (let names = sort_key fst (filter (\<lambda>f. suffix ''.sql'' (fst f)) files) in
     if \<not> acquired then (Some ''acquire conn'', d)
     else (case run_files exec names d of (None, d') \<Rightarrow> (None, d') | (Some name, d') \<Rightarrow> (Some (''migration '' @ name), d')))"

text \<open>
  \<^verbatim>\<open>Connect\<close>: which of the pool's calls succeed is given; the result is the error, if any, whether the pool is still open,
  and the database.
\<close>

datatype connect_err = CreatePool | PingFailed | MigrateFailed string

definition Connect ::
  "bool \<Rightarrow> bool \<Rightarrow> bool \<Rightarrow> (string \<Rightarrow> 'd \<Rightarrow> bool \<times> 'd) \<Rightarrow> (string \<times> string) list \<Rightarrow> 'd \<Rightarrow> connect_err option \<times> bool \<times> 'd" where
  "Connect created reachable acquired exec files d =
    (if \<not> created then (Some CreatePool, False, d)
     else if \<not> reachable then (Some PingFailed, False, d)
     else (case runMigrations acquired exec files d of
         (Some msg, d') \<Rightarrow> (Some (MigrateFailed msg), False, d')
       | (None, d') \<Rightarrow> (None, True, d')))"

text \<open>A pool is left open exactly when it is returned, and then every statement of every file was run, in name order.\<close>

definition migration_statements :: "(string \<times> string) list \<Rightarrow> string list" where
  "migration_statements files = concat (map (splitStatements \<circ> snd) (sort_key fst (filter (\<lambda>f. suffix ''.sql'' (fst f)) files)))"

lemma exec_all_append: "exec_all exec (xs @ ys) d =
    (case exec_all exec xs d of (ok, d') \<Rightarrow> if ok then exec_all exec ys d' else (False, d'))"
  by (induction xs arbitrary: d) (auto split: prod.split)

lemma run_files_exec: "run_files exec fs d = (None, d') \<longleftrightarrow> exec_all exec (concat (map (splitStatements \<circ> snd) fs)) d = (True, d')"
proof (induction fs arbitrary: d)
  case (Cons f fs)
  obtain name sql where "f = (name, sql)" by force
  with Cons show ?case by (simp add: exec_all_append split: prod.split)
qed simp

lemma Connect_returns:
  "Connect created reachable acquired exec files d = (err, open', d') \<Longrightarrow> (open' \<longleftrightarrow> err = None) \<and>
    (err = None \<longleftrightarrow> created \<and> reachable \<and> acquired \<and> exec_all exec (migration_statements files) d = (True, d'))"
  using run_files_exec [of exec "sort_key fst (filter (\<lambda>f. suffix ''.sql'' (fst f)) files)" d]
  by (auto simp: Connect_def runMigrations_def migration_statements_def Let_def split: if_splits prod.splits option.splits)

text \<open>
  Restarting: when a statement only creates an object that is not there (\<^verbatim>\<open>IF NOT EXISTS\<close>), so that it succeeds and changes
  nothing once its object exists and no object goes away, a second connection finds the database as the first left it.
\<close>

definition creates_if_absent :: "(string \<Rightarrow> 'd \<Rightarrow> bool \<times> 'd) \<Rightarrow> (string \<Rightarrow> 'd \<Rightarrow> bool) \<Rightarrow> bool" where
  "creates_if_absent exec has \<longleftrightarrow> (\<forall>s d d'. exec s d = (True, d') \<longrightarrow> has s d' \<and> (\<forall>t. has t d \<longrightarrow> has t d'))
    \<and> (\<forall>s d. has s d \<longrightarrow> exec s d = (True, d))"

lemma creates_if_absentD:
  assumes "creates_if_absent exec has"
  shows "exec s d = (True, d') \<Longrightarrow> has s d'" "exec s d = (True, d') \<Longrightarrow> has t d \<Longrightarrow> has t d'" "has s d \<Longrightarrow> exec s d = (True, d)"
  using assms unfolding creates_if_absent_def by blast+

lemma exec_all_has:
  "creates_if_absent exec has \<Longrightarrow> exec_all exec ss d = (True, d') \<Longrightarrow>
    (\<forall>s \<in> set ss. has s d') \<and> (\<forall>t. has t d \<longrightarrow> has t d')"
proof (induction ss arbitrary: d)
  case (Cons s ss)
  then obtain d1 where d1: "exec s d = (True, d1)" "exec_all exec ss d1 = (True, d')" by (auto split: prod.splits if_splits)
  with Cons.IH [OF Cons.prems(1) d1(2)] creates_if_absentD(1,2) [OF Cons.prems(1) d1(1)] show ?case by auto
qed simp

lemma exec_all_again: "creates_if_absent exec has \<Longrightarrow> \<forall>s \<in> set ss. has s d \<Longrightarrow> exec_all exec ss d = (True, d)"
  by (induction ss) (simp_all add: creates_if_absentD(3))

lemma Connect_again:
  assumes "creates_if_absent exec has" "Connect c r a exec files d = (None, open', d')"
  shows "Connect True True True exec files d' = (None, True, d')"
proof -
  have e: "exec_all exec (migration_statements files) d = (True, d')" using Connect_returns [OF assms(2)] by simp
  then have "exec_all exec (migration_statements files) d' = (True, d')"
    using exec_all_has [OF assms(1) e] exec_all_again [OF assms(1)] by blast
  then show ?thesis
    using run_files_exec [of exec "sort_key fst (filter (\<lambda>f. suffix ''.sql'' (fst f)) files)" d' d']
    by (simp add: Connect_def runMigrations_def migration_statements_def Let_def)
qed

section \<open>Laws of base 62\<close>

definition base62_digit :: "char \<Rightarrow> nat" where
  "base62_digit c = length (takeWhile (\<lambda>x. x \<noteq> c) base62_alphabet)"

definition base62_value :: "string \<Rightarrow> nat" where
  "base62_value s = foldl (\<lambda>a c. a * 62 + base62_digit c) 0 s"

lemma alphabet_props: "distinct base62_alphabet" "length base62_alphabet = 62"
  by (simp_all add: base62_alphabet_def)

lemma takeWhile_nth: "distinct xs \<Longrightarrow> i < length xs \<Longrightarrow> length (takeWhile (\<lambda>x. x \<noteq> xs ! i) xs) = i"
proof (induction xs arbitrary: i)
  case (Cons a xs)
  then show ?case by (cases i) auto
qed simp

lemma base62_digit_nth [simp]: "r < 62 \<Longrightarrow> base62_digit (base62_alphabet ! r) = r"
  using alphabet_props by (simp add: base62_digit_def takeWhile_nth)

lemma base62_value_from: "foldl (\<lambda>a c. a * 62 + base62_digit c) n s = n * 62 ^ length s + base62_value s"
proof (induction s arbitrary: n)
  case Nil
  then show ?case by (simp add: base62_value_def)
next
  case (Cons c s)
  have "base62_value (c # s) = base62_digit c * 62 ^ length s + base62_value s"
    using Cons.IH [of "base62_digit c"] by (simp add: base62_value_def)
  then show ?case using Cons.IH [of "n * 62 + base62_digit c"] by (simp add: algebra_simps)
qed

lemma base62_value_simps [simp]:
  "base62_value [] = 0" "base62_value (c # s) = base62_digit c * 62 ^ length s + base62_value s"
  using base62_value_from [of "base62_digit c" s] by (simp_all add: base62_value_def)

lemma divide62_step:
  assumes "divide62 0 n = (q, r)"
  shows "bytes_value n = bytes_value q * 62 + r" "r < 62"
  using divide62_correct [OF assms] by simp_all

lemma base62_loop_value:
  "base62_value (rev (base62_loop n res)) = bytes_value n * 62 ^ length res + base62_value (rev res)"
proof (induction n res rule: base62_loop.induct)
  case (1 n res)
  show ?case
  proof (cases "allZero n")
    case True
    then show ?thesis by (simp add: base62_loop.simps [of n] allZero_value)
  next
    case False
    obtain q r where qr: "divide62 0 n = (q, r)" by force
    note s = divide62_step [OF qr]
    have "base62_value (rev (base62_loop n res)) = base62_value (rev (base62_loop q (res @ [base62_alphabet ! r])))"
      using False qr by (simp add: base62_loop.simps [of n])
    also have "\<dots> = bytes_value q * 62 ^ Suc (length res) + r * 62 ^ length res + base62_value (rev res)"
      using 1 [OF False refl, of q r] qr s(2) by simp
    finally show ?thesis using s(1) by (simp add: algebra_simps)
  qed
qed

lemma base62_loop_length: "length res \<le> length (base62_loop n res)"
proof (induction n res rule: base62_loop.induct)
  case (1 n res)
  obtain q r where "divide62 0 n = (q, r)" by force
  with 1 [of _ q r] show ?case by (cases "allZero n") (simp_all add: base62_loop.simps [of n])
qed

lemma base62_loop_length_iff: "length (base62_loop n res) \<le> length res + k \<longleftrightarrow> bytes_value n < 62 ^ k"
proof (induction k arbitrary: n res)
  case 0
  obtain q r where qr: "divide62 0 n = (q, r)" by force
  have "\<not> length (base62_loop q (res @ [base62_alphabet ! r])) \<le> length res"
    using base62_loop_length [of "res @ [base62_alphabet ! r]" q] by simp
  then show ?case using qr allZero_value [of n] by (simp add: base62_loop.simps [of n])
next
  case (Suc k)
  obtain q r where qr: "divide62 0 n = (q, r)" by force
  note s = divide62_step [OF qr]
  show ?case
  proof (cases "allZero n")
    case True
    then show ?thesis by (simp add: base62_loop.simps [of n] allZero_value)
  next
    case False
    have "length (base62_loop n res) \<le> length res + Suc k \<longleftrightarrow> bytes_value q < 62 ^ k"
      using False qr Suc.IH [of q "res @ [base62_alphabet ! r]"] by (simp add: base62_loop.simps [of n])
    also have "\<dots> \<longleftrightarrow> bytes_value n < 62 ^ Suc k"
      using s by auto
    finally show ?thesis .
  qed
qed

lemma base62Encode_value: "base62_value (base62Encode b) = bytes_value b"
  by (simp add: base62Encode_def base62_loop_value)

lemma base62Encode_length: "length (base62Encode b) \<le> k \<longleftrightarrow> bytes_value b < 62 ^ k"
  using base62_loop_length_iff [of b "[]" k] by (simp add: base62Encode_def)

lemma bytes_value_inject: "length a = length b \<Longrightarrow> bytes_value a = bytes_value b \<Longrightarrow> a = b"
proof (induction a arbitrary: b)
  case (Cons x a)
  then obtain y c where b: "b = y # c" "length a = length c" by (cases b) auto
  have l: "bytes_value a < 256 ^ length a" "bytes_value c < 256 ^ length a"
    using bytes_value_less [of a] bytes_value_less [of c] b by simp_all
  have e: "unat x * 256 ^ length a + bytes_value a = unat y * 256 ^ length a + bytes_value c"
    using Cons.prems b by simp
  from arg_cong [OF e, of "\<lambda>v. v div 256 ^ length a"] have "unat x = unat y" using l by simp
  then show ?case using e b Cons.IH [of c] by (simp add: unsigned_word_eqI)
qed simp

section \<open>Laws of the key store\<close>

definition keys_ok :: "key_db \<Rightarrow> bool" where
  "keys_ok db \<longleftrightarrow> distinct (map tr_id (tenants db)) \<and> distinct (map kr_id (api_keys db))
    \<and> distinct (map kr_key_hash (api_keys db)) \<and> kr_tenant_id ` set (api_keys db) \<subseteq> tr_id ` set (tenants db)"

lemma insert_tenant_ok: "keys_ok db \<Longrightarrow> insert_tenant refuses row db = Some db' \<Longrightarrow> keys_ok db' \<and> api_keys db' = api_keys db"
  by (auto simp: insert_tenant_def keys_ok_def image_subset_iff split: if_splits)

lemma insert_key_ok: "keys_ok db \<Longrightarrow> insert_key refuses row db = Some db' \<Longrightarrow>
    keys_ok db' \<and> api_keys db' = api_keys db @ [row] \<and> kr_key_hash row \<notin> kr_key_hash ` set (api_keys db)"
  by (auto simp: insert_key_def keys_ok_def image_subset_iff split: if_splits)

text \<open>A failed call leaves the tables as they were; a successful one adds one active row.\<close>

lemma CreateKey_failed:
  "CreateKey sha refuses tenantID keyID raw now label db = (Inl err, db') \<Longrightarrow> db' = db"
  by (auto simp: CreateKey_def Let_def split: option.splits if_splits)

lemma CreateKey_succeeded:
  assumes "keys_ok db" "CreateKey sha refuses tenantID keyID raw now label db = (Inr (p, rec), db')"
  obtains row where "keys_ok db'" "api_keys db' = api_keys db @ [row]" "active (sha p) row"
    "sha p \<notin> kr_key_hash ` set (api_keys db)" "kr_tenant_id row = kc_tenant_id rec" "kr_id row = kc_id rec"
    "kr_prefix row = kc_prefix rec"
proof -
  obtain bs where bs: "raw = Some bs" using assms(2) by (cases raw) (auto simp: CreateKey_def)
  let ?p = "''ev1_'' @ base62Encode bs"
  let ?row = "\<lparr>kr_id = keyID, kr_tenant_id = tenantID, kr_key_hash = sha ?p, kr_prefix = take 12 ?p, kr_label = label,
    kr_created_at = now, kr_revoked_at = None, kr_last_used_at = None\<rparr>"
  obtain db1 where t: "insert_tenant refuses \<lparr>tr_id = tenantID, tr_label = label, tr_created_at = now\<rparr> db = Some db1"
    using assms(2) bs by (auto simp: CreateKey_def Let_def split: option.splits if_splits)
  then have k: "insert_key refuses ?row db1 = Some db'" and p: "p = ?p"
    and r: "rec = \<lparr>kc_id = keyID, kc_tenant_id = tenantID, kc_prefix = take 12 ?p, kc_label = label, kc_created_at = now,
      kc_last_used_at = None\<rparr>"
    using assms(2) bs by (auto simp: CreateKey_def Let_def split: option.splits if_splits)
  note t' = insert_tenant_ok [OF assms(1) t]
  note k' = insert_key_ok [OF conjunct1 [OF t'] k]
  show ?thesis by (rule that [of ?row]) (use t' k' p r in \<open>simp_all add: active_def\<close>)
qed

lemma keys_ok_TouchKey:
  assumes "keys_ok db"
  shows "keys_ok (TouchKey refuses now k db)"
proof -
  let ?g = "\<lambda>row :: key_row. if kr_id row = k then row\<lparr>kr_last_used_at := Some now\<rparr> else row"
  have m: "map kr_id (map ?g xs) = map kr_id xs" "map kr_key_hash (map ?g xs) = map kr_key_hash xs"
    "map kr_tenant_id (map ?g xs) = map kr_tenant_id xs" for xs
    by (induction xs) simp_all
  then show ?thesis
    using assms unfolding keys_ok_def set_map [symmetric] by (simp add: TouchKey_def del: map_map set_map)
qed

lemma find_map_same: "(\<And>x. P (g x) = P x) \<Longrightarrow> List.find P (map g xs) = map_option g (List.find P xs)"
  by (induction xs) auto

lemma LookupKey_TouchKey: "LookupKey sha r2 p (TouchKey refuses now k db) = LookupKey sha r2 p db"
  by (simp add: LookupKey_def TouchKey_def find_map_same active_def split: option.splits)

end
