(* ===== verification/Api.thy ===== *)
theory Api
  imports Signing Keys
begin

text \<open>
  \<^verbatim>\<open>internal/auth\<close> and \<^verbatim>\<open>internal/api\<close>: authentication, key issuance with its rate limit, the validate endpoint that
  returns a signed record, and the router with its middleware. A handler maps a request and the server's state
  (the key tables and the rate limiter) to a response, \<^const>\<open>None\<close> when it panics. Logging and the delay before a 401
  answer are not modelled, nor is the file server behind the embedded UI, which is a parameter.
\<close>

record request =
  rq_method :: string
  rq_path :: string
  rq_header :: "string \<Rightarrow> string"
  rq_remote_addr :: string
  rq_body :: string

record response =
  rs_status :: nat
  rs_headers :: "(string \<times> string) list"
  rs_body :: string

record api_state =
  as_db :: key_db
  as_rl :: "string \<Rightarrow> int list"

text \<open>
  What one request draws from outside: the clock (wall clock for records, monotonic nanoseconds for the limiter), the
  identifiers and random bytes that are generated, and the statements the database refuses.
\<close>

record draw =
  dw_now :: gtime
  dw_mono :: int
  dw_event :: string
  dw_tenant :: string
  dw_key :: string
  dw_random :: "8 word list option"
  dw_refuses :: "db_op \<Rightarrow> bool"

text \<open>\<^verbatim>\<open>strconv.Quote\<close> and the text of a JSON decoding error, which only appear in messages.\<close>

record api_world =
  aw_sha :: "string \<Rightarrow> string"
  aw_crypto :: crypto
  aw_quote :: "string \<Rightarrow> string"
  aw_json_error :: "string \<Rightarrow> string"

section \<open>Responses\<close>

definition writeJSON :: "nat \<Rightarrow> json \<Rightarrow> response" where
  "writeJSON st v = \<lparr>rs_status = st, rs_headers = [(''Content-Type'', ''application/json'')],
     rs_body = marshal v @ [CHR 0x0A]\<rparr>"

definition writeError :: "nat \<Rightarrow> string \<Rightarrow> response" where
  "writeError st msg = writeJSON st (JObj [(''error'', JStr msg)])"

definition with_header :: "string \<Rightarrow> string \<Rightarrow> response \<Rightarrow> response" where
  "with_header n v r = r\<lparr>rs_headers := (n, v) # rs_headers r\<rparr>"

section \<open>Authentication\<close>

definition extractBearerToken :: "request \<Rightarrow> string" where
  "extractBearerToken r =
    (let h = rq_header r ''Authorization'' in if prefix ''Bearer '' h then drop 7 h else [])"

definition authFail :: response where
  "authFail = \<lparr>rs_status = 401,
     rs_headers = [(''WWW-Authenticate'', ''Bearer realm='' @ [CHR 0x22] @ ''evidra'' @ [CHR 0x22]), (''Content-Type'', ''application/json'')],
     rs_body = marshal (JObj [(''error'', JStr ''unauthorized''),
       (''help'', JStr ''generate a key at https://evidra.samebits.com/get-started'')])\<rparr>"

text \<open>A handler behind the middleware gets the tenant of the request's context.\<close>

type_synonym handler = "request \<Rightarrow> api_state \<Rightarrow> response option \<times> api_state"

definition StaticKeyMiddleware :: "string \<Rightarrow> (string \<Rightarrow> handler) \<Rightarrow> handler" where
  "StaticKeyMiddleware apiKey next_h r st =
    (let token = extractBearerToken r in
     if token = [] then (Some authFail, st)
     else if token \<noteq> apiKey then (Some authFail, st)
     else next_h ''static'' r st)"

definition KeyStoreMiddleware :: "(string \<Rightarrow> string) \<Rightarrow> draw \<Rightarrow> (string \<Rightarrow> handler) \<Rightarrow> handler" where
  "KeyStoreMiddleware sha dw next_h r st =
    (let token = extractBearerToken r in
     if token = [] then (Some authFail, st)
     else (case LookupKey sha (dw_refuses dw) token (as_db st) of
         Inl _ \<Rightarrow> (Some authFail, st)
       | Inr (tenantID, keyID, _) \<Rightarrow>
           next_h tenantID r (st\<lparr>as_db := TouchKey (dw_refuses dw) (dw_now dw) keyID (as_db st)\<rparr>)))"

section \<open>Key issuance\<close>

definition rateLimit :: nat where "rateLimit = 3"
definition rateWindow :: int where "rateWindow = 3600 * 1000000000"
definition maxLabelLen :: nat where "maxLabelLen = 128"

definition rl_allow :: "int \<Rightarrow> string \<Rightarrow> (string \<Rightarrow> int list) \<Rightarrow> bool \<times> (string \<Rightarrow> int list)" where
  "rl_allow now ip rl =
    (let fresh = filter (\<lambda>t. now - rateWindow < t) (rl ip) in
     if rateLimit \<le> length fresh then (False, rl(ip := fresh)) else (True, rl(ip := fresh @ [now])))"

definition cut_last_colon :: "string \<Rightarrow> string" where
  "cut_last_colon s = (if CHR '':'' \<in> set s then butlast (rev (dropWhile (\<lambda>c. c \<noteq> CHR '':'') (rev s))) else s)"

definition clientIP :: "request \<Rightarrow> string" where
  "clientIP r =
    (let xff = rq_header r ''X-Forwarded-For'' in
     if xff \<noteq> [] then trim_space (takeWhile (\<lambda>c. c \<noteq> CHR '','') xff) else cut_last_colon (rq_remote_addr r))"

text \<open>
  \<^verbatim>\<open>json.NewDecoder(r.Body).Decode\<close> reads the first value of the body and leaves what follows; the body ends at the limit
  of \<^verbatim>\<open>bodyLimitMiddleware\<close>.
\<close>

definition maxBodyBytes :: nat where "maxBodyBytes = 1048576"

definition decode_first :: "string \<Rightarrow> json option" where
  "decode_first s = map_option fst (p_val (Suc (length s)) s)"

definition d_label :: "json \<Rightarrow> string option" where
  "d_label v = (case v of JObj ms \<Rightarrow> field d_str [] ''label'' ms | JNull \<Rightarrow> Some [] | _ \<Rightarrow> None)"

definition request_label :: "request \<Rightarrow> string" where
  "request_label r =
    (if contains_str (rq_header r ''Content-Type'') ''application/json''
     then (case Option.bind (decode_first (rq_body r)) d_label of None \<Rightarrow> [] | Some l \<Rightarrow> l) else [])"

definition key_response :: "string \<Rightarrow> key_record \<Rightarrow> json" where
  "key_response plaintext rec = to_json (GMap [(''key'', GStr plaintext), (''prefix'', GStr (kc_prefix rec)),
     (''tenant_id'', GStr (kc_tenant_id rec)), (''created_at'', GStr (fmt_rfc3339 (kc_created_at rec)))])"

definition handleKeys :: "api_world \<Rightarrow> draw \<Rightarrow> bool \<Rightarrow> string \<Rightarrow> handler" where
  "handleKeys w dw hasStore inviteSecret r st =
    (if \<not> hasStore then
       (Some (writeError 501 ''key self-service requires a database; contact the admin to obtain an API key''), st)
     else if inviteSecret \<noteq> [] \<and> rq_header r ''X-Invite-Token'' \<noteq> inviteSecret then
       (Some (writeError 403 ''invalid invite token''), st)
     else (case rl_allow (dw_mono dw) (clientIP r) (as_rl st) of (ok, rl') \<Rightarrow>
       (let st1 = st\<lparr>as_rl := rl'\<rparr> in
        if \<not> ok then
          (Some (with_header ''Retry-After'' ''3600'' (writeError 429 ''rate limit exceeded: 3 keys per hour per IP'')), st1)
        else if maxLabelLen < length (request_label r) then
          (Some (writeError 400 ''label exceeds 128 characters''), st1)
        else (case CreateKey (aw_sha w) (dw_refuses dw) (dw_tenant dw) (dw_key dw) (dw_random dw) (dw_now dw)
                     (request_label r) (as_db st1) of
            (Inl KPanic, db') \<Rightarrow> (None, st1\<lparr>as_db := db'\<rparr>)
          | (Inl _, db') \<Rightarrow> (Some (writeError 500 ''failed to create key''), st1\<lparr>as_db := db'\<rparr>)
          | (Inr (plaintext, rec), db') \<Rightarrow>
              (Some (with_header ''Cache-Control'' ''no-store'' (writeJSON 201 (key_response plaintext rec))),
               st1\<lparr>as_db := db'\<rparr>)))))"

section \<open>Validation\<close>

definition d_invocation :: "json \<Rightarrow> tool_invocation option" where
  "d_invocation v = (case v of
     JNull \<Rightarrow> Some \<lparr>ti_actor = zero_actor, ti_tool = [], ti_operation = [], ti_params = None, ti_context = None, ti_environment = []\<rparr>
   | JObj ms \<Rightarrow> do {
       ac \<leftarrow> field d_actor zero_actor ''actor'' ms;
       tl' \<leftarrow> field d_str [] ''tool'' ms;
       op \<leftarrow> field d_str [] ''operation'' ms;
       pa \<leftarrow> field d_map None ''params'' ms;
       cx \<leftarrow> field d_map None ''context'' ms;
       en \<leftarrow> field d_str [] ''environment'' ms;
       Some \<lparr>ti_actor = ac, ti_tool = tl', ti_operation = op, ti_params = pa, ti_context = cx, ti_environment = en\<rparr> }
   | _ \<Rightarrow> None)"

text \<open>The members of a map that are present under the given keys.\<close>

definition keep_keys :: "string list \<Rightarrow> gmap \<Rightarrow> gmap" where
  "keep_keys ks m = List.map_filter (\<lambda>k. map_option (\<lambda>v. (k, v)) (gget m k)) ks"

definition buildCanonicalAction :: "tool_invocation \<Rightarrow> gmap \<Rightarrow> tool_invocation" where
  "buildCanonicalAction ti params = ti\<lparr>ti_params := Some
     ((''action'', GMap ((''kind'', GStr (ti_tool ti @ ''.'' @ ti_operation ti))
        # keep_keys [''target'', ''payload'', ''risk_tags''] params))
      # keep_keys [''scenario_id''] params)\<rparr>"

definition canonical_invocation :: "tool_invocation \<Rightarrow> tool_invocation" where
  "canonical_invocation ti = (case ti_params ti of
     None \<Rightarrow> ti
   | Some params \<Rightarrow> if gget params ''action'' = None then buildCanonicalAction ti params else ti)"

definition payload_checks :: "tool_invocation \<Rightarrow> (string \<times> string) list" where
  "payload_checks ti = [(''actor.type'', a_type (ti_actor ti)), (''actor.id'', a_id (ti_actor ti)),
     (''actor.origin'', a_origin (ti_actor ti)), (''tool'', ti_tool ti), (''operation'', ti_operation ti),
     (''environment'', ti_environment ti)]"

definition has_line_break :: "string \<Rightarrow> bool" where
  "has_line_break s \<longleftrightarrow> CHR 0x0A \<in> set s \<or> CHR 0x0D \<in> set s"

definition validatePayloadFields :: "tool_invocation \<Rightarrow> string option" where
  "validatePayloadFields ti = map_option fst (List.find (\<lambda>c. has_line_break (snd c)) (payload_checks ti))"

definition inv_err_text :: "(string \<Rightarrow> string) \<Rightarrow> inv_err \<Rightarrow> string" where
  "inv_err_text quote err = (case err of
     Required f \<Rightarrow> f @ '' is required''
   | MustBeObject k \<Rightarrow> ''field '' @ [CHR 0x27] @ k @ [CHR 0x27] @ '' must be a JSON object''
   | RiskTagsNotList \<Rightarrow> ''field '' @ [CHR 0x27] @ ''risk_tags'' @ [CHR 0x27] @ '' must be a list of strings''
   | UnknownKey sect k \<Rightarrow> ''unknown '' @ sect @ '' key: '' @ quote k)"

definition pol_err_text :: "pol_err \<Rightarrow> string" where
  "pol_err_text err = (case err of
     PInvalidAction \<Rightarrow> ''MCP must use params.action (single action); for multiple operations call validate once per action''
   | PEval msg \<Rightarrow> msg
   | PMalformed what \<Rightarrow>
       if what \<in> {''allow'', ''reason'', ''risk_level''} then ''policy decision '' @ what @ '' is missing or invalid'' else what
   | PLoad msg \<Rightarrow> msg)"

definition engine_err_text :: "(string \<Rightarrow> string) \<Rightarrow> engine_err \<Rightarrow> string" where
  "engine_err_text quote err = ''engine.Evaluate: '' @
     (case err of EngInvalid e \<Rightarrow> inv_err_text quote e | EngPolicy e \<Rightarrow> pol_err_text e)"

definition isValidationError :: "string \<Rightarrow> bool" where
  "isValidationError msg \<longleftrightarrow> contains_str msg ''is required'' \<or> contains_str msg ''must be'' \<or> contains_str msg ''unknown''"

definition decision_record_json :: "decision_record \<Rightarrow> json" where
  "decision_record_json d = JObj
    ([(''allow'', JBool (dr_allow d)), (''risk_level'', JStr (dr_risk_level d)), (''reason'', JStr (dr_reason d))]
     @ omit (dr_reasons d = []) ''reasons'' (JArr (map JStr (dr_reasons d)))
     @ omit (dr_hints d = []) ''hints'' (JArr (map JStr (dr_hints d)))
     @ omit (dr_hits d = []) ''hits'' (JArr (map JStr (dr_hits d)))
     @ omit (dr_rule_ids d = []) ''rule_ids'' (JArr (map JStr (dr_rule_ids d))))"

definition signed_record_json :: "signed_record \<Rightarrow> json" where
  "signed_record_json r = JObj
    ([(''event_id'', JStr (sr_event_id r)), (''timestamp'', JStr (fmt_rfc3339_nano (sr_timestamp r))),
      (''server_id'', JStr (sr_server_id r)), (''tenant_id'', JStr (sr_tenant_id r))]
     @ omit (sr_environment r = []) ''environment'' (JStr (sr_environment r))
     @ [(''actor'', actor_json (sr_actor r)), (''tool'', JStr (sr_tool r)), (''operation'', JStr (sr_operation r)),
        (''input_hash'', JStr (sr_input_hash r)), (''policy_ref'', JStr (sr_policy_ref r))]
     @ omit (sr_bundle_revision r = []) ''bundle_revision'' (JStr (sr_bundle_revision r))
     @ omit (sr_profile_name r = []) ''profile_name'' (JStr (sr_profile_name r))
     @ [(''decision'', decision_record_json (sr_decision r)), (''signature'', JStr (sr_signature r)),
        (''signing_payload'', JStr (sr_signing_payload r))])"

definition sign_record :: "crypto \<Rightarrow> signer \<Rightarrow> signed_record \<Rightarrow> signed_record" where
  "sign_record cr s r =
    (let payload = BuildSigningPayload r in
     r\<lparr>sr_signing_payload := payload, sr_signature := b64_encode (Signer_Sign cr s payload)\<rparr>)"

definition handleValidate ::
  "api_world \<Rightarrow> draw \<Rightarrow> evaluator \<Rightarrow> signer \<Rightarrow> builder_config \<Rightarrow> string \<Rightarrow> request \<Rightarrow> response" where
  "handleValidate w dw eng s cfg tenant r =
    (if rq_method r \<noteq> ''POST'' then writeError 405 ''method not allowed''
     else (case Option.bind (decode_first (rq_body r)) d_invocation of
         None \<Rightarrow> writeError 400 (''invalid JSON: '' @ aw_json_error w (rq_body r))
       | Some ti0 \<Rightarrow>
          (let ti = canonical_invocation ti0 in
           case validatePayloadFields ti of
             Some name \<Rightarrow> writeError 400 (''field '' @ aw_quote w name @ '' must not contain newline characters'')
           | None \<Rightarrow> (case Adapter_Evaluate eng ti of
               Inl err \<Rightarrow>
                 if isValidationError (engine_err_text (aw_quote w) err)
                 then writeError 400 (engine_err_text (aw_quote w) err)
                 else writeError 500 ''policy evaluation failed''
             | Inr d \<Rightarrow> writeJSON 200 (signed_record_json (sign_record (aw_crypto w) s
                 (BuildRecord (aw_sha w) (dw_event dw) (dw_now dw) (cfg\<lparr>bc_tenant_id := tenant\<rparr>) d ti)))))))"

section \<open>The other endpoints\<close>

definition handleHealthz :: response where
  "handleHealthz = writeJSON 200 (JObj [(''status'', JStr ''ok'')])"

definition handleReadyz :: "bool \<Rightarrow> response" where
  "handleReadyz reachable =
    (if \<not> reachable then writeJSON 503 (JObj [(''error'', JStr ''database unreachable''), (''status'', JStr ''degraded'')])
     else writeJSON 200 (JObj [(''status'', JStr ''ok'')]))"

text \<open>\<open>pem\<close> is the outcome of \<^verbatim>\<open>PublicKeyPEM\<close>.\<close>

definition handlePubkey :: "string option \<Rightarrow> response" where
  "handlePubkey pem = (case pem of
     None \<Rightarrow> writeError 500 ''internal error''
   | Some text' \<Rightarrow> \<lparr>rs_status = 200, rs_headers = [(''Content-Type'', ''application/x-pem-file'')], rs_body = text'\<rparr>)"

definition auth_check :: "string \<Rightarrow> response" where
  "auth_check tenantID = \<lparr>rs_status = 200, rs_headers = [(''X-Evidra-Tenant'', tenantID)], rs_body = []\<rparr>"

section \<open>The router\<close>

record router_config =
  rc_engine :: evaluator
  rc_signer :: signer
  rc_api_key :: string
  rc_server_id :: string
  rc_ui :: "(request \<Rightarrow> response) option"
  rc_has_store :: bool
  rc_has_db :: bool
  rc_invite_secret :: string
  rc_pubkey_pem :: "string option"

definition lift_h :: "(request \<Rightarrow> response) \<Rightarrow> handler" where
  "lift_h h r st = (Some (h r), st)"

definition auth_mw :: "api_world \<Rightarrow> draw \<Rightarrow> router_config \<Rightarrow> (string \<Rightarrow> handler) \<Rightarrow> handler" where
  "auth_mw w dw cfg =
    (if rc_has_store cfg then KeyStoreMiddleware (aw_sha w) dw else StaticKeyMiddleware (rc_api_key cfg))"

text \<open>The routes: method patterns (a GET pattern also serves HEAD), path, handler. \<open>reachable\<close> is the outcome of \<^verbatim>\<open>Ping\<close>.\<close>

definition routes :: "api_world \<Rightarrow> draw \<Rightarrow> bool \<Rightarrow> router_config \<Rightarrow> (string list \<times> string \<times> handler) list" where
  "routes w dw reachable cfg =
    [([''GET'', ''HEAD''], ''/healthz'', lift_h (\<lambda>_. handleHealthz)),
     ([''GET'', ''HEAD''], ''/v1/evidence/pubkey'', lift_h (\<lambda>_. handlePubkey (rc_pubkey_pem cfg))),
     ([''POST''], ''/v1/keys'', handleKeys w dw (rc_has_store cfg) (rc_invite_secret cfg))]
    @ (if rc_has_db cfg then [([''GET'', ''HEAD''], ''/readyz'', lift_h (\<lambda>_. handleReadyz reachable))] else [])
    @ [([''GET'', ''HEAD''], ''/auth/check'', auth_mw w dw cfg (\<lambda>tenant. lift_h (\<lambda>_. auth_check tenant))),
       ([''POST''], ''/v1/validate'', auth_mw w dw cfg (\<lambda>tenant. lift_h
          (handleValidate w dw (rc_engine cfg) (rc_signer cfg) \<lparr>bc_server_id = rc_server_id cfg, bc_tenant_id = []\<rparr> tenant)))]"

definition mux :: "api_world \<Rightarrow> draw \<Rightarrow> bool \<Rightarrow> router_config \<Rightarrow> handler" where
  "mux w dw reachable cfg r st =
    (case List.find (\<lambda>(ms, p, h). rq_method r \<in> set ms \<and> rq_path r = p) (routes w dw reachable cfg) of
       Some (_, _, h) \<Rightarrow> h r st
     | None \<Rightarrow> (case rc_ui cfg of
         Some ui \<Rightarrow> (Some (ui r), st)
       | None \<Rightarrow>
           (Some \<lparr>rs_status = (if \<exists>(ms, p, h) \<in> set (routes w dw reachable cfg). rq_path r = p then 405 else 404),
             rs_headers = [], rs_body = []\<rparr>, st)))"

definition bodyLimitMiddleware :: "handler \<Rightarrow> handler" where
  "bodyLimitMiddleware next_h r st = next_h (r\<lparr>rq_body := take maxBodyBytes (rq_body r)\<rparr>) st"

definition recoveryMiddleware :: "handler \<Rightarrow> request \<Rightarrow> api_state \<Rightarrow> response \<times> api_state" where
  "recoveryMiddleware next_h r st = (case next_h r st of
     (None, st') \<Rightarrow> (writeError 500 ''internal error'', st')
   | (Some rs, st') \<Rightarrow> (rs, st'))"

definition NewRouter :: "api_world \<Rightarrow> draw \<Rightarrow> bool \<Rightarrow> router_config \<Rightarrow> request \<Rightarrow> api_state \<Rightarrow> response \<times> api_state" where
  "NewRouter w dw reachable cfg = recoveryMiddleware (bodyLimitMiddleware (mux w dw reachable cfg))"

end
