(* ===== verification/Cli.thy ===== *)
theory Cli
  imports EvidenceCmd Api
begin

text \<open>
  \<^verbatim>\<open>cmd/evidra/main.go\<close> and \<^verbatim>\<open>policy_sim_cmd.go\<close>: the command line around the evaluation packages. As for the evidence
  commands a result is the exit code and standard output, with the files that change; standard error is left out, so the
  \<^verbatim>\<open>--verbose\<close> flag has no effect here. \<open>xw_net i\<close> and \<open>xw_ids i\<close> are the network and the request id of the \<open>i\<close>-th
  request of a run.
\<close>

record cli_world = cmd_world +
  xw_commit :: string
  xw_date :: string
  xw_yaml :: "string \<Rightarrow> yaml_step list"
  xw_prepare :: opa_prepare
  xw_net :: "nat \<Rightarrow> transport"
  xw_ids :: "nat \<Rightarrow> string"

section \<open>Helpers\<close>

fun coalesce :: "string list \<Rightarrow> string" where
  "coalesce [] = []"
| "coalesce (v # vs) = (if trim_space v \<noteq> [] then v else coalesce vs)"

definition cli_dedupeStrings :: "string list \<Rightarrow> string list" where
  "cli_dedupeStrings ss = (if length ss \<le> 1 then ss else dedup_from [] ss)"

definition riskLevelPriority :: "string \<Rightarrow> int" where
  "riskLevelPriority l = (case map_of [(''low'', 0), (''medium'', 1), (''high'', 2), (''critical'', 3)] l of None \<Rightarrow> -1 | Some p \<Rightarrow> p)"

definition maxRiskLevel :: "string \<Rightarrow> string \<Rightarrow> string" where
  "maxRiskLevel a b = (if riskLevelPriority a < riskLevelPriority b then b else a)"

definition firstN :: "string list \<Rightarrow> int \<Rightarrow> string list" where
  "firstN items limit = (if limit \<le> 0 \<or> int (length items) \<le> limit then items else take (nat limit) items)"

definition cli_splitKind :: "string \<Rightarrow> (string \<times> string) option" where
  "cli_splitKind kind = (case split2 (CHR ''.'') (trim_space kind) of
     None \<Rightarrow> None
   | Some (a, b) \<Rightarrow> if trim_space a = [] \<or> trim_space b = [] then None else Some (a, b))"

section \<open>Online evaluation\<close>

definition actionToInvocation :: "scenario \<Rightarrow> sc_action \<Rightarrow> string \<Rightarrow> tool_invocation" where
  "actionToInvocation sc action environment =
    (let (tool, operation) = (case cli_splitKind (ac_kind action) of None \<Rightarrow> ([], []) | Some p \<Rightarrow> p) in
     \<lparr>ti_actor = \<lparr>a_type = sa_type (sc_actor sc), a_id = coalesce [sa_id (sc_actor sc), sc_id sc], a_origin = sc_source sc\<rparr>,
      ti_tool = tool, ti_operation = operation,
      ti_params = Some [(KeyTarget, gmap_val (ac_target action)), (KeyPayload, gmap_val (ac_payload action)),
        (KeyRiskTags, GStrs (ac_risk_tags action))],
      ti_context = Some [(KeyScenarioID, GStr (sc_id sc)), (KeySource, GStr (sc_source sc))],
      ti_environment = environment\<rparr>)"

definition online_start :: val_result where
  "online_start = \<lparr>vr_pass = True, vr_risk_level = ''low'', vr_evidence_id = [], vr_evidence_ids = [], vr_request_ids = [],
     vr_reasons = [], vr_rule_ids = [], vr_hints = [], vr_action_results = [], vr_source = ''api'', vr_policy_ref = []\<rparr>"

definition merge_ref :: "string \<Rightarrow> string \<Rightarrow> string" where
  "merge_ref agg ref = (if agg = [] then ref else if ref \<noteq> [] \<and> ref \<noteq> agg then ''mixed'' else agg)"

definition add_result :: "val_result \<Rightarrow> string \<Rightarrow> val_result \<Rightarrow> val_result" where
  "add_result r reqID agg = agg\<lparr>vr_pass := vr_pass agg \<and> vr_pass r,
     vr_risk_level := maxRiskLevel (vr_risk_level agg) (vr_risk_level r),
     vr_reasons := vr_reasons agg @ vr_reasons r, vr_rule_ids := vr_rule_ids agg @ vr_rule_ids r,
     vr_hints := vr_hints agg @ vr_hints r, vr_evidence_ids := vr_evidence_ids agg @ [vr_evidence_id r],
     vr_request_ids := vr_request_ids agg @ [reqID], vr_policy_ref := merge_ref (vr_policy_ref agg) (vr_policy_ref r)\<rparr>"

fun online_loop ::
  "(nat \<Rightarrow> transport) \<Rightarrow> (nat \<Rightarrow> string) \<Rightarrow> client \<Rightarrow> scenario \<Rightarrow> string \<Rightarrow> nat \<Rightarrow> sc_action list \<Rightarrow> val_result \<Rightarrow> cl_err + val_result" where
  "online_loop net ids c sc environment i [] agg = Inr agg"
| "online_loop net ids c sc environment i (a # as) agg = (case Client_Validate (net i) c (actionToInvocation sc a environment) of
     Inl err \<Rightarrow> Inl err
   | Inr r \<Rightarrow> online_loop net ids c sc environment (Suc i) as (add_result r (ids i) agg))"

definition evaluateOnline ::
  "(nat \<Rightarrow> transport) \<Rightarrow> (nat \<Rightarrow> string) \<Rightarrow> client \<Rightarrow> scenario \<Rightarrow> string \<Rightarrow> cl_err + val_result" where
  "evaluateOnline net ids c sc environment = (case online_loop net ids c sc environment 0 (sc_actions sc) online_start of
     Inl err \<Rightarrow> Inl err
   | Inr agg \<Rightarrow> Inr (agg\<lparr>
       vr_evidence_id := (case vr_evidence_ids agg of [i] \<Rightarrow> i | _ \<Rightarrow> vr_evidence_id agg),
       vr_rule_ids := cli_dedupeStrings (vr_rule_ids agg), vr_hints := cli_dedupeStrings (vr_hints agg)\<rparr>))"

section \<open>Local evaluation\<close>

record local_opts =
  lo_policy_path :: string
  lo_data_path :: string
  lo_bundle_path :: string
  lo_environment :: string

definition evaluateLocal :: "'a cli_world_scheme \<Rightarrow> scenario \<Rightarrow> local_opts \<Rightarrow> fs \<Rightarrow> (val_err + val_result) \<times> fs" where
  "evaluateLocal w sc opts f = EvaluateScenario (cw_sha w) (xw_prepare w) (source_makers_of (cw_sha w)) (cw_env w) sc
     \<lparr>op_policy_path = lo_policy_path opts, op_data_path = lo_data_path opts, op_bundle_path = lo_bundle_path opts,
      op_environment = lo_environment opts, op_evidence_dir = [], op_skip_evidence = False\<rparr> f"

section \<open>Output\<close>

definition ln :: "string \<Rightarrow> string" where
  "ln s = s @ [CHR 0x0A]"

definition bullet :: "string \<Rightarrow> string" where
  "bullet s = ln (''- '' @ s)"

definition join_with :: "string \<Rightarrow> string list \<Rightarrow> string" where
  "join_with sep xs = concat (case xs of [] \<Rightarrow> [] | x # rest \<Rightarrow> x # map (\<lambda>y. sep @ y) rest)"

definition printListWithCap :: "string \<Rightarrow> string list \<Rightarrow> int \<Rightarrow> string" where
  "printListWithCap title items limit0 =
    (if items = [] then []
     else (let limit = (if limit0 \<le> 0 then int (length items) else limit0) in
       ln (title @ '':'') @ concat (map bullet (take (nat limit) items))
       @ (if limit < int (length items) then bullet (''... ('' @ itoa (int (length items) - limit) @ '' more)'') else [])))"

definition printReasons :: "string list \<Rightarrow> string \<Rightarrow> string" where
  "printReasons reasons fallback =
    ln ''Reason:'' @ (if reasons = [] then bullet fallback else concat (map bullet (firstN reasons 5)))"

definition printHints :: "string list \<Rightarrow> string" where
  "printHints hints = ln ''How to fix:'' @
    (if hints = [] then bullet ''Adjust the input (e.g., add approval tags) or update policy under policy/bundles/ops-v0.1.''
     else concat (map bullet (firstN hints 10)))"

definition printExplanation :: "val_result \<Rightarrow> string" where
  "printExplanation r = ln ''Explanation:''
    @ (if vr_rule_ids r \<noteq> [] then bullet (''Rule IDs: '' @ join_with '', '' (vr_rule_ids r)) else [])
    @ (if vr_reasons r \<noteq> [] then bullet (''Reasons: '' @ join_with '' | '' (vr_reasons r)) else [])
    @ (if vr_hints r \<noteq> [] then bullet ''Hints:'' @ concat (map (\<lambda>h. ln (''  - '' @ h)) (vr_hints r)) else [])"

definition strs_json :: "string list \<Rightarrow> json" where
  "strs_json ss = JArr (map JStr ss)"

record validation_json =
  vj_status :: string
  vj_mode :: string
  vj_risk_level :: string
  vj_reason :: string
  vj_reasons :: "string list"
  vj_rule_ids :: "string list"
  vj_hints :: "string list"
  vj_evidence_id :: string
  vj_evidence_ids :: "string list"
  vj_source :: string
  vj_policy_ref :: string
  vj_request_id :: string
  vj_timestamp :: string
  vj_error :: "(string \<times> string \<times> string) option"

definition error_member :: "(string \<times> string \<times> string) option \<Rightarrow> (string \<times> json) list" where
  "error_member err = (case err of
     None \<Rightarrow> []
   | Some (code, message, url) \<Rightarrow>
      [(''error'', JObj ([(''code'', JStr code), (''message'', JStr message)] @ omit (url = []) ''url'' (JStr url)))])"

definition validation_json_of :: "validation_json \<Rightarrow> json" where
  "validation_json_of v = JObj
    ([(''status'', JStr (vj_status v)), (''mode'', JStr (vj_mode v)), (''risk_level'', JStr (vj_risk_level v)), (''reason'', JStr (vj_reason v))]
     @ omit (vj_reasons v = []) ''reasons'' (strs_json (vj_reasons v)) @ omit (vj_rule_ids v = []) ''rule_ids'' (strs_json (vj_rule_ids v))
     @ omit (vj_hints v = []) ''hints'' (strs_json (vj_hints v)) @ omit (vj_evidence_id v = []) ''evidence_id'' (JStr (vj_evidence_id v))
     @ omit (vj_evidence_ids v = []) ''evidence_ids'' (strs_json (vj_evidence_ids v)) @ [(''source'', JStr (vj_source v))]
     @ omit (vj_policy_ref v = []) ''policy_ref'' (JStr (vj_policy_ref v)) @ omit (vj_request_id v = []) ''request_id'' (JStr (vj_request_id v))
     @ [(''timestamp'', JStr (vj_timestamp v))] @ error_member (vj_error v))"

definition status_of :: "val_result \<Rightarrow> string" where
  "status_of r = (if vr_pass r then ''PASS'' else ''FAIL'')"

definition lead_reason :: "val_result \<Rightarrow> string" where
  "lead_reason r = (case vr_reasons r of [] \<Rightarrow> ''decision unavailable'' | x # _ \<Rightarrow> x)"

definition result_json :: "val_result \<Rightarrow> string \<Rightarrow> string \<Rightarrow> validation_json" where
  "result_json r modeLabel timestamp = \<lparr>vj_status = status_of r, vj_mode = modeLabel, vj_risk_level = vr_risk_level r,
     vj_reason = lead_reason r, vj_reasons = vr_reasons r, vj_rule_ids = vr_rule_ids r, vj_hints = vr_hints r,
     vj_evidence_id = vr_evidence_id r, vj_evidence_ids = vr_evidence_ids r, vj_source = vr_source r,
     vj_policy_ref = vr_policy_ref r, vj_request_id = (case vr_request_ids r of [i] \<Rightarrow> i | _ \<Rightarrow> []),
     vj_timestamp = timestamp, vj_error = None\<rparr>"

definition printValidationResult :: "val_result \<Rightarrow> string \<Rightarrow> bool \<Rightarrow> bool \<Rightarrow> string \<Rightarrow> cli_out" where
  "printValidationResult r modeLabel jsonOut explain timestamp =
    \<lparr>co_exit = (if vr_pass r then 0 else 2),
     co_stdout =
      (if jsonOut then cli_writeJSON (validation_json_of (result_json r modeLabel timestamp))
       else ln (''Decision: '' @ status_of r) @ ln (''Risk level: '' @ vr_risk_level r) @ ln (''Evidence: '' @ vr_evidence_id r)
         @ ln (''Reason: '' @ lead_reason r)
         @ (if vr_pass r then ln ''No deny rules matched.''
            else printListWithCap ''Rule IDs'' (vr_rule_ids r) 10 @ printReasons (vr_reasons r) (lead_reason r) @ printHints (vr_hints r))
         @ (if explain then printExplanation r else []))\<rparr>"

definition printJSONError :: "string \<Rightarrow> string \<Rightarrow> string \<Rightarrow> string \<Rightarrow> string" where
  "printJSONError modeLabel code message url = cli_writeJSON (validation_json_of
    \<lparr>vj_status = ''ERROR'', vj_mode = modeLabel, vj_risk_level = [], vj_reason = [], vj_reasons = [], vj_rule_ids = [], vj_hints = [],
     vj_evidence_id = [], vj_evidence_ids = [], vj_source = ''none'', vj_policy_ref = [], vj_request_id = [], vj_timestamp = [],
     vj_error = Some (code, message, url)\<rparr>)"

section \<open>Validate\<close>

definition validate_flags :: "(string \<times> flag_kind) list" where
  "validate_flags = [(''json'', FBool), (''explain'', FBool), (''verbose'', FBool), (''policy'', FString), (''data'', FString),
     (''bundle'', FString), (''environment'', FString), (''offline'', FBool), (''fallback-offline'', FBool), (''url'', FString),
     (''api-key'', FString), (''timeout'', FString)]"

definition exit_with :: "int \<Rightarrow> cli_out" where
  "exit_with code = \<lparr>co_exit = code, co_stdout = []\<rparr>"

definition finish_local :: "flag_vals \<Rightarrow> env \<Rightarrow> string \<Rightarrow> (val_result \<Rightarrow> val_result) \<Rightarrow> (val_err + val_result) \<times> fs \<Rightarrow> cli_out \<times> fs" where
  "finish_local vs e modeLabel label res = (case res of
     (Inl _, f) \<Rightarrow> (exit_with 1, f)
   | (Inr r, f) \<Rightarrow>
      (printValidationResult (label r) modeLabel (flag_bool vs ''json'') (flag_bool vs ''explain'') (fmt_rfc3339 (e_now e 11)), f))"

definition evaluate_and_print :: "'a cli_world_scheme \<Rightarrow> flag_vals \<Rightarrow> resolved \<Rightarrow> scenario \<Rightarrow> local_opts \<Rightarrow> fs \<Rightarrow> cli_out \<times> fs" where
  "evaluate_and_print w vs res sc opts f =
    (case (if rs_is_online res then rs_client res else None) of
       None \<Rightarrow> finish_local vs (cw_env w) ''offline'' id (evaluateLocal w sc opts f)
     | Some c \<Rightarrow>
        (case evaluateOnline (xw_net w) (xw_ids w) c sc (lo_environment opts) of
           Inr r \<Rightarrow>
             (printValidationResult r ''online'' (flag_bool vs ''json'') (flag_bool vs ''explain'') (fmt_rfc3339 (e_now (cw_env w) 11)), f)
         | Inl err \<Rightarrow>
             if IsReachabilityError err \<and> rs_fallback_policy res = ''offline'' then
               finish_local vs (cw_env w) ''online'' (\<lambda>r. r\<lparr>vr_source := ''local-fallback''\<rparr>) (evaluateLocal w sc opts f)
             else if IsReachabilityError err then
               (\<lparr>co_exit = 3, co_stdout = (if flag_bool vs ''json''
                   then printJSONError ''online'' ''API_UNREACHABLE'' (''API unreachable at '' @ cl_url c) (cl_url c) else [])\<rparr>, f)
             else (exit_with 1, f)))"

definition validate_config :: "flag_vals \<Rightarrow> env \<Rightarrow> int \<Rightarrow> mode_config" where
  "validate_config vs e timeout = \<lparr>mc_url = coalesce [flag_str vs ''url'' [], e_getenv e ''EVIDRA_URL''],
     mc_api_key = coalesce [flag_str vs ''api-key'' [], e_getenv e ''EVIDRA_API_KEY''],
     mc_fallback_policy = (if flag_bool vs ''fallback-offline'' then ''offline'' else e_getenv e ''EVIDRA_FALLBACK''),
     mc_force_offline = flag_bool vs ''offline'', mc_timeout = timeout\<rparr>"

definition local_opts_of :: "flag_vals \<Rightarrow> env \<Rightarrow> local_opts" where
  "local_opts_of vs e = \<lparr>lo_policy_path = trim_space (flag_str vs ''policy'' []), lo_data_path = trim_space (flag_str vs ''data'' []),
     lo_bundle_path = trim_space (flag_str vs ''bundle'' []),
     lo_environment = NormalizeEnvironment (coalesce [trim_space (flag_str vs ''environment'' []), e_getenv e ''EVIDRA_ENVIRONMENT''])\<rparr>"

definition timeout_of :: "(nat \<Rightarrow> nat \<Rightarrow> nat \<Rightarrow> nat) \<Rightarrow> flag_vals \<Rightarrow> int option" where
  "timeout_of frac vs = (if flag_str vs ''timeout'' [] = [] then Some 0 else parse_duration frac (flag_str vs ''timeout'' []))"

definition runValidate :: "'a cli_world_scheme \<Rightarrow> string list \<Rightarrow> fs \<Rightarrow> cli_out \<times> fs" where
  "runValidate w args f =
    (if args = [''--help''] \<or> args = [''-h''] then (exit_with 4, f)
     else (case parse_flags (kinds_of validate_flags) args [] of
         Some (vs, [path]) \<Rightarrow>
          (case timeout_of (cw_frac w) vs of
             None \<Rightarrow> (exit_with 4, f)
           | Some timeout \<Rightarrow>
              (case mode_Resolve (validate_config vs (cw_env w) timeout) of
                 Inl _ \<Rightarrow> (exit_with 1, f)
               | Inr res \<Rightarrow>
                  (case LoadFile (cw_sha w) (xw_yaml w) (e_now (cw_env w) 5) f path of
                     Inl _ \<Rightarrow> (exit_with 1, f)
                   | Inr sc \<Rightarrow> evaluate_and_print w vs res sc (local_opts_of vs (cw_env w)) f)))
       | _ \<Rightarrow> (exit_with 4, f)))"

section \<open>Policy simulation\<close>

definition decision_json :: "decision \<Rightarrow> json" where
  "decision_json d = JObj
    ([(''allow'', JBool (dc_allow d)), (''risk_level'', JStr (dc_risk_level d)), (''reason'', JStr (dc_reason d))]
     @ omit (dc_policy_ref d = []) ''policy_ref'' (JStr (dc_policy_ref d))
     @ omit (dc_bundle_revision d = []) ''bundle_revision'' (JStr (dc_bundle_revision d))
     @ omit (dc_profile_name d = []) ''profile_name'' (JStr (dc_profile_name d))
     @ omit (dc_reasons d = []) ''reasons'' (strs_json (dc_reasons d)) @ omit (dc_hints d = []) ''hints'' (strs_json (dc_hints d))
     @ omit (dc_hits d = []) ''hits'' (strs_json (dc_hits d)))"

definition readInvocation :: "fs \<Rightarrow> string \<Rightarrow> tool_invocation option" where
  "readInvocation f path = (case read_str f path of
     Inl _ \<Rightarrow> None
   | Inr raw \<Rightarrow> Option.bind (json_parse raw) d_invocation)"

definition sim_flags :: "(string \<times> flag_kind) list" where
  "sim_flags = [(''version'', FBool), (''policy'', FString), (''input'', FString), (''data'', FString)]"

definition runPolicySimCommand :: "'a cli_world_scheme \<Rightarrow> string list \<Rightarrow> fs \<Rightarrow> cli_out" where
  "runPolicySimCommand w args f = (case parse_flags (kinds_of sim_flags) args [] of
     None \<Rightarrow> exit_with 2
   | Some (vs, _) \<Rightarrow>
      (let policyPath = flag_str vs ''policy'' []; inputPath = flag_str vs ''input'' [];
           source = NewLocalFileSource policyPath (flag_str vs ''data'' []) in
       if flag_bool vs ''version'' then \<lparr>co_exit = 0, co_stdout = ln (''evidra-policy-sim '' @ cw_version w)\<rparr>
       else if policyPath = [] \<or> inputPath = [] then exit_with 2
       else (case readInvocation f inputPath of
           None \<Rightarrow> exit_with 2
         | Some ti \<Rightarrow>
            if ValidateStructure ti \<noteq> None then exit_with 2
            else (case (local_LoadPolicy f source, local_LoadData f source) of
                (Inr modules, Inr dataBytes) \<Rightarrow>
                 (case NewOPAEngine (xw_prepare w) modules dataBytes of
                    Inl _ \<Rightarrow> exit_with 3
                  | Inr eng \<Rightarrow> (case Engine_Evaluate eng ti of
                       (_, Some _) \<Rightarrow> exit_with 3
                     | (d, None) \<Rightarrow> \<lparr>co_exit = 0, co_stdout = cli_writeJSON (decision_json d)\<rparr>))
              | _ \<Rightarrow> exit_with 3))))"

section \<open>Dispatch\<close>

definition cli_run :: "'a cli_world_scheme \<Rightarrow> string list \<Rightarrow> fs \<Rightarrow> cli_out \<times> fs" where
  "cli_run w args f = (case args of
     [] \<Rightarrow> (exit_with 4, f)
   | c # rest \<Rightarrow>
       if c = ''version'' then
         (\<lparr>co_exit = 0, co_stdout = ln (''Version: '' @ cw_version w) @ ln (''Commit: '' @ xw_commit w) @ ln (''Date: '' @ xw_date w)\<rparr>, f)
       else if c = ''validate'' then runValidate w rest f
       else if c = ''evidence'' then runEvidenceCommand (cmd_world.truncate w) rest f
       else if c = ''policy'' then (case rest of
           s # rest' \<Rightarrow> if s = ''sim'' then (runPolicySimCommand w rest' f, f) else (exit_with 4, f)
         | [] \<Rightarrow> (exit_with 4, f))
       else (exit_with 4, f))"

end
