(* ===== verification/Startup.thy ===== *)
theory Startup
  imports Guidance EmbeddedBundle Cli
begin

text \<open>
  \<^verbatim>\<open>cmd/evidra-mcp/main.go\<close> and \<^verbatim>\<open>cmd/evidra-api/main.go\<close>: from arguments and environment to a configured server. The outcome of the
  MCP command before it serves is an exit code with the text on standard output, a panic, or the server it hands to the MCP
  library; the API server runs until a signal or a listener error, which is an argument. Standard error and the log are left
  out, except for the choice of format and level.
\<close>

section \<open>The MCP server\<close>

definition mcp_printHelp :: "string \<Rightarrow> string" where
  "mcp_printHelp defaultEvidence = concat (map ln [
     ''evidra-mcp '' @ [CHR 0xE2] @ [CHR 0x80] @ [CHR 0x94] @ '' open-source utility by SameBits. MCP server for AI agent policy evaluation.'',
     [],
     ''USAGE:'',
     ''  evidra-mcp [flags]'',
     [],
     ''CONNECTION FLAGS:'',
     ''  --offline               Force offline mode (skip API even if EVIDRA_URL set)'',
     ''  --fallback-offline      Allow local eval when API unreachable'',
     [],
     ''POLICY SOURCE (offline/fallback only):'',
     ''  --bundle <path>         Path to OPA bundle directory (e.g. policy/bundles/ops-v0.1)'',
     ''  --policy <path>         Path to rego entrypoint (legacy loose-file mode)'',
     ''  --data <path>           Path to policy data.json (legacy loose-file mode)'',
     [],
     ''FLAGS:'',
     ''  --content-dir <dir>     Optional override for MCP guidance content (initialize/tools/resources text files)'',
     ''  --deny-cache            Enable deny-loop prevention cache for agent/CI actors'',
     ''  --environment <env>     Environment label for policy evaluation (e.g. prod, staging)'',
     ''  --evidence-dir <dir>    Where to store evidence chain (default: '' @ defaultEvidence @ '')'',
     ''  --evidence-store <dir>  Alias for --evidence-dir'',
     [],
     ''ENVIRONMENT VARIABLES:'',
     ''  EVIDRA_URL              API endpoint (enables online mode, e.g. https://api.evidra.rest)'',
     ''  EVIDRA_API_KEY          Bearer token (required when EVIDRA_URL is set)'',
     ''  EVIDRA_FALLBACK         closed (default) or offline'',
     ''  EVIDRA_DENY_CACHE       Enable deny-loop prevention (true/false, default: false)'',
     ''  EVIDRA_CONTENT_DIR      Override MCP guidance content directory (same as --content-dir)'',
     ''  EVIDRA_ENVIRONMENT      Environment label (normalized: prod'' @ [CHR 0xE2] @ [CHR 0x86] @ [CHR 0x92] @ ''production, stg'' @ [CHR 0xE2] @ [CHR 0x86] @ [CHR 0x92] @ ''staging)'',
     [],
     ''HOSTED SERVICE:'',
     ''  MCP endpoint:  https://evidra.samebits.com/mcp  (no local install needed)'',
     ''  REST API base: https://api.evidra.rest/v1'',
     [],
     ''NOTES:'',
     ''  - When EVIDRA_URL is set, evaluations are sent to the API server.'',
     ''  - Use --offline or unset EVIDRA_URL for local-only evaluation.'',
     ''  - Guidance content defaults to embedded files; use --content-dir to override without rebuilding.'',
     ''  - Use `evidra` CLI for offline tools (policy sim, evidence inspect).''])"

definition resolveEvidenceFlagValue :: "string \<Rightarrow> string \<Rightarrow> string option" where
  "resolveEvidenceFlagValue evidenceStoreFlag evidenceDirFlag =
    (let store = trim_space evidenceStoreFlag; dir = trim_space evidenceDirFlag in
     if store \<noteq> [] \<and> dir \<noteq> [] \<and> store \<noteq> dir then None
     else if store \<noteq> [] then Some store
     else Some dir)"

definition policyRefOrEmpty :: "(string \<Rightarrow> string) \<Rightarrow> fs \<Rightarrow> local_file_source \<Rightarrow> string" where
  "policyRefOrEmpty sha f ps = (case local_PolicyRef sha f ps of Inl _ \<Rightarrow> [] | Inr ref \<Rightarrow> ref)"

definition envBool :: "env \<Rightarrow> string \<Rightarrow> bool \<Rightarrow> bool" where
  "envBool e key fallback =
    (let v = trim_space (to_lower (e_getenv e key)) in
     if v \<in> {''1'', ''true'', ''yes'', ''on''} then True
     else if v \<in> {''0'', ''false'', ''no'', ''off''} then False
     else fallback)"

definition mcp_flags :: "(string \<times> flag_kind) list" where
  "mcp_flags = [(''version'', FBool), (''policy'', FString), (''data'', FString), (''bundle'', FString), (''content-dir'', FString),
     (''environment'', FString), (''evidence-dir'', FString), (''evidence-store'', FString), (''offline'', FBool),
     (''fallback-offline'', FBool), (''deny-cache'', FBool), (''help'', FBool)]"

record mcp_world =
  mw_env :: env
  mw_proc :: proc_info
  mw_sha :: "string \<Rightarrow> string"
  mw_version :: string
  mw_commit :: string
  mw_date :: string
  mw_bundle :: fs
  mw_guidance :: fs
  mw_validate_schema :: string
  mw_get_event_schema :: string

datatype mcp_outcome = MExit int string | MPanic | MServe mcp_server

definition mcp_mode_config :: "flag_vals \<Rightarrow> env \<Rightarrow> mode_config" where
  "mcp_mode_config vs e = \<lparr>mc_url = e_getenv e ''EVIDRA_URL'', mc_api_key = e_getenv e ''EVIDRA_API_KEY'',
     mc_fallback_policy = (if flag_bool vs ''fallback-offline'' then ''offline'' else e_getenv e ''EVIDRA_FALLBACK''),
     mc_force_offline = flag_bool vs ''offline'', mc_timeout = 0\<rparr>"

definition looseMode :: "flag_vals \<Rightarrow> env \<Rightarrow> bool" where
  "looseMode vs e \<longleftrightarrow> trim_space (flag_str vs ''policy'' []) \<noteq> [] \<or> trim_space (flag_str vs ''data'' []) \<noteq> []
     \<or> trim_space (e_getenv e ''EVIDRA_POLICY_PATH'') \<noteq> [] \<or> trim_space (e_getenv e ''EVIDRA_DATA_PATH'') \<noteq> []"

definition needLocalBundle :: "resolved \<Rightarrow> bool" where
  "needLocalBundle res \<longleftrightarrow> \<not> rs_is_online res \<or> rs_fallback_policy res = ''offline''"

definition mcp_bundle_path :: "mcp_world \<Rightarrow> flag_vals \<Rightarrow> resolved \<Rightarrow> fs \<Rightarrow> string option \<times> fs" where
  "mcp_bundle_path w vs res f =
    (let bundlePath = config_ResolveBundlePath (mw_env w) (flag_str vs ''bundle'' []) in
     if needLocalBundle res \<and> bundlePath = [] \<and> \<not> looseMode vs (mw_env w) then
       (case extractEmbeddedBundleCached (mw_sha w) (mw_env w) (mw_bundle w) f of
          (Inl _, f1) \<Rightarrow> (None, f1)
        | (Inr dir, f1) \<Rightarrow> (Some (path_str dir), f1))
     else (Some bundlePath, f))"

text \<open>The policy reference with the paths of the policy and the data.\<close>

definition mcp_policy_source :: "mcp_world \<Rightarrow> flag_vals \<Rightarrow> resolved \<Rightarrow> string \<Rightarrow> fs \<Rightarrow> (string \<times> string \<times> string) option" where
  "mcp_policy_source w vs res bundlePath f =
    (let policyPath = trim_space (flag_str vs ''policy'' []); dataPath = trim_space (flag_str vs ''data'' []) in
     if bundlePath = [] \<and> needLocalBundle res then
       (if \<not> looseMode vs (mw_env w) then Some ([], policyPath, dataPath)
        else (case ResolvePolicyData (mw_env w) f policyPath dataPath of
            None \<Rightarrow> None
          | Some (p, d) \<Rightarrow> Some (policyRefOrEmpty (mw_sha w) f (NewLocalFileSource p d), p, d)))
     else if bundlePath \<noteq> [] then
       (case NewBundleSource f bundlePath of
          Inl _ \<Rightarrow> None
        | Inr bs \<Rightarrow> Some (case bundle_PolicyRef bs of Inl _ \<Rightarrow> [] | Inr ref \<Rightarrow> ref, policyPath, dataPath))
     else Some ([], policyPath, dataPath))"

definition mcp_server_options ::
  "mcp_world \<Rightarrow> flag_vals \<Rightarrow> resolved \<Rightarrow> string \<Rightarrow> string \<times> string \<times> string \<Rightarrow> string \<Rightarrow> mcp_options" where
  "mcp_server_options w vs res bundlePath src evidencePath = (case src of (ref, policyPath, dataPath) \<Rightarrow>
     \<lparr>mo_name = ''evidra-mcp'', mo_version = mw_version w,
      mo_content_dir = coalesce [trim_space (flag_str vs ''content-dir'' []), trim_space (e_getenv (mw_env w) ''EVIDRA_CONTENT_DIR'')],
      mo_mode = ''enforce'', mo_policy_ref = ref, mo_policy_path = policyPath, mo_data_path = dataPath, mo_bundle_path = bundlePath,
      mo_environment = NormalizeEnvironment
        (coalesce [trim_space (flag_str vs ''environment'' []), e_getenv (mw_env w) ''EVIDRA_ENVIRONMENT'']),
      mo_evidence_path = evidencePath,
      mo_include_file_links = envBool (mw_env w) ''EVIDRA_INCLUDE_FILE_RESOURCE_LINKS'' False,
      mo_api_client = rs_client res, mo_fallback_policy = rs_fallback_policy res, mo_is_online = rs_is_online res,
      mo_deny_cache_enabled = flag_bool vs ''deny-cache'' \<or> envBool (mw_env w) ''EVIDRA_DENY_CACHE'' False\<rparr>)"

definition mcp_start :: "mcp_world \<Rightarrow> flag_vals \<Rightarrow> resolved \<Rightarrow> fs \<Rightarrow> mcp_outcome \<times> fs" where
  "mcp_start w vs res f = (case mcp_bundle_path w vs res f of
     (None, f1) \<Rightarrow> (MExit 1 [], f1)
   | (Some bundlePath, f1) \<Rightarrow>
      (case mcp_policy_source w vs res bundlePath f1 of
         None \<Rightarrow> (MExit 1 [], f1)
       | Some src \<Rightarrow>
          (case Option.bind (resolveEvidenceFlagValue (flag_str vs ''evidence-store'' []) (flag_str vs ''evidence-dir'' []))
             (ResolveEvidencePath (mw_env w)) of
             None \<Rightarrow> (MExit 1 [], f1)
           | Some evidencePath \<Rightarrow>
              (case NewServer (mw_env w) (mw_proc w) (mw_guidance w) (mw_validate_schema w) (mw_get_event_schema w) f1
                 (mcp_server_options w vs res bundlePath src evidencePath) of
                 None \<Rightarrow> (MPanic, f1)
               | Some srv \<Rightarrow> (MServe srv, f1)))))"

definition mcp_run :: "mcp_world \<Rightarrow> string list \<Rightarrow> fs \<Rightarrow> mcp_outcome \<times> fs" where
  "mcp_run w args f = (case parse_flags (kinds_of mcp_flags) args [] of
     None \<Rightarrow> (MExit 2 [], f)
   | Some (vs, _) \<Rightarrow>
      if flag_bool vs ''version'' then
        (MExit 0 (ln (''evidra-mcp '' @ mw_version w @ '' (commit: '' @ mw_commit w @ '', built: '' @ mw_date w @ '')'')), f)
      else if flag_bool vs ''help'' then (MExit 2 (mcp_printHelp (DefaultEvidencePathDescription (mw_env w))), f)
      else (case mode_Resolve (mcp_mode_config vs (mw_env w)) of
          Inl _ \<Rightarrow> (MExit 1 [], f)
        | Inr res \<Rightarrow> mcp_start w vs res f))"

text \<open>What the process exits with once the library's \<^verbatim>\<open>Run\<close> has returned, with or without an error.\<close>

definition mcp_exit :: "mcp_outcome \<Rightarrow> bool \<Rightarrow> int" where
  "mcp_exit out runFailed = (case out of
     MExit code _ \<Rightarrow> code
   | MPanic \<Rightarrow> 2
   | MServe _ \<Rightarrow> if runFailed then 1 else 0)"

section \<open>The API server\<close>

definition envOrDefault :: "env \<Rightarrow> string \<Rightarrow> string \<Rightarrow> string" where
  "envOrDefault e key fallback = (if e_getenv e key \<noteq> [] then e_getenv e key else fallback)"

datatype log_level = LevelDebug | LevelInfo | LevelWarn | LevelError

text \<open>The level, and whether the handler writes text rather than JSON.\<close>

definition initLogger :: "env \<Rightarrow> log_level \<times> bool" where
  "initLogger e =
    (let l = to_lower (envOrDefault e ''LOG_LEVEL'' ''info'') in
     (if l = ''debug'' then LevelDebug else if l = ''warn'' then LevelWarn else if l = ''error'' then LevelError else LevelInfo,
      envOrDefault e ''LOG_FORMAT'' ''json'' = ''text''))"

text \<open>
  \<^verbatim>\<open>uiHandler\<close> of \<^verbatim>\<open>internal/api/ui_handler.go\<close>: which files of the compiled-in user interface can be opened and the standard file
  server over them are arguments; a path that cannot be opened is served as the start page.
\<close>

definition uiHandler :: "(string \<Rightarrow> bool) \<Rightarrow> (request \<Rightarrow> response) \<Rightarrow> request \<Rightarrow> response" where
  "uiHandler opens fileServer r =
    (let path = trim_prefix ''/'' (rq_path r); path = (if path = [] then ''index.html'' else path) in
     if \<not> opens path then fileServer (r\<lparr>rq_path := ''/''\<rparr>) else fileServer r)"

record boot_world =
  bw_env :: env
  bw_hostname :: "string option"
  bw_crypto :: crypto
  bw_prepare :: opa_prepare
  bw_bundle :: fs
  bw_temp_names :: "string list"
  bw_connect :: "string \<Rightarrow> bool"
  bw_ui :: "((string \<Rightarrow> bool) \<times> (request \<Rightarrow> response)) option"

definition api_hostname :: "boot_world \<Rightarrow> string" where
  "api_hostname w = (case bw_hostname w of None \<Rightarrow> ''unknown'' | Some h \<Rightarrow> h)"

definition api_signer :: "boot_world \<Rightarrow> fs \<Rightarrow> sign_err + signer" where
  "api_signer w f = NewSigner (bw_crypto w) f \<lparr>sc_key_base64 = e_getenv (bw_env w) ''EVIDRA_SIGNING_KEY'',
     sc_key_path = e_getenv (bw_env w) ''EVIDRA_SIGNING_KEY_PATH'', sc_dev_mode = (e_getenv (bw_env w) ''EVIDRA_ENV'' = ''development'')\<rparr>"

definition api_config :: "boot_world \<Rightarrow> evaluator \<Rightarrow> signer \<Rightarrow> router_config" where
  "api_config w eng s =
    (let db = (e_getenv (bw_env w) ''DATABASE_URL'' \<noteq> []) in
     \<lparr>rc_engine = eng, rc_signer = s, rc_api_key = e_getenv (bw_env w) ''EVIDRA_API_KEY'',
      rc_server_id = envOrDefault (bw_env w) ''EVIDRA_SERVER_ID'' (api_hostname w), rc_ui = map_option (\<lambda>(opens, fileServer). uiHandler opens fileServer) (bw_ui w),
      rc_has_store = db, rc_has_db = db, rc_invite_secret = e_getenv (bw_env w) ''EVIDRA_INVITE_SECRET'',
      rc_pubkey_pem = Some (PublicKeyPEM s)\<rparr>)"

text \<open>
  The configured server on its listening address, with the temporary directory that is removed when it ends. An error after
  the extraction removes the directory at once.
\<close>

definition api_start :: "boot_world \<Rightarrow> fs \<Rightarrow> (router_config \<times> string \<times> path) option \<times> fs" where
  "api_start w f =
    (let apiKey = e_getenv (bw_env w) ''EVIDRA_API_KEY''; databaseURL = e_getenv (bw_env w) ''DATABASE_URL'';
         listenAddr = envOrDefault (bw_env w) ''LISTEN_ADDR'' '':8080'' in
     if databaseURL = [] \<and> apiKey = [] then (None, f)
     else if databaseURL = [] \<and> length apiKey < 32 then (None, f)
     else (case api_signer w f of
         Inl _ \<Rightarrow> (None, f)
       | Inr s \<Rightarrow> (case api_extractEmbeddedBundle (bw_env w) (bw_temp_names w) (bw_bundle w) f of
           (Inl _, f1) \<Rightarrow> (None, f1)
         | (Inr dir, f1) \<Rightarrow> (case NewBundleSource f1 (path_str dir) of
             Inl _ \<Rightarrow> (None, remove_all f1 dir)
           | Inr bs \<Rightarrow> (case NewEvaluator (bw_prepare w) (bundle_policy_source f1 bs) of
               Inl _ \<Rightarrow> (None, remove_all f1 dir)
             | Inr eng \<Rightarrow>
                 if databaseURL \<noteq> [] \<and> \<not> bw_connect w databaseURL then (None, remove_all f1 dir)
                 else (Some (api_config w eng s, listenAddr, dir), f1))))))"

datatype serve_end = OnSignal | ListenerFailed | ListenerClosed

definition api_run :: "boot_world \<Rightarrow> serve_end \<Rightarrow> bool \<Rightarrow> fs \<Rightarrow> int \<times> fs" where
  "api_run w ended shutdownOk f = (case api_start w f of
     (None, f1) \<Rightarrow> (1, f1)
   | (Some (cfg, addr, dir), f1) \<Rightarrow>
       (if ended = ListenerFailed then 1 else if \<not> shutdownOk then 1 else 0, remove_all f1 dir))"

end
