(* ===== verification/EmbeddedCorrect.thy ===== *)
theory EmbeddedCorrect
  imports EmbeddedBundle
begin

text \<open>
  The compiled-in bundle on disk. A tree is described by what is found at each sequence of names below its root. The
  extraction copies the tree; a bundle loads the same modules and data from any two trees that agree, so what the servers
  evaluate from their extracted copy is what was compiled in.
\<close>

abbreviation under :: "path \<Rightarrow> string list \<Rightarrow> path" where
  "under r ts \<equiv> Path (rooted r) (comps r @ ts)"

section \<open>Paths and strings\<close>

definition name_path :: "path \<Rightarrow> bool" where
  "name_path p \<longleftrightarrow> wf_path p \<and> list_all (\<lambda>c. CHR ''/'' \<notin> set c) (comps p)"

lemma ok_stack_plain: "list_all plain_name xs \<Longrightarrow> ok_stack r ys \<Longrightarrow> ok_stack r (xs @ ys)"
  by (induction xs) (auto simp: plain_name_def)

lemma clean_comps_subset: "set (clean_comps r acc cs) \<subseteq> set acc \<union> set cs"
  by (induction r acc cs rule: clean_comps.induct) (auto split: list.splits if_splits)

lemma split_on_no_slash: "t \<in> set (split_on c s) \<Longrightarrow> c \<notin> set t"
  by (induction s arbitrary: t) (auto split: list.splits if_splits)

lemma name_path_clean [simp]: "name_path (clean_path s)"
proof -
  have "CHR ''/'' \<notin> set c" if "c \<in> set (comps (clean_path s))" for c
    using that clean_comps_subset split_on_no_slash by (fastforce simp: clean_path_def Let_def)
  then show ?thesis by (simp add: name_path_def list_all_iff)
qed

lemma name_path_join [simp]: "name_path p \<Longrightarrow> name_path (path_join p s)"
proof -
  assume "name_path p"
  then have "CHR ''/'' \<notin> set c" if "c \<in> set (comps (path_join p s))" for c
    using that clean_comps_subset split_on_no_slash by (fastforce simp: path_join_def name_path_def list_all_iff)
  then show ?thesis by (simp add: name_path_def list_all_iff)
qed

lemma path_join_under:
  assumes "wf_path d" "ts \<noteq> []" "list_all plain_name ts"
  shows "path_join d (join_slash ts) = under d ts"
proof -
  have "ok_stack (rooted d) (rev ts @ rev (comps d))"
    using assms by (intro ok_stack_plain) (auto simp: wf_path_def)
  then have "clean_comps (rooted d) [] (comps d @ ts) = comps d @ ts"
    using clean_comps_id [of "rooted d" "comps d @ ts" "[]"] by simp
  moreover have "split_on (CHR ''/'') (join_slash ts) = ts"
    using assms by (intro split_join_slash) (auto simp: list_all_iff plain_name_def)
  ultimately show ?thesis by (simp add: path_join_def)
qed

lemma wf_comps_nonempty: "wf_path p \<Longrightarrow> c \<in> set (comps p) \<Longrightarrow> c \<noteq> []"
proof -
  have "ok_stack r cs \<Longrightarrow> c \<in> set cs \<Longrightarrow> c \<noteq> []" for r cs by (induction cs) auto
  then show "wf_path p \<Longrightarrow> c \<in> set (comps p) \<Longrightarrow> c \<noteq> []" by (metis wf_path_def set_rev)
qed

lemma clean_path_str:
  assumes "name_path p" shows "clean_path (path_str p) = p"
proof (cases "comps p = []")
  case True
  have "clean_path ''/'' = Path True []" "clean_path ''.'' = Path False []" by code_simp+
  with True show ?thesis by (cases p) (simp add: path_str_def)
next
  case False
  then obtain c cs where cs: "comps p = c # cs" by (cases "comps p") auto
  have c: "c \<noteq> []" "CHR ''/'' \<notin> set c"
    using assms cs wf_comps_nonempty [of p c] by (simp_all add: name_path_def)
  have hd: "hd (join_slash (comps p)) \<noteq> CHR ''/''" "join_slash (comps p) \<noteq> []"
    using c cs by (cases c; auto simp: join_slash_def)+
  have "split_on (CHR ''/'') (join_slash (comps p)) = comps p"
    using assms False by (intro split_join_slash) (auto simp: name_path_def list_all_iff)
  moreover have "clean_comps (rooted p) [] (comps p) = comps p"
    using assms clean_comps_id [of "rooted p" "comps p" "[]"] by (simp add: name_path_def wf_path_def)
  ultimately show ?thesis
    using False hd by (cases "rooted p"; cases p) (simp_all add: clean_path_def path_str_def)
qed

lemma given_base_str:
  assumes "name_path p" "comps p \<noteq> []" shows "given_base (path_str p) = last (comps p)"
proof -
  have "split_on (CHR ''/'') (join_slash (comps p)) = comps p"
    using assms by (intro split_join_slash) (auto simp: name_path_def list_all_iff)
  moreover have "filter (\<lambda>c. c \<noteq> []) (comps p) = comps p"
    using assms(1) wf_comps_nonempty by (auto simp: name_path_def intro!: filter_True)
  ultimately show ?thesis using assms(2) by (simp add: given_base_def path_str_def)
qed

lemma path_str_nonempty: "wf_path p \<Longrightarrow> path_str p \<noteq> []"
  using wf_comps_nonempty [of p "hd (comps p)"]
  by (cases "comps p") (auto simp: path_str_def join_slash_def)

lemma stat_str_path: "name_path p \<Longrightarrow> stat_str f (path_str p) = stat f p"
  by (simp add: stat_str_def clean_path_str path_str_nonempty name_path_def)

section \<open>Trees\<close>

lemma map_of_filter_key: "map_of (filter (\<lambda>e. P (fst e)) es) q = (if P q then map_of es q else None)"
  by (induction es) auto

lemma node_at_remove [simp]:
  "unrefused f \<Longrightarrow> node_at (remove_all f p) q = (if q = p \<or> below p q then None else node_at f q)"
  by (simp add: remove_all_def unrefused_def map_of_filter_key [of "\<lambda>k. k \<noteq> p \<and> \<not> below p k"])

lemma unrefused_remove [simp]: "unrefused (remove_all f p) \<longleftrightarrow> unrefused f"
  by (simp add: remove_all_def unrefused_def)

lemma below_under [simp]: "below r (under r ts) \<longleftrightarrow> ts \<noteq> []"
  by (auto simp: below_def)

lemma under_child: "under r (ts @ [n]) = child (under r ts) n"
  by (simp add: child_def)

lemma below_not_ancestor: "q \<in> set (ancestors p) \<Longrightarrow> q \<noteq> p \<and> \<not> below p q"
  by (cases p) (auto simp: ancestors_def below_def)

lemma mkdirs_ok:
  assumes "unrefused f" "\<forall>q \<in> set ps. \<not> is_file (node_at f q)"
  shows "\<exists>f'. mkdirs ps f = (None, f') \<and> unrefused f' \<and>
    (\<forall>q. node_at f' q = (if q \<in> set ps then Some Dir else node_at f q))"
  using assms
proof (induction ps arbitrary: f)
  case (Cons p ps)
  let ?g = "if node_at f p = None then put_node p Dir f else f"
  have "mkdirs (p # ps) f = mkdirs ps ?g"
    using Cons.prems by (auto simp: unrefused_def is_file_def split: option.splits node.splits)
  moreover have "\<exists>f'. mkdirs ps ?g = (None, f') \<and> unrefused f' \<and>
    (\<forall>q. node_at f' q = (if q \<in> set ps then Some Dir else node_at ?g q))"
    using Cons.prems by (intro Cons.IH) auto
  moreover have "node_at ?g p = Some Dir"
    using Cons.prems(2) by (auto simp: is_file_def split: option.splits node.splits)
  ultimately show ?case by auto
qed simp

lemma mkdir_all_new:
  assumes "unrefused f" "dir_at f d" "node_at f (child d n) = None"
  shows "mkdir_all f (child d n) = (None, put_node (child d n) Dir f)"
proof -
  have app: "\<forall>q \<in> set ps. node_at f q = Some Dir \<Longrightarrow> mkdirs (ps @ qs) f = mkdirs qs f" for ps qs
    by (induction ps) auto
  have "mkdirs ((ancestors d @ [d]) @ [child d n]) f = mkdirs [child d n] f"
    using assms(2) by (intro app) (simp add: dir_at_def)
  with assms(1,3) show ?thesis by (simp add: mkdir_all_def unrefused_def)
qed

lemma dir_at_put_new: "dir_at f d \<Longrightarrow> node_at f p = None \<Longrightarrow> dir_at (put_node p n f) d"
  by (auto simp: dir_at_def)

section \<open>Extraction copies the tree\<close>

text \<open>
  What is compiled in: a file tree whose names are plain, with the bundle directory in it and nothing in the place where
  the cache keeps its digest.
\<close>

definition embedded_ok :: "fs \<Rightarrow> bool" where
  "embedded_ok emb \<longleftrightarrow> unrefused emb \<and> stat emb bundleRoot = Inr Dir
    \<and> list_all (\<lambda>e. list_all plain_name (comps (fst e))) (nodes emb)
    \<and> list_all (\<lambda>e. below bundleRoot (fst e) \<longrightarrow> visited emb (\<lambda>_. False) bundleRoot (fst e)) (nodes emb)
    \<and> node_at emb (under bundleRoot [bundleSHAFile]) = None"

definition entries :: "fs \<Rightarrow> path list" where
  "entries emb = walk_entries emb (\<lambda>_. False) bundleRoot"

lemma walk_dir_entries:
  assumes "embedded_ok emb"
  shows "walk_dir emb bundleRoot = map (\<lambda>p. DEntry p (node_at emb p = Some Dir)) (bundleRoot # entries emb)"
proof -
  have "concat (map (entry_events emb) ps) = map (\<lambda>p. DEntry p (node_at emb p = Some Dir)) ps" for ps
    using assms by (induction ps) (auto simp: entry_events_def embedded_ok_def unrefused_def split: option.splits node.splits)
  with assms show ?thesis by (simp add: walk_dir_def embedded_ok_def entries_def del: list.map)
qed

lemma set_entries:
  assumes "embedded_ok emb"
  shows "p \<in> set (entries emb) \<longleftrightarrow> (\<exists>ts. ts \<noteq> [] \<and> p = under bundleRoot ts \<and> node_at emb p \<noteq> None)"
  using assms map_of_eq_None_iff [of "nodes emb" p]
  by (auto simp: entries_def walk_entries_def embedded_ok_def list_all_iff below_iff visited_def)

lemma entries_parent_first:
  assumes "embedded_ok emb" "entries emb = ps @ under bundleRoot (ts @ [n]) # qs" "ts \<noteq> []"
  shows "under bundleRoot ts \<in> set ps \<and> node_at emb (under bundleRoot ts) = Some Dir"
proof -
  have "visited emb (\<lambda>_. False) bundleRoot (under bundleRoot (ts @ [n]))"
  proof -
    have "under bundleRoot (ts @ [n]) \<in> set (entries emb)" using assms(2) by simp
    then show ?thesis by (auto simp: entries_def walk_entries_def)
  qed
  then have d: "node_at emb (under bundleRoot ts) = Some Dir"
    using assms(3) by (auto simp: visited_iff dest!: spec [of _ "length ts"])
  with assms(3) have "under bundleRoot ts \<in> set (entries emb)" by (auto simp: set_entries [OF assms(1)])
  moreover have "sorted (map comps (entries emb))" "distinct (entries emb)"
    by (simp_all add: entries_def walk_entries_def)
  moreover have "comps (under bundleRoot ts) < comps (under bundleRoot (ts @ [n]))"
    by (simp add: list_less_def lexord_append_leftI lexord_append_rightI)
  ultimately show ?thesis using assms(2) d by (auto simp: sorted_append)
qed

lemma rel_string:
  "ts \<noteq> [] \<Longrightarrow> trim_prefix (path_str bundleRoot @ ''/'') (path_str (under bundleRoot ts)) = join_slash ts"
proof -
  assume "ts \<noteq> []"
  then have "path_str (under bundleRoot ts) = (path_str bundleRoot @ ''/'') @ join_slash ts"
    by (cases ts) (simp_all add: bundleRoot_def path_str_def join_slash_def)
  then show ?thesis by (simp add: trim_prefix_def)
qed

lemma entry_names:
  assumes "embedded_ok emb" "node_at emb (under bundleRoot ts) \<noteq> None" shows "list_all plain_name ts"
proof -
  have "under bundleRoot ts \<in> fst ` set (nodes emb)" using assms(2) by (meson map_of_eq_None_iff)
  then have "list_all plain_name (comps (under bundleRoot ts))"
    using assms(1) unfolding embedded_ok_def list_all_iff by force
  then show ?thesis by simp
qed

lemma read_entry:
  assumes "embedded_ok emb" "node_at emb (under bundleRoot ts) = Some (File c)" "ts \<noteq> []"
  shows "read_file emb (under bundleRoot ts) = Inr c"
proof -
  have "under bundleRoot ts \<in> set (entries emb)" using assms set_entries [OF assms(1)] by auto
  then have "visited emb (\<lambda>_. False) bundleRoot (under bundleRoot ts)" by (auto simp: entries_def walk_entries_def)
  with assms show ?thesis
    using read_visited [of emb bundleRoot "\<lambda>_. False" ts c] by (simp add: embedded_ok_def)
qed

text \<open>Extracting one entry into a directory that has its parent and not the entry itself adds just that entry.\<close>

lemma extract_entry_new:
  assumes "embedded_ok emb" "wf_path dir" "unrefused f" "node_at emb (under bundleRoot (ts @ [n])) = Some nd"
    "dir_at f (under dir ts)" "node_at f (under dir (ts @ [n])) = None"
  shows "extract_entry emb dir (under bundleRoot (ts @ [n])) (nd = Dir) f = (None, put_node (under dir (ts @ [n])) nd f)"
proof -
  have names: "list_all plain_name (ts @ [n])" using entry_names [OF assms(1)] assms(4) by blast
  have dst: "path_join dir (trim_prefix (path_str bundleRoot @ ''/'') (path_str (under bundleRoot (ts @ [n])))) = child (under dir ts) n"
    using path_join_under [OF assms(2) _ names] by (simp add: rel_string child_def del: append_assoc)
  have ne: "under bundleRoot (ts @ [n]) \<noteq> bundleRoot" by (simp add: bundleRoot_def)
  have new: "node_at f (child (under dir ts) n) = None" using assms(6) by (simp add: child_def)
  show ?thesis
  proof (cases nd)
    case Dir
    then show ?thesis
      using mkdir_all_new [OF assms(3,5) new] ne dst
      by (simp add: extract_entry_def under_child del: append_assoc)
  next
    case (File c)
    then show ?thesis
      using ne new assms(3,5) read_entry [OF assms(1), of "ts @ [n]" c] assms(4) dst
      by (simp add: extract_entry_def write_file_child under_child del: append_assoc)
  qed
qed

text \<open>The tree below a directory after some entries have been extracted into it.\<close>

definition extracted :: "fs \<Rightarrow> path \<Rightarrow> path list \<Rightarrow> fs \<Rightarrow> bool" where
  "extracted emb dir ps f \<longleftrightarrow> unrefused f \<and> dir_at f dir
    \<and> (\<forall>ts. ts \<noteq> [] \<longrightarrow> node_at f (under dir ts) = (if under bundleRoot ts \<in> set ps then node_at emb (under bundleRoot ts) else None))
    \<and> (\<forall>ts. under bundleRoot ts \<in> set ps \<and> node_at emb (under bundleRoot ts) = Some Dir \<longrightarrow> dir_at f (under dir ts))"

lemma extract_step:
  assumes "embedded_ok emb" "wf_path dir" "extracted emb dir ps f" "entries emb = ps @ p # qs"
  shows "\<exists>f'. extract_entry emb dir p (node_at emb p = Some Dir) f = (None, f') \<and> extracted emb dir (ps @ [p]) f'
    \<and> (\<forall>q. \<not> below dir q \<longrightarrow> node_at f' q = node_at f q)"
proof -
  have "p \<in> set (entries emb)" using assms(4) by simp
  then obtain us nd where us: "us \<noteq> []" "p = under bundleRoot us" "node_at emb p = Some nd"
    using set_entries [OF assms(1)] by auto
  from us(1) obtain ts n where tn: "us = ts @ [n]" by (cases us rule: rev_cases) auto
  have p: "p = under bundleRoot (ts @ [n])" using us(2) tn by simp
  have "p \<notin> set ps" using assms(4) by (metis distinct_append entries_def walk_entries_def distinct_sort distinct_filter
      distinct_remdups disjoint_insert(1) list.set(2))
  then have new: "node_at f (under dir (ts @ [n])) = None" using assms(3) p by (simp add: extracted_def)
  have parent: "dir_at f (under dir ts)"
  proof (cases "ts = []")
    case True
    then show ?thesis using assms(3) by (cases dir) (simp add: extracted_def)
  next
    case False
    then show ?thesis using entries_parent_first [OF assms(1) _ False] assms(3,4) p by (auto simp: extracted_def)
  qed
  let ?f = "put_node (under dir (ts @ [n])) nd f"
  have "extract_entry emb dir p (node_at emb p = Some Dir) f = (None, ?f)"
    using extract_entry_new [OF assms(1,2) _ _ parent new] assms(3) us(3) p by (simp add: extracted_def)
  moreover have "extracted emb dir (ps @ [p]) ?f"
    unfolding extracted_def
  proof (intro conjI allI impI)
    show "unrefused ?f" "dir_at ?f dir" using assms(3) new by (simp_all add: extracted_def dir_at_put_new)
    show "node_at ?f (under dir vs) = (if under bundleRoot vs \<in> set (ps @ [p]) then node_at emb (under bundleRoot vs) else None)"
      if "vs \<noteq> []" for vs
      using that assms(3) us(3) p by (auto simp: extracted_def)
    show "dir_at ?f (under dir vs)" if v: "under bundleRoot vs \<in> set (ps @ [p]) \<and> node_at emb (under bundleRoot vs) = Some Dir" for vs
    proof (cases "under bundleRoot vs \<in> set ps")
      case True
      then show ?thesis using v assms(3) new by (simp add: extracted_def dir_at_put_new)
    next
      case False
      with v p have "vs = ts @ [n]" by simp
      with v us(3) p have "vs = ts @ [n]" "nd = Dir" by auto
      moreover have "dir_at (put_node (child (under dir ts) n) Dir f) (child (under dir ts) n)"
        using dir_at_put_new [OF parent, of "child (under dir ts) n" Dir] new by (simp add: under_child del: append_assoc)
      ultimately show ?thesis by (simp add: under_child del: append_assoc)
    qed
  qed
  moreover have "\<forall>q. \<not> below dir q \<longrightarrow> node_at ?f q = node_at f q" by auto
  ultimately show ?thesis by blast
qed

lemma extract_rest:
  assumes "embedded_ok emb" "wf_path dir" "extracted emb dir ps f" "entries emb = ps @ qs"
  shows "\<exists>f'. extract_events emb dir (map (\<lambda>p. DEntry p (node_at emb p = Some Dir)) qs) f = (None, f')
    \<and> extracted emb dir (entries emb) f' \<and> (\<forall>q. \<not> below dir q \<longrightarrow> node_at f' q = node_at f q)"
  using assms(3,4)
proof (induction qs arbitrary: ps f)
  case (Cons p qs)
  obtain f1 where f1: "extract_entry emb dir p (node_at emb p = Some Dir) f = (None, f1)" "extracted emb dir (ps @ [p]) f1"
    "\<forall>q. \<not> below dir q \<longrightarrow> node_at f1 q = node_at f q"
    using extract_step [OF assms(1,2) Cons.prems] by blast
  with Cons.IH [of "ps @ [p]" f1] Cons.prems(2) show ?case by simp
qed simp

text \<open>Extraction into an empty directory copies the whole tree and touches nothing else.\<close>

lemma extract_into_copies:
  assumes "embedded_ok emb" "wf_path dir" "unrefused f" "dir_at f dir" "\<forall>ts. ts \<noteq> [] \<longrightarrow> node_at f (under dir ts) = None"
  shows "\<exists>f'. extract_into emb dir f = (Inr dir, f') \<and> unrefused f' \<and> dir_at f' dir
    \<and> (\<forall>ts. ts \<noteq> [] \<longrightarrow> node_at f' (under dir ts) = node_at emb (under bundleRoot ts))
    \<and> (\<forall>q. \<not> below dir q \<longrightarrow> node_at f' q = node_at f q)"
proof -
  have "extracted emb dir [] f" using assms(3-5) by (simp add: extracted_def)
  from extract_rest [OF assms(1,2) this] obtain f' where f':
    "extract_events emb dir (map (\<lambda>p. DEntry p (node_at emb p = Some Dir)) (entries emb)) f = (None, f')"
    "extracted emb dir (entries emb) f'" "\<forall>q. \<not> below dir q \<longrightarrow> node_at f' q = node_at f q"
    by auto
  have "extract_into emb dir f = (Inr dir, f')"
    using f'(1) by (simp add: extract_into_def walk_dir_entries [OF assms(1)] extract_entry_def)
  moreover have "node_at f' (under dir ts) = node_at emb (under bundleRoot ts)" if "ts \<noteq> []" for ts
    using that f'(2) set_entries [OF assms(1), of "under bundleRoot ts"] by (auto simp: extracted_def)
  ultimately show ?thesis using f' by (simp add: extracted_def)
qed

section \<open>A bundle loads the same from a copy\<close>

text \<open>The names below a root of the files a walk hands out.\<close>

definition rels :: "fs \<Rightarrow> (string \<Rightarrow> bool) \<Rightarrow> path \<Rightarrow> string list list" where
  "rels f skip r = map (\<lambda>p. drop (length (comps r)) (comps p)) (walk_files f skip r)"

lemma walk_files_rels: "walk_files f skip r = map (under r) (rels f skip r)"
proof -
  have "under r (drop (length (comps r)) (comps p)) = p" if "p \<in> set (walk_files f skip r)" for p
    using that by (auto simp: set_walk_files visited_def below_iff)
  then show ?thesis by (simp add: rels_def comp_def map_idI)
qed

lemma append_le_iff: "cs @ xs \<le> cs @ ys \<longleftrightarrow> xs \<le> (ys :: string list)"
  by (induction cs) auto

lemma rels_sorted: "sorted (rels f skip r)" "distinct (rels f skip r)"
proof -
  have "sorted (map comps (walk_files f skip r))" by (simp add: walk_files_def walk_entries_def sorted_filter)
  then have "sorted (map ((@) (comps r)) (rels f skip r))" by (simp add: walk_files_rels comp_def)
  then show "sorted (rels f skip r)" by (simp add: sorted_map append_le_iff)
  show "distinct (rels f skip r)"
    using walk_files_distinct [of f skip r] by (simp add: walk_files_rels distinct_map)
qed

lemma set_rels: "ts \<in> set (rels f skip r) \<longleftrightarrow> visited f skip r (under r ts) \<and> is_file (node_at f (under r ts))"
proof -
  have "ts \<in> set (rels f skip r) \<longleftrightarrow> under r ts \<in> set (walk_files f skip r)"
    by (auto simp: walk_files_rels)
  then show ?thesis by (simp add: set_walk_files)
qed

text \<open>A copy may have one more file, the digest of the cache.\<close>

definition copy_of :: "fs \<Rightarrow> path \<Rightarrow> fs \<Rightarrow> path \<Rightarrow> bool" where
  "copy_of f r f' r' \<longleftrightarrow> unrefused f \<and> unrefused f' \<and> stat f r = Inr Dir \<and> stat f' r' = Inr Dir \<and> name_path r \<and> name_path r'
    \<and> (\<forall>ts. ts \<noteq> [] \<and> ts \<noteq> [bundleSHAFile] \<longrightarrow> node_at f' (under r' ts) = node_at f (under r ts))
    \<and> node_at f (under r [bundleSHAFile]) = None \<and> node_at f' (under r' [bundleSHAFile]) \<noteq> Some Dir"

lemma rels_copy:
  assumes "copy_of f r f' r'"
  shows "filter (\<lambda>ts. ts \<noteq> [bundleSHAFile]) (rels f' skip r') = rels f skip r"
proof (rule sorted_distinct_set_unique)
  have dir: "node_at f' (under r' us) = Some Dir \<longleftrightarrow> node_at f (under r us) = Some Dir" if "us \<noteq> []" for us
    using that assms by (cases "us = [bundleSHAFile]") (auto simp: copy_of_def)
  have vis: "visited f' skip r' (under r' ts) \<longleftrightarrow> visited f skip r (under r ts)" for ts
    unfolding visited_iff using dir [of "take i ts" for i] by (metis take_eq_Nil less_numeral_extra(3))
  have "ts \<in> set (rels f' skip r') \<longleftrightarrow> ts \<in> set (rels f skip r)" if "ts \<noteq> [bundleSHAFile]" for ts
  proof (cases "ts = []")
    case True
    then show ?thesis using vis [of ts] by (simp add: set_rels visited_def below_def)
  next
    case False
    then have "node_at f' (under r' ts) = node_at f (under r ts)" using that assms by (simp add: copy_of_def)
    then show ?thesis by (simp add: set_rels vis)
  qed
  moreover have "[bundleSHAFile] \<notin> set (rels f skip r)" using assms by (simp add: set_rels copy_of_def)
  ultimately show "set (filter (\<lambda>ts. ts \<noteq> [bundleSHAFile]) (rels f' skip r')) = set (rels f skip r)"
    by (auto, metis)
qed (simp_all add: rels_sorted sorted_filter [of "\<lambda>x. x", simplified])

lemma walk_loop_copy:
  assumes "\<And>ts acc acc'. ts \<in> set tss \<Longrightarrow> ts \<noteq> x \<Longrightarrow> fn (g ts) acc = Inr acc' \<Longrightarrow> fn' (g' ts) acc = Inr acc'"
    "\<And>acc. x \<in> set tss \<Longrightarrow> fn' (g' x) acc = Inr acc"
    "walk_loop fn (map (\<lambda>ts. WFile (g ts)) (filter (\<lambda>ts. ts \<noteq> x) tss)) acc = Inr res"
  shows "walk_loop fn' (map (\<lambda>ts. WFile (g' ts)) tss) acc = Inr res"
  using assms
proof (induction tss arbitrary: acc)
  case (Cons ts tss)
  show ?case
  proof (cases "ts = x")
    case True
    then show ?thesis using Cons by simp
  next
    case False
    with Cons.prems(3) obtain acc1 where a: "fn (g ts) acc = Inr acc1"
      "walk_loop fn (map (\<lambda>ts. WFile (g ts)) (filter (\<lambda>ts. ts \<noteq> x) tss)) acc1 = Inr res"
      by (auto split: sum.splits)
    with Cons.prems(1) [OF _ False a(1)] have "fn' (g' ts) acc = Inr acc1" by simp
    with Cons.IH [of acc1] Cons.prems a show ?thesis by simp
  qed
qed simp

lemma walk_rels:
  assumes "unrefused f" "stat f r = Inr Dir" "name_path r" "given_base (path_str r) \<noteq> ''tests''"
  shows "walk f is_tests (path_str r) = map (\<lambda>ts. WFile (under r ts)) (rels f is_tests r)"
  using assms by (simp add: walk_unrefused stat_str_path clean_path_str is_tests_def walk_files_rels comp_def)

lemma rels_read:
  assumes "unrefused f" "stat f r = Inr Dir" "ts \<in> set (rels f skip r)"
  shows "read_file f (under r ts) = Inr (content (node_at f (under r ts)))" "ts \<noteq> []"
proof -
  have v: "visited f skip r (under r ts)" "is_file (node_at f (under r ts))" using assms(3) by (simp_all add: set_rels)
  then obtain c where "node_at f (under r ts) = Some (File c)" by (auto simp: is_file_def split: option.splits node.splits)
  with v(1) assms(1,2) show "read_file f (under r ts) = Inr (content (node_at f (under r ts)))"
    using read_visited [of f r skip ts c] by simp
  show "ts \<noteq> []" using v(1) by (simp add: visited_iff)
qed

lemma rels_copy_content:
  assumes "copy_of f r f' r'" "ts \<in> set (rels f' skip r')" "ts \<noteq> [bundleSHAFile]"
  shows "ts \<in> set (rels f skip r)" "node_at f' (under r' ts) = node_at f (under r ts)"
proof -
  have "ts \<in> set (filter (\<lambda>ts. ts \<noteq> [bundleSHAFile]) (rels f' skip r'))" using assms(2,3) by simp
  then show "ts \<in> set (rels f skip r)" by (simp only: rels_copy [OF assms(1)])
  have "ts \<noteq> []" using rels_read(2) [OF _ _ assms(2)] assms(1) by (simp add: copy_of_def)
  with assms(1,3) show "node_at f' (under r' ts) = node_at f (under r ts)" by (simp add: copy_of_def)
qed

lemma sha_file_ignored:
  "bundle_step f s (under r [bundleSHAFile]) acc = Inr acc" "data_step f s (under r [bundleSHAFile]) acc' = Inr acc'"
proof -
  have "path_ext (under r [bundleSHAFile]) = path_ext (Path False [bundleSHAFile])"
    by (simp add: path_ext_def path_base_def)
  moreover have "path_ext (Path False [bundleSHAFile]) \<noteq> ''.rego''" by code_simp
  ultimately show "bundle_step f s (under r [bundleSHAFile]) acc = Inr acc" by (simp add: bundle_step_def)
  show "data_step f s (under r [bundleSHAFile]) acc' = Inr acc'"
    by (simp add: data_step_def path_base_def bundleSHAFile_def)
qed

lemma bundle_step_copy:
  assumes "read_file f (under r ts) = read_file f' (under r' ts)" "ts \<noteq> []" "clean_path (bs_dir s) = r" "clean_path (bs_dir s') = r'"
  shows "bundle_step f' s' (under r' ts) acc = bundle_step f s (under r ts) acc"
  using assms by (simp add: bundle_step_def add_module_def path_rel_below path_ext_def path_base_def)

lemma path_dir_under: "ts \<noteq> [] \<Longrightarrow> path_dir (under r ts) = under r (butlast ts)"
  by (simp add: path_dir_def butlast_append)

lemma data_step_copy:
  assumes "read_file f (under r ts) = read_file f' (under r' ts)" "ts \<noteq> []" "clean_path (bs_dir s) = r" "clean_path (bs_dir s') = r'"
    "bs_manifest s' = bs_manifest s" "data_step f s (under r ts) acc = Inr acc'"
  shows "data_step f' s' (under r' ts) acc = Inr acc'"
proof -
  have "data_step f' s' (under r' ts) acc = data_step f s (under r ts) acc \<or> (\<exists>err. data_step f s (under r ts) acc = Inl err)"
    unfolding data_step_def using assms(1-5)
    by (simp add: path_dir_under path_rel_below path_base_def split: sum.split option.split)
  with assms(6) show ?thesis by auto
qed

lemma walk_loop_tree_copy:
  assumes "copy_of f r f' r'" "given_base (path_str r) \<noteq> ''tests''" "given_base (path_str r') \<noteq> ''tests''"
    "\<And>ts acc acc'. read_file f (under r ts) = read_file f' (under r' ts) \<Longrightarrow> ts \<noteq> [] \<Longrightarrow>
      fn (under r ts) acc = Inr acc' \<Longrightarrow> fn' (under r' ts) acc = Inr acc'"
    "\<And>acc. fn' (under r' [bundleSHAFile]) acc = Inr acc"
    "walk_loop fn (walk f is_tests (path_str r)) acc = Inr res"
  shows "walk_loop fn' (walk f' is_tests (path_str r')) acc = Inr res"
proof -
  have c: "unrefused f" "unrefused f'" "stat f r = Inr Dir" "stat f' r' = Inr Dir" "name_path r" "name_path r'"
    using assms(1) by (simp_all add: copy_of_def)
  have "walk_loop fn (map (\<lambda>ts. WFile (under r ts)) (filter (\<lambda>ts. ts \<noteq> [bundleSHAFile]) (rels f' is_tests r'))) acc = Inr res"
    using assms(6) unfolding rels_copy [OF assms(1)] walk_rels [OF c(1,3,5) assms(2)] .
  then have "walk_loop fn' (map (\<lambda>ts. WFile (under r' ts)) (rels f' is_tests r')) acc = Inr res"
  proof (rule walk_loop_copy [where g = "under r" and x = "[bundleSHAFile]", rotated 2])
    fix ts acc acc' assume ts: "ts \<in> set (rels f' is_tests r')" "ts \<noteq> [bundleSHAFile]" "fn (under r ts) acc = Inr acc'"
    have "read_file f (under r ts) = read_file f' (under r' ts)"
      using rels_copy_content [OF assms(1) ts(1,2)] rels_read(1) [OF c(1,3)] rels_read(1) [OF c(2,4) ts(1)] by simp
    then show "fn' (under r' ts) acc = Inr acc'" using assms(4) rels_read(2) [OF c(2,4) ts(1)] ts(3) by blast
  qed (rule assms(5))
  then show ?thesis by (simp add: walk_rels [OF c(2,4,6) assms(3)])
qed

lemma bundle_copy:
  assumes "copy_of f r f' r'" "given_base (path_str r) \<noteq> ''tests''" "given_base (path_str r') \<noteq> ''tests''"
    "NewBundleSource f (path_str r) = Inr b" "bundle_LoadPolicy f b = Inr ms" "bundle_LoadData f b = Inr d"
  shows "NewBundleSource f' (path_str r') = Inr (b\<lparr>bs_dir := path_str r'\<rparr>)"
    "bundle_LoadPolicy f' (b\<lparr>bs_dir := path_str r'\<rparr>) = Inr ms" "bundle_LoadData f' (b\<lparr>bs_dir := path_str r'\<rparr>) = Inr d"
proof -
  let ?b = "b\<lparr>bs_dir := path_str r'\<rparr>"
  have c: "name_path r" "name_path r'" "clean_path (path_str r) = r" "clean_path (path_str r') = r'"
    using assms(1) by (simp_all add: copy_of_def clean_path_str)
  have dir: "bs_dir b = path_str r"
    using assms(4) by (auto simp: NewBundleSource_def split: sum.splits option.splits if_splits)
  have plain: "plain_name ''.manifest''" by (simp add: plain_name_def)
  have man: "read_file f (child r ''.manifest'') = read_file f' (child r' ''.manifest'')"
  proof -
    have "\<not> blocked f (child r ''.manifest'')" "\<not> blocked f' (child r' ''.manifest'')"
      using assms(1) by (auto simp: copy_of_def stat_def blocked_def split: if_splits option.splits)
    moreover have "node_at f' (child r' ''.manifest'') = node_at f (child r ''.manifest'')"
      using assms(1) by (simp add: copy_of_def child_def bundleSHAFile_def)
    ultimately show ?thesis using assms(1) by (simp add: read_file_def copy_of_def unrefused_def)
  qed
  have "path_join r ''.manifest'' = child r ''.manifest''" "path_join r' ''.manifest'' = child r' ''.manifest''"
    using c plain by (simp_all add: name_path_def)
  with assms(4) man c show "NewBundleSource f' (path_str r') = Inr ?b"
    by (auto simp: NewBundleSource_def split: sum.splits option.splits if_splits)
  obtain ms' where "walk_loop (bundle_step f b) (walk f is_tests (path_str r)) [] = Inr ms'" "ms' = ms" "ms \<noteq> []"
    using assms(5) dir by (auto simp: bundle_LoadPolicy_def split: sum.splits if_splits)
  with walk_loop_tree_copy [OF assms(1-3), of "bundle_step f b" "bundle_step f' ?b" "[]" ms] show "bundle_LoadPolicy f' ?b = Inr ms"
    using bundle_step_copy [of f r _ f' r' b ?b] dir c sha_file_ignored(1) by (simp add: bundle_LoadPolicy_def)
  obtain dm where "walk_loop (data_step f b) (walk f is_tests (path_str r)) [] = Inr dm"
    "d = (if dm = [] then [] else marshal (dval_json (DMap dm)))"
    using assms(6) dir by (auto simp: bundle_LoadData_def split: sum.splits if_splits)
  with walk_loop_tree_copy [OF assms(1-3), of "data_step f b" "data_step f' ?b" "[]" dm] show "bundle_LoadData f' ?b = Inr d"
    using data_step_copy [of f r _ f' r' b ?b] dir c sha_file_ignored(2) by (simp add: bundle_LoadData_def)
qed

section \<open>The cache\<close>

text \<open>The digest is printed as hexadecimal digits.\<close>

definition hex_digest :: "(string \<Rightarrow> string) \<Rightarrow> bool" where
  "hex_digest sha \<longleftrightarrow> (\<forall>s. sha s \<noteq> [] \<and> list_all (\<lambda>c. hex_val c \<noteq> None) (sha s))"

lemma hex_solid: "hex_val c \<noteq> None \<Longrightarrow> solid c"
  by (auto simp: hex_val_def solid_def split: if_splits)

lemma trim_line:
  assumes "w \<noteq> []" "solid (hd w)" "solid (last w)" shows "trim_space (w @ [CHR 0x0A]) = w"
proof -
  have "trim_left space_runes (w @ [CHR 0x0A]) = w @ [CHR 0x0A]"
  proof (rule trim_left_id)
    fix r assume r: "r \<in> set space_runes" "r \<noteq> []"
    then show "\<not> prefix r (w @ [CHR 0x0A])"
      using solid_no_space_rune(1) [OF r(1)] prefix_hd [of r "w @ [CHR 0x0A]"] assms by auto
  qed
  moreover have "trim_left (map rev space_runes) (CHR 0x0A # rev w) = trim_left (map rev space_runes) (rev w)"
    by (subst trim_left.simps) (simp add: space_runes_def)
  moreover have "trim_left space_runes w = w"
    by (rule trim_left_id) (metis assms(1,2) prefix_hd solid_no_space_rune(1))
  ultimately show ?thesis using trim_space_solid [OF assms] by (simp add: trim_space_def)
qed

lemma name_path_entry:
  assumes "embedded_ok emb" "node_at emb (under bundleRoot ts) \<noteq> None" shows "name_path (under bundleRoot ts)"
proof -
  have "list_all plain_name ts" by (rule entry_names [OF assms])
  moreover have "list_all plain_name (comps bundleRoot)" by (simp add: bundleRoot_def plain_name_def)
  ultimately have "list_all plain_name (comps (under bundleRoot ts))" by simp
  then show ?thesis
    using ok_stack_plain [of "rev (comps (under bundleRoot ts))" False "[]"]
    by (auto simp: name_path_def wf_path_def list_all_iff plain_name_def bundleRoot_def)
qed

lemma embedded_hash_total:
  assumes "embedded_ok emb" shows "\<exists>want. embeddedBundleHash sha emb = Inr want"
proof -
  let ?file = "\<lambda>p. node_at emb p \<noteq> Some Dir"
  have "walked_files (map (\<lambda>p. DEntry p (node_at emb p = Some Dir)) ps) = Inr (map path_str (filter ?file ps))" for ps
    by (induction ps) auto
  moreover have "node_at emb bundleRoot = Some Dir"
    using assms by (auto simp: embedded_ok_def stat_def split: if_splits option.splits)
  ultimately have walked: "walked_files (walk_dir emb bundleRoot) = Inr (map path_str (filter ?file (entries emb)))"
    by (simp add: walk_dir_entries [OF assms])
  have "\<exists>c. read_file emb (clean_path q) = Inr c" if q: "q \<in> set (sort (map path_str (filter ?file (entries emb))))" for q
  proof -
    obtain p where p: "p \<in> set (entries emb)" "?file p" "q = path_str p" using q by auto
    then obtain ts where ts: "ts \<noteq> []" "p = under bundleRoot ts" "node_at emb p \<noteq> None" using set_entries [OF assms] by blast
    then obtain c where c: "node_at emb (under bundleRoot ts) = Some (File c)" using p(2) by (cases "node_at emb p"; cases "the (node_at emb p)") auto
    then show ?thesis using read_entry [OF assms c ts(1)] name_path_entry [OF assms] p(3) ts(2) clean_path_str by force
  qed
  moreover have "(\<And>q. q \<in> set qs \<Longrightarrow> \<exists>c. read_file emb (clean_path q) = Inr c) \<Longrightarrow> \<exists>s. digest_files emb qs = Inr s" for qs
    by (induction qs) fastforce+
  ultimately obtain s where "digest_files emb (sort (map path_str (filter ?file (entries emb)))) = Inr s" by blast
  with walked show ?thesis by (simp add: embeddedBundleHash_def embedded_digest_input_def)
qed

lemma cache_path:
  "\<exists>home. bundleCachePath e = under (clean_path home) [''.evidra'', ''bundles'', ''ops-v0.1''] \<and> name_path (bundleCachePath e)"
proof -
  define home where "home = (if e_getenv e ''HOME'' = [] then temp_root e else e_getenv e ''HOME'')"
  have "path_join (clean_path home) (join_slash [''.evidra'', ''bundles'', ''ops-v0.1'']) =
      under (clean_path home) [''.evidra'', ''bundles'', ''ops-v0.1'']"
    by (rule path_join_under) (simp_all add: plain_name_def)
  then have "bundleCachePath e = under (clean_path home) [''.evidra'', ''bundles'', ''ops-v0.1'']"
    by (simp add: bundleCachePath_def home_def [symmetric] join_slash_def Let_def)
  moreover have "name_path (bundleCachePath e)" by (simp add: bundleCachePath_def Let_def)
  ultimately show ?thesis by blast
qed

lemma sha_path: "wf_path d \<Longrightarrow> path_join d bundleSHAFile = child d bundleSHAFile"
  by (simp add: bundleSHAFile_def plain_name_def)

text \<open>After a miss the cache is a copy of the compiled-in tree together with its digest.\<close>

lemma extract_cached_copies:
  fixes e defines "dir \<equiv> bundleCachePath e"
  assumes "embedded_ok emb" "unrefused f" "\<not> blocked f dir" "embeddedBundleHash sha emb = Inr want" "\<not> cache_hit f dir want"
  shows "\<exists>f'. extractEmbeddedBundleCached sha e emb f = (Inr dir, f') \<and> copy_of emb bundleRoot f' dir
    \<and> read_file f' (path_join dir bundleSHAFile) = Inr (want @ [CHR 0x0A])
    \<and> (\<forall>q. q \<noteq> dir \<and> \<not> below dir q \<and> q \<notin> set (ancestors dir) \<longrightarrow> node_at f' q = node_at f q)"
proof -
  let ?g = "remove_all f dir" and ?sha = "child dir bundleSHAFile"
  have np: "name_path dir" "wf_path dir" using cache_path [of e] by (auto simp: dir_def name_path_def)
  have "\<forall>q \<in> set (ancestors dir @ [dir]). \<not> is_file (node_at ?g q)"
    using assms(3,4) by (auto simp: blocked_def)
  with assms(3) obtain f1 where f1: "mkdir_all ?g dir = (None, f1)" "unrefused f1"
    "\<forall>q. node_at f1 q = (if q \<in> set (ancestors dir @ [dir]) then Some Dir else node_at ?g q)"
    using mkdirs_ok [of ?g "ancestors dir @ [dir]"] by (auto simp: mkdir_all_def)
  have "node_at f1 (under dir ts) = None" if "ts \<noteq> []" for ts
  proof -
    have b: "below dir (under dir ts)" using that by simp
    then have "under dir ts \<notin> set (ancestors dir @ [dir])"
      using below_not_ancestor [of "under dir ts" dir] by (cases dir) (auto simp: below_def)
    with b f1(3) assms(3) show ?thesis by simp
  qed
  moreover have "dir_at f1 dir" using f1(3) by (simp add: dir_at_def)
  ultimately obtain f2 where f2: "extract_into emb dir f1 = (Inr dir, f2)" "unrefused f2" "dir_at f2 dir"
    "\<forall>ts. ts \<noteq> [] \<longrightarrow> node_at f2 (under dir ts) = node_at emb (under bundleRoot ts)"
    "\<forall>q. \<not> below dir q \<longrightarrow> node_at f2 q = node_at f1 q"
    using extract_into_copies [OF assms(2) np(2) f1(2)] by blast
  have free: "node_at f2 ?sha = None" using f2(4) assms(2) by (simp add: child_def embedded_ok_def)
  let ?f = "put_node ?sha (File (want @ [CHR 0x0A])) f2"
  have "extractEmbeddedBundleCached sha e emb f = (Inr dir, ?f)"
    using assms(5,6) f1(1) f2(1-3) free
    by (simp add: extractEmbeddedBundleCached_def dir_def [symmetric] Let_def mcp_extractEmbeddedBundle_def sha_path np write_file_child)
  moreover have d: "dir_at ?f dir" "unrefused ?f" using f2 free by (simp_all add: dir_at_put_new)
  moreover have "copy_of emb bundleRoot ?f dir"
    using assms(2) f2(4) d np stat_dir [OF d(2,1)] by (auto simp: copy_of_def embedded_ok_def child_def name_path_def wf_path_def bundleRoot_def)
  moreover have "read_file ?f (path_join dir bundleSHAFile) = Inr (want @ [CHR 0x0A])"
    using read_file_child [OF d(2,1)] np by (simp add: sha_path)
  moreover have "node_at ?f q = node_at f q" if "q \<noteq> dir \<and> \<not> below dir q \<and> q \<notin> set (ancestors dir)" for q
  proof -
    have "q \<noteq> ?sha" using that by (auto simp: child_def)
    with that f1(3) f2(5) assms(3) show ?thesis by simp
  qed
  ultimately show ?thesis by blast
qed

section \<open>The temporary copy of the API server\<close>

text \<open>Every entry of a file system is in a directory of it.\<close>

definition tree_ok :: "fs \<Rightarrow> bool" where
  "tree_ok f \<longleftrightarrow> list_all (\<lambda>e. list_all (\<lambda>a. node_at f a = Some Dir) (ancestors (fst e))) (nodes f)"

lemma tree_okD: "tree_ok f \<Longrightarrow> node_at f p = Some n \<Longrightarrow> a \<in> set (ancestors p) \<Longrightarrow> node_at f a = Some Dir"
  by (drule map_of_SomeD) (auto simp: tree_ok_def list_all_iff)

lemma tree_ok_dir: "tree_ok f \<Longrightarrow> node_at f d = Some Dir \<Longrightarrow> dir_at f d"
  by (auto simp: dir_at_def dest: tree_okD)

lemma tree_ok_empty:
  assumes "tree_ok f" "node_at f d = None" shows "node_at f (under d ts) = None"
proof (rule ccontr)
  assume "node_at f (under d ts) \<noteq> None"
  then obtain n where n: "node_at f (under d ts) = Some n" by blast
  with assms(2) have "ts \<noteq> []" by (cases d) auto
  then have "d \<in> set (ancestors (under d ts))"
    using ancestors_append [of "rooted d" "comps d" ts] by (cases d) (auto intro!: image_eqI [of _ _ 0])
  with tree_okD [OF assms(1) n] assms(2) show False by simp
qed

lemma mkdir_temp_new:
  assumes "tree_ok f" "unrefused f" "wf_path t" "list_all (\<lambda>r. CHR ''/'' \<notin> set r) rs"
    "mkdir_temp t ''evidra-bundle-'' rs f = (res, f1)"
  shows "case res of Inl _ \<Rightarrow> f1 = f
    | Inr dir \<Rightarrow> (\<exists>r. dir = child t (''evidra-bundle-'' @ r) \<and> plain_name (''evidra-bundle-'' @ r)) \<and> node_at f dir = None
        \<and> dir_at f t \<and> f1 = put_node dir Dir f"
  using assms(4,5)
proof (induction rs)
  case (Cons r rs)
  have "plain_name (''evidra-bundle-'' @ r)" using Cons.prems(1) by (simp add: plain_name_def)
  moreover from this have "path_join t (''evidra-bundle-'' @ r) = child t (''evidra-bundle-'' @ r)" by (rule path_join_child [OF assms(3)])
  ultimately show ?case
    using Cons assms(2) tree_ok_dir [OF assms(1)] by (auto simp: Let_def unrefused_def split: if_splits)
qed auto

text \<open>The directory the API server makes for itself is new, and after the extraction it is a copy of what was compiled in.\<close>

lemma api_extract_copies:
  assumes "embedded_ok emb" "tree_ok f" "unrefused f" "list_all (\<lambda>r. CHR ''/'' \<notin> set r) rs"
    "api_extractEmbeddedBundle e rs emb f = (res, f')"
  shows "case res of Inl _ \<Rightarrow> f' = f
    | Inr dir \<Rightarrow> copy_of emb bundleRoot f' dir \<and> given_base (path_str dir) \<noteq> ''tests''
        \<and> (\<forall>q. node_at (remove_all f' dir) q = node_at f q)"
proof -
  let ?t = "clean_path (temp_root e)"
  obtain r0 f1 where mk: "mkdir_temp ?t ''evidra-bundle-'' rs f = (r0, f1)" by force
  note new = mkdir_temp_new [OF assms(2,3) wf_clean_path assms(4) mk]
  show ?thesis
  proof (cases r0)
    case (Inl err)
    then show ?thesis using new mk assms(5) by (auto simp: api_extractEmbeddedBundle_def)
  next
    case (Inr dir)
    with new obtain r where r: "dir = child ?t (''evidra-bundle-'' @ r)" "plain_name (''evidra-bundle-'' @ r)" "node_at f dir = None"
      "dir_at f ?t" "f1 = put_node dir Dir f" by auto
    have name: "name_path dir"
      using name_path_join [OF name_path_clean, of "temp_root e" "''evidra-bundle-'' @ r"] path_join_child [OF wf_clean_path r(2), of "temp_root e"] r(1)
      by metis
    have d: "dir_at f1 dir" using dir_at_put_new [OF r(4,3)] r(1,5) by simp
    have "\<forall>ts. ts \<noteq> [] \<longrightarrow> node_at f1 (under dir ts) = None"
      using tree_ok_empty [OF assms(2) r(3)] r(5) by (cases dir) simp
    with extract_into_copies [OF assms(1) _ _ d] name assms(3) r(5) obtain f2 where f2: "extract_into emb dir f1 = (Inr dir, f2)"
      "unrefused f2" "dir_at f2 dir" "\<forall>ts. ts \<noteq> [] \<longrightarrow> node_at f2 (under dir ts) = node_at emb (under bundleRoot ts)"
      "\<forall>q. \<not> below dir q \<longrightarrow> node_at f2 q = node_at f1 q"
      by (auto simp: name_path_def)
    have "copy_of emb bundleRoot f2 dir"
      using assms(1) f2(2-4) name stat_dir [OF f2(2,3)] by (auto simp: copy_of_def embedded_ok_def name_path_def wf_path_def bundleRoot_def)
    moreover have "given_base (path_str dir) \<noteq> ''tests''" using given_base_str [OF name] r(1) by (simp add: child_def)
    moreover have "node_at (remove_all f2 dir) q = node_at f q" for q
      using f2(2,5) r(3,5) tree_ok_empty [OF assms(2) r(3)] by (auto simp: below_iff)
    moreover have "res = Inr dir" "f' = f2" using assms(5) mk Inr f2(1) by (simp_all add: api_extractEmbeddedBundle_def)
    ultimately show ?thesis by simp
  qed
qed

section \<open>What every extraction promises\<close>

text \<open>
  Both servers open the directory an extraction gives them. The contract is that this directory is a copy of the
  compiled-in bundle; an evaluator then sees the same source whichever of the two made the copy.
\<close>

locale bundle_provider =
  fixes provide :: "fs \<Rightarrow> fs \<Rightarrow> (ioerr + path) \<times> fs" and ready :: "fs \<Rightarrow> fs \<Rightarrow> bool"
  assumes provides_copy: "embedded_ok emb \<Longrightarrow> ready emb f \<Longrightarrow> provide emb f = (Inr dir, f') \<Longrightarrow>
    copy_of emb bundleRoot f' dir \<and> given_base (path_str dir) \<noteq> ''tests''"
begin

lemma opens_same:
  assumes "embedded_ok emb" "ready emb f" "provide emb f = (Inr dir, f')"
    "NewBundleSource emb (path_str bundleRoot) = Inr b" "bundle_LoadPolicy emb b = Inr ms" "bundle_LoadData emb b = Inr d"
  shows "NewBundleSource f' (path_str dir) = Inr (b\<lparr>bs_dir := path_str dir\<rparr>)"
    "bundle_LoadPolicy f' (b\<lparr>bs_dir := path_str dir\<rparr>) = Inr ms" "bundle_LoadData f' (b\<lparr>bs_dir := path_str dir\<rparr>) = Inr d"
proof -
  have root: "given_base (path_str bundleRoot) \<noteq> ''tests''" by code_simp
  have "copy_of emb bundleRoot f' dir" "given_base (path_str dir) \<noteq> ''tests''" using provides_copy [OF assms(1-3)] by simp_all
  note same = bundle_copy [OF this(1) root this(2) assms(4-6)]
  show "NewBundleSource f' (path_str dir) = Inr (b\<lparr>bs_dir := path_str dir\<rparr>)" by (rule same(1))
  show "bundle_LoadPolicy f' (b\<lparr>bs_dir := path_str dir\<rparr>) = Inr ms" by (rule same(2))
  show "bundle_LoadData f' (b\<lparr>bs_dir := path_str dir\<rparr>) = Inr d" by (rule same(3))
qed

lemma source_same:
  assumes "embedded_ok emb" "ready emb f" "provide emb f = (Inr dir, f')"
    "NewBundleSource emb (path_str bundleRoot) = Inr b" "bundle_LoadPolicy emb b = Inr ms" "bundle_LoadData emb b = Inr d"
    "NewBundleSource f' (path_str dir) = Inr bs"
  shows "bundle_policy_source f' bs = bundle_policy_source emb b"
  using opens_same [OF assms(1-6)] assms(5-7)
  by (simp add: bundle_policy_source_def bundle_PolicyRef_def bundle_BundleRevision_def bundle_ProfileName_def)

end

text \<open>The cache of the MCP server, when it has to be filled, and the temporary directory of the API server.\<close>

definition cache_miss :: "(string \<Rightarrow> string) \<Rightarrow> env \<Rightarrow> fs \<Rightarrow> fs \<Rightarrow> bool" where
  "cache_miss sha e emb f \<longleftrightarrow> unrefused f \<and> \<not> blocked f (bundleCachePath e)
    \<and> (\<forall>want. embeddedBundleHash sha emb = Inr want \<longrightarrow> \<not> cache_hit f (bundleCachePath e) want)"

definition temp_ready :: "string list \<Rightarrow> fs \<Rightarrow> fs \<Rightarrow> bool" where
  "temp_ready rs emb f \<longleftrightarrow> tree_ok f \<and> unrefused f \<and> list_all (\<lambda>r. CHR ''/'' \<notin> set r) rs"

lemma cache_base: "given_base (path_str (bundleCachePath e)) \<noteq> ''tests''"
proof -
  obtain home where h: "bundleCachePath e = under (clean_path home) [''.evidra'', ''bundles'', ''ops-v0.1'']" "name_path (bundleCachePath e)"
    using cache_path [of e] by blast
  then have "comps (bundleCachePath e) \<noteq> []" "last (comps (bundleCachePath e)) = ''ops-v0.1''" by simp_all
  with given_base_str [OF h(2)] show ?thesis by simp
qed

interpretation cached: bundle_provider "extractEmbeddedBundleCached sha e" "cache_miss sha e" for sha e
proof
  fix emb f dir f'
  assume a: "embedded_ok emb" "cache_miss sha e emb f" "extractEmbeddedBundleCached sha e emb f = (Inr dir, f')"
  obtain want where "embeddedBundleHash sha emb = Inr want" using embedded_hash_total [OF a(1)] by blast
  with extract_cached_copies [OF a(1)] a(2,3) cache_base
  show "copy_of emb bundleRoot f' dir \<and> given_base (path_str dir) \<noteq> ''tests''"
    by (fastforce simp: cache_miss_def)
qed

interpretation temporary: bundle_provider "api_extractEmbeddedBundle e rs" "temp_ready rs" for e rs
proof
  fix emb f dir f'
  assume "embedded_ok emb" "temp_ready rs emb f" "api_extractEmbeddedBundle e rs emb f = (Inr dir, f')"
  then show "copy_of emb bundleRoot f' dir \<and> given_base (path_str dir) \<noteq> ''tests''"
    using api_extract_copies [of emb f rs e "Inr dir" f'] by (simp add: temp_ready_def)
qed

lemma cached_bundle_loads:
  assumes "embedded_ok emb" "hex_digest sha" "unrefused f" "\<not> blocked f (bundleCachePath e)"
    "\<forall>want. embeddedBundleHash sha emb = Inr want \<longrightarrow> \<not> cache_hit f (bundleCachePath e) want"
    "NewBundleSource emb (path_str bundleRoot) = Inr b" "bundle_LoadPolicy emb b = Inr ms" "bundle_LoadData emb b = Inr d"
  shows "\<exists>f' b'. extractEmbeddedBundleCached sha e emb f = (Inr (bundleCachePath e), f')
    \<and> NewBundleSource f' (path_str (bundleCachePath e)) = Inr b' \<and> bs_manifest b' = bs_manifest b
    \<and> bundle_LoadPolicy f' b' = Inr ms \<and> bundle_LoadData f' b' = Inr d
    \<and> extractEmbeddedBundleCached sha e emb f' = (Inr (bundleCachePath e), f') \<and> unrefused f'"
proof -
  let ?dir = "bundleCachePath e" and ?b = "b\<lparr>bs_dir := path_str (bundleCachePath e)\<rparr>"
  obtain want where want: "embeddedBundleHash sha emb = Inr want" using embedded_hash_total [OF assms(1)] by blast
  then obtain f' where f': "extractEmbeddedBundleCached sha e emb f = (Inr ?dir, f')" "copy_of emb bundleRoot f' ?dir"
    "read_file f' (path_join ?dir bundleSHAFile) = Inr (want @ [CHR 0x0A])"
    using extract_cached_copies [OF assms(1,3,4)] assms(5) by blast
  have digits: "want \<noteq> []" "\<forall>c \<in> set want. solid c"
    using want assms(2) hex_solid by (auto simp: embeddedBundleHash_def bind_res_eq_Inr_iff hex_digest_def list_all_iff)
  have "solid (hd want)" "solid (last want)" using digits by simp_all
  then have "cache_hit f' ?dir want" using f'(3) trim_line digits(1) by (simp add: cache_hit_def)
  then have "extractEmbeddedBundleCached sha e emb f' = (Inr ?dir, f')"
    using want by (simp add: extractEmbeddedBundleCached_def)
  moreover have "cache_miss sha e emb f" using assms(3-5) by (simp add: cache_miss_def)
  ultimately show ?thesis
    using f'(1,2) cached.opens_same [OF assms(1) _ f'(1) assms(6-8)]
    by (intro exI [of _ f'] exI [of _ ?b]) (simp add: copy_of_def)
qed

text \<open>C20
  The policy the MCP server evaluates when no bundle is named. On a cache miss the compiled-in bundle is written to the
  cache directory; opened from there it is the same bundle: same manifest, same modules, same data. The next start finds the
  digest, takes the cached copy and writes nothing.
\<close>

theorem cached_bundle_is_embedded:
  assumes "embedded_ok emb" "hex_digest sha" "unrefused f" "\<not> blocked f (bundleCachePath e)"
    "\<forall>want. embeddedBundleHash sha emb = Inr want \<longrightarrow> \<not> cache_hit f (bundleCachePath e) want"
    "NewBundleSource emb (path_str bundleRoot) = Inr b" "bundle_LoadPolicy emb b = Inr ms" "bundle_LoadData emb b = Inr d"
  shows "\<exists>f' b'. extractEmbeddedBundleCached sha e emb f = (Inr (bundleCachePath e), f')
    \<and> NewBundleSource f' (path_str (bundleCachePath e)) = Inr b' \<and> bs_manifest b' = bs_manifest b
    \<and> bundle_LoadPolicy f' b' = Inr ms \<and> bundle_LoadData f' b' = Inr d
    \<and> extractEmbeddedBundleCached sha e emb f' = (Inr (bundleCachePath e), f')"
  using cached_bundle_loads [OF assms] by blast

section \<open>An interrupted extraction is not trusted\<close>

lemma mkdirs_frame: "q \<notin> set ps \<Longrightarrow> node_at (snd (mkdirs ps f)) q = node_at f q \<and> refused (snd (mkdirs ps f)) = refused f"
  by (induction ps arbitrary: f) (auto split: option.splits node.splits)

lemma write_file_frame: "q \<noteq> p \<Longrightarrow> node_at (snd (write_file f p s)) q = node_at f q \<and> refused (snd (write_file f p s)) = refused f"
  by (auto simp: write_file_def split: option.splits)

lemma child_not_above: "child d n \<notin> set (ancestors d @ [d])"
proof
  assume "child d n \<in> set (ancestors d @ [d])"
  then have "length (comps (child d n)) \<le> length (comps d)" by (auto simp: ancestors_def)
  then show False by (simp add: child_def)
qed

lemma extract_entry_frame:
  assumes "embedded_ok emb" "wf_path dir" "p \<in> set (bundleRoot # entries emb)"
  shows "node_at (snd (extract_entry emb dir p isDir f)) (child dir bundleSHAFile) = node_at f (child dir bundleSHAFile)
    \<and> refused (snd (extract_entry emb dir p isDir f)) = refused f"
proof (cases "p = bundleRoot")
  case False
  then obtain ts where ts: "ts \<noteq> []" "p = under bundleRoot ts" "node_at emb p \<noteq> None"
    using assms(3) set_entries [OF assms(1)] by auto
  have dst: "path_join dir (trim_prefix (path_str bundleRoot @ ''/'') (path_str p)) = under dir ts"
    using path_join_under [OF assms(2) ts(1) entry_names [OF assms(1)]] ts by (simp add: rel_string)
  have "visited emb (\<lambda>_. False) bundleRoot (under bundleRoot ts)"
    using assms(3) ts(2) False by (auto simp: entries_def walk_entries_def)
  then have "node_at emb (under bundleRoot (take i ts)) \<noteq> None" if "0 < i" for i
    using that ts by (cases "i < length ts") (simp_all add: visited_iff)
  then have no_sha: "take i ts \<noteq> [bundleSHAFile]" for i
    using assms(1) unfolding embedded_ok_def by (metis gr0I not_Cons_self2 take0)
  have "child dir bundleSHAFile \<notin> set (ancestors dir)" using child_not_above [of dir bundleSHAFile] by simp
  then have anc: "child dir bundleSHAFile \<notin> set (ancestors (under dir ts))"
    using ancestors_append [of "rooted dir" "comps dir" ts] no_sha by (cases dir) (auto simp: child_def)
  have self: "child dir bundleSHAFile \<noteq> under dir ts" using no_sha [of "length ts"] by (auto simp: child_def)
  have "under dir ts = child (path_dir (under dir ts)) (last ts)" using ts(1) by (simp add: child_iff)
  then have par: "ancestors (under dir ts) = ancestors (path_dir (under dir ts)) @ [path_dir (under dir ts)]"
    by (metis ancestors_child)
  show ?thesis
  proof (cases isDir)
    case True
    then show ?thesis
      using mkdirs_frame [of "child dir bundleSHAFile" "ancestors (under dir ts) @ [under dir ts]" f] anc self False dst
      by (simp add: extract_entry_def mkdir_all_def Let_def)
  next
    case isFile: False
    obtain r f1 where m: "mkdir_all f (path_dir (under dir ts)) = (r, f1)" by force
    have "node_at f1 (child dir bundleSHAFile) = node_at f (child dir bundleSHAFile) \<and> refused f1 = refused f"
      using mkdirs_frame [of "child dir bundleSHAFile" "ancestors (under dir ts)" f] anc m by (simp add: par mkdir_all_def)
    then show ?thesis
      using False isFile dst m write_file_frame [OF self, of f1]
      by (auto simp: extract_entry_def split: option.splits sum.splits)
  qed
qed (simp add: extract_entry_def)

lemma extract_events_frame:
  assumes "embedded_ok emb" "wf_path dir" "set ps \<subseteq> set (bundleRoot # entries emb)"
  shows "node_at (snd (extract_events emb dir (map (\<lambda>p. DEntry p (g p)) ps) f)) (child dir bundleSHAFile) =
      node_at f (child dir bundleSHAFile)
    \<and> refused (snd (extract_events emb dir (map (\<lambda>p. DEntry p (g p)) ps) f)) = refused f"
  using assms(3)
proof (induction ps arbitrary: f)
  case (Cons p ps)
  obtain r f1 where e: "extract_entry emb dir p (g p) f = (r, f1)" by force
  have "node_at f1 (child dir bundleSHAFile) = node_at f (child dir bundleSHAFile) \<and> refused f1 = refused f"
    using extract_entry_frame [OF assms(1,2), of p "g p" f] Cons.prems e by simp
  with Cons.IH [of f1] Cons.prems e show ?case by (cases r) auto
qed simp

text \<open>C21
  A start that cannot finish the extraction never leaves a cache that a later start would take for complete: whatever
  file operations the system refuses, short of removing the cache directory, the digest is not there after an error.
\<close>

theorem failed_extraction_is_not_trusted:
  assumes "embedded_ok emb" "\<not> refused f OpRemove (bundleCachePath e)"
    "extractEmbeddedBundleCached sha e emb f = (Inl err, f')" "embeddedBundleHash sha emb = Inr want"
  shows "\<not> cache_hit f' (bundleCachePath e) want"
proof -
  let ?dir = "bundleCachePath e" and ?g = "remove_all f (bundleCachePath e)"
  let ?sha = "child (bundleCachePath e) bundleSHAFile"
  have wf: "wf_path ?dir" using cache_path [of e] by (auto simp: name_path_def)
  have gone: "node_at (remove_all h ?dir) ?sha = None" if "refused h = refused f" for h
    using that assms(2) map_of_filter_key [of "\<lambda>k. k \<noteq> ?dir \<and> \<not> below ?dir k" "nodes h" ?sha]
    by (simp add: remove_all_def) (simp add: child_def below_def)
  obtain r f1 where m: "mkdir_all ?g ?dir = (r, f1)" by force
  have "?sha \<notin> set (ancestors ?dir @ [?dir])" by (rule child_not_above)
  then have f1: "node_at f1 ?sha = None" "refused f1 = refused f"
    using mkdirs_frame [of ?sha "ancestors ?dir @ [?dir]" ?g] m gone [of f] by (simp_all add: mkdir_all_def remove_all_def split: if_splits)
  obtain r2 f2 where x: "extract_events emb ?dir (walk_dir emb bundleRoot) f1 = (r2, f2)" by force
  have f2: "node_at f2 ?sha = None" "refused f2 = refused f"
    using extract_events_frame [OF assms(1) wf order_refl, of "\<lambda>p. node_at emb p = Some Dir" f1] x f1
    by (simp_all only: walk_dir_entries [OF assms(1)] snd_conv)
  have "node_at f' ?sha = None"
    using assms(3,4) m x f1(1) f2 gone [OF f2(2)]
    by (auto simp: extractEmbeddedBundleCached_def mcp_extractEmbeddedBundle_def extract_into_def Let_def write_file_def
        split: if_splits option.splits)
  then show ?thesis using wf by (auto simp: cache_hit_def sha_path read_file_def split: if_splits)
qed

section \<open>Samples\<close>

definition sample_embedded :: "(string list \<times> node) list \<Rightarrow> fs" where
  "sample_embedded es = \<lparr>nodes = [(Path False [], Dir), (Path False [''policy''], Dir), (Path False [''policy'', ''bundles''], Dir),
     (bundleRoot, Dir)] @ map (\<lambda>e. (under bundleRoot (fst e), snd e)) es, refused = (\<lambda>_ _. False)\<rparr>"

definition sample_manifest :: string where
  "sample_manifest = concat [''{'', [CHR 0x22], ''revision'', [CHR 0x22], '':'', [CHR 0x22], ''r1'', [CHR 0x22], '','',
     [CHR 0x22], ''roots'', [CHR 0x22], '':['', [CHR 0x22], ''ops'', [CHR 0x22], ''],'',
     [CHR 0x22], ''metadata'', [CHR 0x22], '':{'', [CHR 0x22], ''profile_name'', [CHR 0x22], '':'', [CHR 0x22], ''p'', [CHR 0x22], ''}}'']"

definition shipped :: fs where
  "shipped = sample_embedded [([''.manifest''], File sample_manifest), ([''ops''], Dir), ([''ops'', ''a.rego''], File ''A'')]"

definition home_fs :: fs where
  "home_fs = \<lparr>nodes = [(Path True [], Dir), (Path True [''tmp''], Dir)], refused = (\<lambda>_ _. False)\<rparr>"

definition home_env :: env where
  "home_env = \<lparr>e_getenv = (\<lambda>k. if k = ''HOME'' then ''/h'' else []), e_flock = (\<lambda>_. FOk), e_delay = (\<lambda>_. 0),
     e_now = (\<lambda>_. \<lparr>t_year = 2025, t_month = 1, t_day = 1, t_hour = 0, t_min = 0, t_sec = 0, t_nano = 0\<rparr>), e_unix = True\<rparr>"

definition shipped_bundle :: bundle_source where
  "shipped_bundle = \<lparr>bs_dir = path_str bundleRoot,
     bs_manifest = \<lparr>bm_revision = ''r1'', bm_roots = [''ops''], bm_metadata = Some [(''profile_name'', ''p'')]\<rparr>\<rparr>"

lemma shipped_ok: "embedded_ok shipped"
proof -
  have "unrefused shipped" by (simp add: unrefused_def shipped_def sample_embedded_def)
  moreover have "stat shipped bundleRoot = Inr Dir" by code_simp
  moreover have "list_all (\<lambda>e. list_all plain_name (comps (fst e))) (nodes shipped)" by code_simp
  moreover have "list_all (\<lambda>e. below bundleRoot (fst e) \<longrightarrow> visited shipped (\<lambda>_. False) bundleRoot (fst e)) (nodes shipped)" by code_simp
  moreover have "node_at shipped (under bundleRoot [bundleSHAFile]) = None" by code_simp
  ultimately show ?thesis by (simp add: embedded_ok_def)
qed

lemma shipped_loads:
  "NewBundleSource shipped (path_str bundleRoot) = Inr shipped_bundle"
  "bundle_LoadPolicy shipped shipped_bundle = Inr [(''ops/a.rego'', ''A'')]"
  "bundle_LoadData shipped shipped_bundle = Inr []"
  by code_simp+

lemma home_fs_ok: "unrefused home_fs"
  by (simp add: unrefused_def home_fs_def)

theorem cached_bundle_is_embedded_witness:
  "\<exists>f' b'. extractEmbeddedBundleCached (\<lambda>_. ''0f'') home_env shipped home_fs = (Inr (clean_path ''/h/.evidra/bundles/ops-v0.1''), f')
    \<and> bundle_LoadPolicy f' b' = Inr [(''ops/a.rego'', ''A'')]"
proof -
  have "hex_digest (\<lambda>_. ''0f'')" by (simp add: hex_digest_def hex_val_def)
  moreover have "\<not> blocked home_fs (bundleCachePath home_env)" by code_simp
  moreover have "read_file home_fs (path_join (bundleCachePath home_env) bundleSHAFile) = Inl NotExist" by code_simp
  then have "\<not> cache_hit home_fs (bundleCachePath home_env) w" for w by (simp add: cache_hit_def)
  moreover have "bundleCachePath home_env = clean_path ''/h/.evidra/bundles/ops-v0.1''" by code_simp
  ultimately show ?thesis
    using cached_bundle_is_embedded [OF shipped_ok _ home_fs_ok _ _ shipped_loads] by metis
qed

definition readonly_fs :: fs where
  "readonly_fs = home_fs\<lparr>refused := (\<lambda>op _. op = OpWrite)\<rparr>"

theorem failed_extraction_is_not_trusted_witness:
  "fst (extractEmbeddedBundleCached (\<lambda>_. ''0f'') home_env shipped readonly_fs) = Inl Refused
    \<and> \<not> cache_hit (snd (extractEmbeddedBundleCached (\<lambda>_. ''0f'') home_env shipped readonly_fs)) (bundleCachePath home_env) ''0f''"
proof -
  let ?x = "extractEmbeddedBundleCached (\<lambda>_. ''0f'') home_env shipped readonly_fs"
  have r: "fst ?x = Inl Refused" by code_simp
  then have "?x = (Inl Refused, snd ?x)" by (cases ?x) simp
  moreover have "embeddedBundleHash (\<lambda>_. ''0f'') shipped = Inr ''0f''" by code_simp
  moreover have "\<not> refused readonly_fs OpRemove (bundleCachePath home_env)" by (simp add: readonly_fs_def)
  ultimately show ?thesis using failed_extraction_is_not_trusted [OF shipped_ok] r by blast
qed

text \<open>
  The digest is taken over paths and contents without their lengths, so bundles that differ can have the same one: here a
  module was replaced by text at the end of the module before it. A cache filled from the first is then a hit for the second.
\<close>

definition two_modules :: fs where
  "two_modules = sample_embedded [([''a.rego''], File ''A''), ([''b.rego''], File ''B'')]"

definition one_module :: fs where
  "one_module = sample_embedded [([''a.rego''], File (''Apolicy/bundles/ops-v0.1/b.rego'' @ [CHR 0x0A] @ ''B''))]"

theorem embedded_digest_is_ambiguous:
  "embeddedBundleHash sha two_modules = embeddedBundleHash sha one_module
    \<and> bundle_LoadPolicy two_modules shipped_bundle = Inr [(''a.rego'', ''A''), (''b.rego'', ''B'')]
    \<and> bundle_LoadPolicy one_module shipped_bundle = Inr [(''a.rego'', ''Apolicy/bundles/ops-v0.1/b.rego'' @ [CHR 0x0A] @ ''B'')]"
proof -
  have "embedded_digest_input two_modules = embedded_digest_input one_module" by code_simp
  moreover have "bundle_LoadPolicy two_modules shipped_bundle = Inr [(''a.rego'', ''A''), (''b.rego'', ''B'')]" by code_simp
  moreover have "bundle_LoadPolicy one_module shipped_bundle =
    Inr [(''a.rego'', ''Apolicy/bundles/ops-v0.1/b.rego'' @ [CHR 0x0A] @ ''B'')]" by code_simp
  ultimately show ?thesis by (simp add: embeddedBundleHash_def)
qed

end
