(* ===== verification/EvidenceCorrect.thy ===== *)
theory EvidenceCorrect
  imports EvidenceForwarder
begin

text \<open>
  What the evidence package promises, stated on its public operations, and a small concrete store on
  which the statements are exercised.
\<close>

section \<open>A concrete setting\<close>

definition sample_fs :: fs where
  "sample_fs = \<lparr>nodes = [(Path True [], Dir), (Path True [''s''], Dir)], refused = (\<lambda>_ _. False)\<rparr>"

definition sample_time :: gtime where
  "sample_time = \<lparr>t_year = 2024, t_month = 2, t_day = 29, t_hour = 12, t_min = 30, t_sec = 0, t_nano = 0\<rparr>"

definition sample_env :: env where
  "sample_env = \<lparr>e_getenv = (\<lambda>_. []), e_flock = (\<lambda>i. if i < 2 then FWouldBlock else FOk), e_delay = (\<lambda>_. 0),
     e_now = (\<lambda>_. sample_time), e_unix = True\<rparr>"

definition sample_record :: "string \<Rightarrow> evidence_record" where
  "sample_record pol = \<lparr>er_event_id = ''e1'', er_timestamp = sample_time, er_policy_ref = pol, er_bundle_revision = [],
     er_profile_name = [], er_environment_label = [], er_input_hash = [], er_source = [],
     er_actor = \<lparr>a_type = ''agent'', a_id = ''a'', a_origin = ''mcp''\<rparr>, er_tool = ''kubectl'', er_operation = ''get'',
     er_params = None,
     er_policy_decision = \<lparr>pd_allow = True, pd_risk_level = ''low'', pd_reason = ''ok'', pd_reasons = [], pd_hints = [],
       pd_rule_ids = [], pd_advisory = False\<rparr>,
     er_execution_result = \<lparr>xr_status = ''ok'', xr_exit_code = None, xr_stdout = [], xr_stderr = [],
       xr_stdout_truncated = False, xr_stderr_truncated = False\<rparr>,
     er_previous_hash = [], er_hash = []\<rparr>"

abbreviation sample_rec :: evidence_record where
  "sample_rec \<equiv> sample_record ''p''"

lemma sample_record_simps [simp]:
  "er_event_id (sample_record pol) = ''e1''" "er_policy_ref (sample_record pol) = pol"
  by (simp_all add: sample_record_def)

lemma lock_granted_sample: "lock_granted sample_env"
  proof -
  have "lockTimeoutFromEnv sample_env = 2000000000" by code_simp
  then show ?thesis by (simp add: lock_granted_def sample_env_def acquire_loop.simps sleep_ns_def)
qed

lemma vacant_sample: "vacant (clean_path ''/s'') sample_fs"
proof -
  have "clean_path ''/s'' = Path True [''s'']" by code_simp
  then show ?thesis
    by (simp add: vacant_def sample_fs_def unrefused_def dir_at_def ancestors_def child_def)
qed

lemma fmt_sample [simp]: "fmt_rfc3339_nano sample_time = ''2024-02-29T12:30:00Z''"
  by code_simp

lemma stamp_sample [simp]: "stamp sample_env (sample_record pol) = sample_record pol"
  by (simp add: stamp_def sample_record_def sample_time_def zero_time_def)

lemma completed_sample [simp]:
  "completed (\<lambda>_. h) sample_env p (sample_record pol) = (sample_record pol)\<lparr>er_previous_hash := p, er_hash := h\<rparr>"
  by (simp add: completed_def Let_def)

lemma norm_sample [simp]:
  "norm_record ((sample_record pol)\<lparr>er_previous_hash := p, er_hash := h\<rparr>) = (sample_record pol)\<lparr>er_previous_hash := p, er_hash := h\<rparr>"
  by (simp add: norm_record_def map_norm_def sample_record_def)

lemma storable_sample:
  assumes "utf8_valid p" "length p \<le> 100" "utf8_valid pol" "length pol \<le> 100"
  shows "storable (\<lambda>_. ''d'') sample_env p (sample_record pol)"
proof -
  let ?q = "completed (\<lambda>_. ''d'') sample_env p (sample_record pol)"
  have q: "?q = (sample_record pol)\<lparr>er_previous_hash := p, er_hash := ''d''\<rparr>"
    by simp
  have "length (record_line ?q) < 65536"
    using length_esc [of p] length_esc [of pol] assms(2,4) unfolding q
    by (simp add: record_line_def record_json_def canonical_members_def marshal_def esc_ascii_def
       sample_record_def compact_def pr_str_def actor_json_def policy_decision_json_def
       execution_result_json_def omit_def int_ptr_json_def map_json_def)
  moreover have "record_ok ?q"
    using assms(1,3) unfolding q
    by (simp add: record_ok_def sample_record_def Let_def time_ok_def sample_time_def days_in_def leap_def strs_ok_def
      actor_ok_def map_ok_def rune_len_ascii)
  moreover have "utf8_valid (er_hash ?q)" unfolding q by (simp add: rune_len_ascii)
  ultimately show ?thesis by (simp add: storable_def fits_scanner_def maxScanTokenSize_def)
qed


section \<open>The store\<close>






lemma Store_Init_sample: "seg_store sha sample_env ''/s'' 9 [] (snd (Store_Init sample_env ''/s'' sample_fs))"
  by (rule Store_Init_ok [OF vacant_sample lock_granted_sample, of 9 sha]) auto



section \<open>The chain\<close>

lemma chain_end_start: "chain_end chain_start rs = \<lparr>cs_prev = last_hash [] rs, cs_total = length rs,
    cs_last = last_hash [] rs, cs_policy = policy_end [] rs\<rparr>"
  by (simp add: chain_end_def chain_start_def)

text \<open>C13
  The check that both validators run record by record accepts a list of records exactly when every record carries
  its own hash and its predecessor's (the first none) and the records agree on one policy reference; it then ends
  with their number, last hash and policy.
\<close>
theorem chain_check_correct:
  "each (check_record sha) rs chain_start = (None, st) \<longleftrightarrow>
    valid_chain sha rs \<and> st = \<lparr>cs_prev = last_hash [] rs, cs_total = length rs, cs_last = last_hash [] rs, cs_policy = policy_end [] rs\<rparr>"
  by (simp add: each_check_start chain_end_start)

text \<open>C3
  Tamper evidence: two lists of records that both pass the check and end in the same last hash agree, record by
  record, on every field that is hashed, as long as the digest has no collision among their texts.
\<close>
theorem tamper_evidence:
  assumes "each (check_record sha) rs chain_start = (None, st)" "each (check_record sha) qs chain_start = (None, st')"
    "cs_last st = cs_last st'" "\<forall>r \<in> set (rs @ qs). record_ok r" "no_collision sha (rs @ qs)"
  shows "map hashed_fields rs = map hashed_fields qs"
  using assms by (intro links_same_end [of sha]) (auto simp: each_check_start chain_end_start valid_chain_def)

definition relabelled :: "string \<Rightarrow> evidence_record" where
  "relabelled src = sample_rec\<lparr>er_source := src, er_hash := ''d''\<rparr>"

lemma relabelled_check:
  "each (check_record (\<lambda>_. ''d'')) [relabelled src] chain_start =
    (None, \<lparr>cs_prev = ''d'', cs_total = 1, cs_last = ''d'', cs_policy = ''p''\<rparr>)"
  by (simp add: chain_start_def check_record_def ComputeHash_def relabelled_def sample_record_def sample_time_def)

lemma relabelled_ok: "utf8_valid src \<Longrightarrow> record_ok (relabelled src)"
  by (simp add: record_ok_def relabelled_def sample_record_def Let_def time_ok_def sample_time_def days_in_def leap_def
      strs_ok_def actor_ok_def map_ok_def rune_len_ascii)

theorem tamper_evidence_witness:
  "map hashed_fields [relabelled ''mcp''] = map hashed_fields [relabelled ''cli'']"
proof (rule tamper_evidence [OF relabelled_check relabelled_check])
  have "canonical_text (relabelled ''mcp'') = canonical_text (relabelled ''cli'')"
    by (simp add: canonical_text_def hash_payload_def relabelled_def)
  then show "no_collision (\<lambda>_. ''d'') ([relabelled ''mcp''] @ [relabelled ''cli''])" by (simp add: no_collision_def)
qed (simp_all add: relabelled_ok rune_len_ascii)

text \<open>
  Five fields are outside the hash: changing the bundle revision, profile name, environment label, input hash or
  source of a record leaves the outcome of the check unchanged.
\<close>
theorem unhashed_fields_unprotected:
  "check_record sha (r\<lparr>er_bundle_revision := a, er_profile_name := b, er_environment_label := c, er_input_hash := d,
      er_source := x\<rparr>) st = check_record sha r st"
  by (simp add: check_record_def ComputeHash_def canonical_text_def hash_payload_def)

text \<open>
  \<^verbatim>\<open>appendSegmented\<close> does not compare policy references: a record with another reference than the chain's is
  appended without error, and from then on the chain does not validate.
\<close>
theorem append_other_policy_invalidates:
  assumes "seg_store sha e path (Suc k) rs f" "storable sha e (last_hash [] rs) r"
    "\<not> policy_fits (policy_end [] rs) (er_policy_ref r)"
  shows "\<exists>f'. appendAtPath sha e path r f = (Inr (completed sha e (last_hash [] rs) r), f')
    \<and> (\<exists>err. fst (ValidateChainAtPath sha e path f') = Inl err)"
proof -
  let ?q = "completed sha e (last_hash [] rs) r" and ?root = "clean_path path"
  obtain m n where mn: "seg_inv sha ?root m n rs f" "n + Suc k \<le> 999999" "int (length rs) + 1 < 2 ^ 63" "lock_granted e"
    "one_policy rs"
    using assms(1) by (auto simp: seg_store_def)
  note l = seg_inv_locked [OF mn(1)]
  obtain m' n' f' where f': "appendSegmented sha e ?root r (locked ?root f) = (Inr ?q, f')"
    "seg_inv sha ?root m' n' (rs @ [norm_record ?q]) f'"
    by (rule appendSegmented_ok [OF l assms(2)]) (use mn in auto)
  have a: "appendAtPath sha e path r f = (Inr ?q, f')"
    using f'(1) by (simp add: appendAtPath_def appendAtPathUnlocked_def seg_inv_lock [OF mn(1,4)]
        with_mode_ok [OF seg_inv_mode [OF l]])
  have "\<not> one_policy (rs @ [norm_record ?q])"
    using assms(3) by (simp flip: policies_from_one_policy)
  then have "validateSegmentedChain sha e ?root (locked ?root f') \<noteq> None"
    using validateSegmentedChain_iff [OF seg_inv_locked [OF f'(2)]] by blast
  then have "\<exists>err. fst (ValidateChainAtPath sha e path f') = Inl err"
    by (auto simp: ValidateChainAtPath_def validateChainAtPathUnlocked_def seg_inv_lock [OF f'(2) mn(4)]
        with_mode_ok [OF seg_inv_mode [OF seg_inv_locked [OF f'(2)]]] lift_err_def split: option.splits)
  with a show ?thesis by blast
qed

lemma seg_store_one_sample:
  "seg_store (\<lambda>_. ''d'') sample_env ''/s'' 8 [sample_rec\<lparr>er_previous_hash := [], er_hash := ''d''\<rparr>]
    (snd (appendAtPath (\<lambda>_. ''d'') sample_env ''/s'' sample_rec (snd (Store_Init sample_env ''/s'' sample_fs))))"
  using segmented.append_law [of "\<lambda>_. ''d''" sample_env "''/s''" 8 "[]" _ sample_rec] Store_Init_sample [of "\<lambda>_. ''d''"]
  by (fastforce simp: storable_sample policy_fits_def rune_len_ascii)

theorem append_other_policy_invalidates_witness:
  "\<exists>f'. appendAtPath (\<lambda>_. ''d'') sample_env ''/s'' (sample_record ''q'')
      (snd (appendAtPath (\<lambda>_. ''d'') sample_env ''/s'' sample_rec (snd (Store_Init sample_env ''/s'' sample_fs)))) =
    (Inr ((sample_record ''q'')\<lparr>er_previous_hash := ''d'', er_hash := ''d''\<rparr>), f')
    \<and> (\<exists>err. fst (ValidateChainAtPath (\<lambda>_. ''d'') sample_env ''/s'' f') = Inl err)"
proof -
  have s: "seg_store (\<lambda>_. ''d'') sample_env ''/s'' (Suc 7) [sample_rec\<lparr>er_previous_hash := [], er_hash := ''d''\<rparr>]
    (snd (appendAtPath (\<lambda>_. ''d'') sample_env ''/s'' sample_rec (snd (Store_Init sample_env ''/s'' sample_fs))))"
    using seg_store_one_sample by simp
  from append_other_policy_invalidates [OF s, of "sample_record ''q''"] show ?thesis
    by (simp add: storable_sample rune_len_ascii policy_fits_def)
qed

section \<open>The lock\<close>

text \<open>C35
  The retry loop of \<^verbatim>\<open>Acquire\<close>: it reports a busy store only when every attempt, up to one made after the deadline,
  found the lock taken, and it gets a lock that is free at attempt \<open>k\<close> whenever the attempt before it came no later than
  the deadline. It always returns.
\<close>
theorem acquire_loop_correct:
  "(acquire_loop flock delay deadline now 0 = LkBusy \<longrightarrow>
      (\<exists>k. (\<forall>j \<le> k. flock j = FWouldBlock) \<and> deadline < now + (\<Sum>j=0..<k. sleep_ns + int (delay (Suc j)))))
   \<and> ((\<forall>j < k. flock j = FWouldBlock) \<and> flock k = FOk
        \<and> (k = 0 \<or> now + (\<Sum>j=0..<k - 1. sleep_ns + int (delay (Suc j))) \<le> deadline)
      \<longrightarrow> acquire_loop flock delay deadline now 0 = LkAcquired)"
  using acquire_loop_busy_means_contended [of flock delay deadline now 0]
    acquire_loop_acquires [of 0 k flock now delay deadline] by auto

theorem acquire_loop_correct_witness:
  "acquire_loop (\<lambda>i. if i < 3 then FWouldBlock else FOk) (\<lambda>_. 7) 2000000000 0 0 = LkAcquired"
  using acquire_loop_correct [of "\<lambda>i. if i < 3 then FWouldBlock else FOk" "\<lambda>_. 7" 2000000000 0 3]
  by (simp add: sleep_ns_def numeral_2_eq_2)

text \<open>
  The lock timeout: a positive setting of at most 9223372036854 milliseconds is used as it is, anything that is not a
  positive 64-bit number gives two seconds, and a larger setting overflows, as 9223372036855 does to a negative duration.
\<close>
theorem lockTimeout_bounds:
  "(case parse_int (trim_space (e_getenv e lockTimeoutEnv)) of
      None \<Rightarrow> lockTimeoutFromEnv e = 2000000000
    | Some ms \<Rightarrow>
        (ms \<le> 0 \<longrightarrow> lockTimeoutFromEnv e = 2000000000)
        \<and> (0 < ms \<and> ms \<le> 9223372036854 \<longrightarrow> lockTimeoutFromEnv e = ms * 1000000)
        \<and> (ms = 9223372036855 \<longrightarrow> lockTimeoutFromEnv e < 0))"
  by (auto simp: lockTimeoutFromEnv_def positive_setting_def defaultLockTimeoutMS_def wrap64_id int64_def split: option.splits)
    (simp add: wrap64_def)

theorem lockTimeout_bounds_witness: "lockTimeoutFromEnv sample_env = 2000000000"
proof -
  have "parse_int (trim_space (e_getenv sample_env lockTimeoutEnv)) = None" by code_simp
  then show ?thesis using lockTimeout_bounds [of sample_env] by simp
qed

section \<open>Segments and the manifest\<close>

text \<open>C38
  \<^verbatim>\<open>parseSegmentIndex\<close> inverts \<^verbatim>\<open>segmentName\<close>: it accepts exactly the names of the segments 1 to 999999, and in this
  range the order of the names is the order of the indices.
\<close>
theorem segment_names_correct:
  "(parseSegmentIndex s = Some n \<longleftrightarrow> 1 \<le> n \<and> n \<le> 999999 \<and> s = segmentName n)
   \<and> (n \<le> 999999 \<and> m \<le> 999999 \<longrightarrow> (segmentName m < segmentName n \<longleftrightarrow> m < n))"
  using parseSegmentIndex_iff segmentName_less by (metis antisym_conv3 less_asym')

theorem segment_names_correct_witness: "segmentName 9 < segmentName 10"
  using segment_names_correct [of "[]" 10 9] by simp

text \<open>
  \<^verbatim>\<open>normalizeSealedSegments\<close> returns the non-empty names without duplicates in ascending order, and nothing else
  satisfies this.
\<close>
theorem normalizeSealedSegments_correct:
  "normalizeSealedSegments xs = ys \<longleftrightarrow> sorted ys \<and> distinct ys \<and> set ys = set xs - {[]}"
  by (metis normalizeSealedSegments_sorted set_normalizeSealedSegments sorted_distinct_set_unique)

text \<open>
  The manifest that is written is the manifest that is read: the indented text of every well-formed manifest, with its
  final newline, decodes to it.
\<close>
theorem manifest_roundtrip:
  "manifest_ok m \<Longrightarrow> unmarshal_manifest (manifest_text m) = Some m"
  by (rule unmarshal_manifest_text)

theorem manifest_roundtrip_witness:
  "unmarshal_manifest (manifest_text (new_manifest (fmt_rfc3339 sample_time) 5000000)) =
    Some (new_manifest (fmt_rfc3339 sample_time) 5000000)"
  using new_manifest_describes [of 5000000 sample_time]
  by (intro manifest_roundtrip) (simp add: manifest_describes_def int64_def)



section \<open>The forwarder\<close>

text \<open>
  The forwarder state that \<^verbatim>\<open>SaveForwarderState\<close> writes is the state \<^verbatim>\<open>LoadForwarderState\<close> returns, with the defaults
  filled in, and the records of the store are as they were.
\<close>
theorem forwarder_save_load:
  assumes "seg_store sha e path k rs f" "forwarder_files (clean_path path) f" "forwarder_ok s"
  shows "fst (SaveForwarderState e path s f) = Inr ()
    \<and> fst (LoadForwarderState e path (snd (SaveForwarderState e path s f))) = Inr (Some (fill_forwarder s))
    \<and> fst (ReadAllAtPath e path (snd (SaveForwarderState e path s f))) = Inr rs"
  using save_then_load [OF assms] segmented.read_law [of sha e path k rs] by (metis fst_conv snd_conv)

lemma child_not_ancestor: "child d n \<notin> set (ancestors d)"
  by (auto simp: ancestors_def child_def dest!: arg_cong [where f = length])

lemma put_forwarder_file:
  assumes "seg_store sha e path k rs f" "n \<in> {forwarderStateFileName, forwarderStateFileName @ ''.tmp''}"
  shows "seg_store sha e path k rs (put_node (child (clean_path path) n) (File t) f)"
proof -
  let ?root = "clean_path path"
  obtain m i where inv: "seg_inv sha ?root m i rs f" "i + k \<le> 999999" "sm_policy_ref m = policy_end [] rs"
    using assms(1) by (auto simp: seg_store_def)
  note d = seg_invD [OF inv(1)]
  have "dir_at (put_node (child ?root n) (File t) f) (segs ?root)"
    using d(10) assms(2) child_not_ancestor [of ?root n] by (auto simp: dir_at_def forwarder_names(11,12) [symmetric])
  then have "seg_inv sha ?root m i rs (put_node (child ?root n) (File t) f)"
    using d(8) inv(1) assms(2) by (intro seg_inv_same_files [OF inv(1)]) (auto simp: seg_inv_def store_files_def)
  then show ?thesis using assms(1) inv(2,3) unfolding seg_store_def by blast
qed

definition sample_forwarder_fs :: fs where
  "sample_forwarder_fs = put_node (child (clean_path ''/s'') forwarderStateFileName) (File [])
     (put_node (child (clean_path ''/s'') (forwarderStateFileName @ ''.tmp'')) (File [])
        (snd (Store_Init sample_env ''/s'' sample_fs)))"

theorem forwarder_save_load_witness:
  "fst (LoadForwarderState sample_env ''/s'' (snd (SaveForwarderState sample_env ''/s'' zero_forwarder sample_forwarder_fs))) =
    Inr (Some (fill_forwarder zero_forwarder))"
proof -
  have "seg_store (\<lambda>_. ''d'') sample_env ''/s'' 9 [] sample_forwarder_fs"
    unfolding sample_forwarder_fs_def by (intro put_forwarder_file Store_Init_sample) auto
  moreover have "forwarder_files (clean_path ''/s'') sample_forwarder_fs"
    by (simp add: forwarder_files_def sample_forwarder_fs_def)
  moreover have "forwarder_ok zero_forwarder"
    by (simp add: forwarder_ok_def zero_forwarder_def zero_cursor_def zero_destination_def int64_def)
  ultimately show ?thesis using forwarder_save_load by blast
qed

text \<open>C35
  A cursor (segment, line) of a store names a record: the store's records are those of its segments one after the
  other, and \<^verbatim>\<open>ResolveCursorRecord\<close> returns the record at that line of that segment, or reports the line out of range.
\<close>
theorem cursor_resolves:
  assumes "seg_store sha e path k rs f"
  shows "\<exists>n frs. rs = concat (map frs [1..<Suc n])
    \<and> (\<forall>i. 1 \<le> i \<and> i \<le> n \<longrightarrow> fst (ResolveCursorRecord e path (segmentName i) line f) =
        (if line < 0 \<or> int (length (frs i)) \<le> line then Inl ECursorLineOutOfRange else Inr (frs i ! nat line)))"
proof -
  let ?frs = "\<lambda>i. file_records f (child (segs (clean_path path)) (segmentName i))"
  obtain n where "\<And>i. 1 \<le> i \<Longrightarrow> i \<le> n \<Longrightarrow> ResolveCursorRecord e path (segmentName i) line f =
        (let frs = ?frs i in
         (if line < 0 \<or> int (length frs) \<le> line then Inl ECursorLineOutOfRange else Inr (frs ! nat line),
          locked (clean_path path) f))" "rs = concat (map ?frs [1..<Suc n])"
    using resolve_cursor [OF assms, of line] by metis
  then show ?thesis by (intro exI [of _ n] exI [of _ ?frs]) (simp add: Let_def)
qed

theorem cursor_resolves_witness:
  "\<exists>n frs. [sample_rec\<lparr>er_previous_hash := [], er_hash := ''d''\<rparr>] = concat (map frs [1..<Suc n])
    \<and> (\<forall>i. 1 \<le> i \<and> i \<le> n \<longrightarrow> fst (ResolveCursorRecord sample_env ''/s'' (segmentName i) 0
        (snd (appendAtPath (\<lambda>_. ''d'') sample_env ''/s'' sample_rec (snd (Store_Init sample_env ''/s'' sample_fs))))) =
        (if (0::int) < 0 \<or> int (length (frs i)) \<le> 0 then Inl ECursorLineOutOfRange else Inr (frs i ! nat 0)))"
  by (rule cursor_resolves [OF seg_store_one_sample])

end
