(* ===== verification/ServiceCorrect.thy ===== *)
theory ServiceCorrect
  imports McpServer EvidenceCorrect
begin

text \<open>
  What the evaluation and the service promise: requests, policy decisions, scenarios, the deny loop, the client and
  the helpers with a contract of their own.
\<close>

section \<open>Requests\<close>

text \<open>C39
  \<^verbatim>\<open>ValidateStructure\<close> accepts exactly the requests with a complete actor, a tool, an operation and parameters that
  have only known keys, objects where objects are expected and a list of strings as risk tags.
\<close>
theorem ValidateStructure_correct: "ValidateStructure ti = None \<longleftrightarrow> well_formed_request ti"
  by (rule ValidateStructure_None)

text \<open>
  The kind of an action is split at its first dot, outer blanks removed, and refused when a side is blank.
\<close>
theorem splitKind_correct:
  "splitKind k = Some (a, b) \<longleftrightarrow> trim_space k = a @ CHR ''.'' # b \<and> CHR ''.'' \<notin> set a
    \<and> trim_space a \<noteq> [] \<and> trim_space b \<noteq> []"
  by (rule splitKind_Some)

text \<open>
  A parameter \<^verbatim>\<open>action\<close>, which \<^verbatim>\<open>ValidateStructure\<close> admits, has no influence on the scenario that is evaluated for an
  invocation: its kind comes from tool and operation, its payload and target from the top-level parameters.
\<close>
theorem action_parameter_ignored:
  "invocationToScenario e (ti\<lparr>ti_params := Some ((KeyAction, v) # m)\<rparr>) = invocationToScenario e (ti\<lparr>ti_params := Some m\<rparr>)"
  by (simp add: invocationToScenario_def scenarioIDFromInvocation_def params_get_def KeyAction_def KeyScenarioID_def
      KeyTarget_def KeyPayload_def KeyRiskTags_def Let_def)

section \<open>Policy decisions\<close>

text \<open>C6
  Fail closed: the engine returns an allowing decision only without an error and only when the policy itself returned a
  document with \<^verbatim>\<open>allow\<close> true, a non-empty reason and a known risk level.
\<close>
theorem Engine_Evaluate_allow_only_by_policy:
  assumes "dc_allow (fst (Engine_Evaluate q ti))"
  shows "snd (Engine_Evaluate q ti) = None \<and> (\<exists>actions out rest more reason risk.
    buildActionList (ti_params ti) (a_origin (ti_actor ti)) = Inr actions
    \<and> q (opa_input ti actions) = Inr ((GMap out # rest) # more) \<and> well_formed_decision out True reason risk)"
proof (cases "Engine_Evaluate q ti")
  case (Pair d err)
  then have n: "err = None" using assms Engine_Evaluate_fail_closed [of q ti d] by (cases err) auto
  with Pair have "Engine_Evaluate q ti = (d, None)" by simp
  from Engine_Evaluate_ok [OF this] obtain actions out rest more where
    "buildActionList (ti_params ti) (a_origin (ti_actor ti)) = Inr actions"
    "q (opa_input ti actions) = Inr ((GMap out # rest) # more)" "decode_decision out = (d, None)" by metis
  with assms Pair n decode_decision_ok(1) [of out d] show ?thesis by auto
qed

definition allow_all :: opa_query where
  "allow_all i = Inr [[GMap [(''allow'', GBool True), (''reason'', GStr ''ok''), (''risk_level'', GStr ''low'')]]]"

definition sample_invocation :: "string \<Rightarrow> tool_invocation" where
  "sample_invocation kind_of_actor = \<lparr>ti_actor = \<lparr>a_type = kind_of_actor, a_id = ''a1'', a_origin = ''mcp''\<rparr>,
     ti_tool = ''kubectl'', ti_operation = ''get'', ti_params = Some [(''payload'', GMap [])], ti_context = None,
     ti_environment = []\<rparr>"

theorem Engine_Evaluate_allow_only_by_policy_witness:
  "snd (Engine_Evaluate allow_all (sample_invocation ''agent'')) = None"
proof -
  have "dc_allow (fst (Engine_Evaluate allow_all (sample_invocation ''agent'')))" by code_simp
  from Engine_Evaluate_allow_only_by_policy [OF this] show ?thesis by simp
qed

text \<open>C40
  A policy document is decoded into a decision exactly when it is well formed, and the decision then has its verdict,
  reason and risk level.
\<close>
theorem decode_decision_correct:
  "(\<exists>d. decode_decision out = (d, None) \<and> dc_allow d = allow \<and> dc_reason d = reason \<and> dc_risk_level d = risk)
    \<longleftrightarrow> well_formed_decision out allow reason risk"
  using decode_decision_ok(1) decode_decision_accepts by blast

section \<open>Scenarios\<close>

text \<open>C14
  A scenario passes exactly when every one of its actions has a valid kind and is allowed by the policy; the breakdown has
  one entry per action, in order, that says the same of that action.
\<close>
theorem scenario_pass_iff_all_allowed:
  assumes "evaluateScenarioWithRuntime ev sc environment = Inr res"
  shows "(se_pass res \<longleftrightarrow> (\<forall>a \<in> set (sc_actions sc). allowed ev sc environment a))
    \<and> se_risk_level res = (if se_pass res then ''low'' else ''high'')
    \<and> length (se_action_results res) = length (sc_actions sc)
    \<and> (\<forall>i < length (sc_actions sc). entry_ok ev sc environment i (sc_actions sc ! i) (se_action_results res ! i))"
  using evaluateScenario_outcome [OF assms] by simp

definition sample_evaluator :: evaluator where
  "sample_evaluator = \<lparr>ev_engine = allow_all, ev_policy_ref = ''p'', ev_bundle_revision = [], ev_profile_name = []\<rparr>"

definition sample_scenario :: scenario where
  "sample_scenario = \<lparr>sc_id = ''s1'', sc_actor = \<lparr>sa_type = ''agent'', sa_id = ''a1'', sa_origin = ''mcp''\<rparr>, sc_source = ''mcp'',
     sc_timestamp = zero_time, sc_actions = [\<lparr>ac_kind = ''kubectl.get'', ac_target = None, ac_intent = [], ac_payload = None,
       ac_risk_tags = None\<rparr>, \<lparr>ac_kind = ''kubectl'', ac_target = None, ac_intent = [], ac_payload = None, ac_risk_tags = None\<rparr>]\<rparr>"

theorem scenario_pass_iff_all_allowed_witness:
  "\<exists>res. evaluateScenarioWithRuntime sample_evaluator sample_scenario ''dev'' = Inr res
    \<and> se_pass res = (\<forall>a \<in> set (sc_actions sample_scenario). allowed sample_evaluator sample_scenario ''dev'' a)"
proof -
  have "\<not> isl (evaluateScenarioWithRuntime sample_evaluator sample_scenario ''dev'')" by code_simp
  then obtain res where "evaluateScenarioWithRuntime sample_evaluator sample_scenario ''dev'' = Inr res"
    by (cases "evaluateScenarioWithRuntime sample_evaluator sample_scenario ''dev''") auto
  with scenario_pass_iff_all_allowed [OF this] show ?thesis by blast
qed

text \<open>C27
  No verdict without evidence: when \<^verbatim>\<open>EvaluateScenario\<close> returns a result and evidence is not skipped, a record with the
  returned event id and the returned verdict was appended to the store, after the store was initialised.
\<close>
theorem result_has_evidence:
  "case EvaluateScenario sha prepare mk e sc opts f of
     (Inl err, f') \<Rightarrow> True
   | (Inr vr, f') \<Rightarrow> op_skip_evidence opts \<or>
      (\<exists>dir f1 r. ResolveEvidencePath e (op_evidence_dir opts) = Some dir \<and> Store_Init e dir f = (Inr (), f1)
        \<and> Store_Append sha e dir r f1 = (Inr (), f') \<and> er_event_id r = vr_evidence_id vr
        \<and> pd_allow (er_policy_decision r) = vr_pass vr \<and> pd_reasons (er_policy_decision r) = vr_reasons vr
        \<and> pd_rule_ids (er_policy_decision r) = vr_rule_ids vr \<and> er_policy_ref r = vr_policy_ref vr)"
proof (cases "EvaluateScenario sha prepare mk e sc opts f")
  case (Pair x f')
  show ?thesis
  proof (cases x)
    case (Inl err)
    with Pair show ?thesis by simp
  next
    case (Inr vr)
    with Pair have "EvaluateScenario sha prepare mk e sc opts f = (Inr vr, f')" by simp
    from EvaluateScenario_success [OF this] obtain src ev res where
      v: "vr = scenario_result (vr_evidence_id vr) res" and
      a: "\<not> op_skip_evidence opts \<Longrightarrow> \<exists>dir f1. ResolveEvidencePath e (op_evidence_dir opts) = Some dir
       \<and> Store_Init e dir f = (Inr (), f1)
       \<and> Store_Append sha e dir (scenario_record sha e ev sc (resolveEnvironment e (op_environment opts))
           (vr_evidence_id vr) res) f1 = (Inr (), f')"
      by metis
    have "vr_pass vr = se_pass res" "vr_reasons vr = sortedDedupeStrings (sortedDedupeStrings (se_reasons res))"
      "vr_rule_ids vr = sortedDedupeStrings (se_rule_ids res)" "vr_policy_ref vr = se_policy_ref res"
      by (subst v, simp add: scenario_result_def)+
    then show ?thesis using Pair Inr a by (fastforce simp: scenario_record_def)
  qed
qed

section \<open>The MCP service\<close>

definition sample_world :: world where
  "sample_world = \<lparr>w_sha = (\<lambda>_. ''0123456789abcdef0123456789abcdef''), w_prepare = (\<lambda>_ _. Inr allow_all),
     w_sources = \<lparr>mk_bundle = (\<lambda>_ _. Inl (PLoad [])), mk_local = (\<lambda>_ _ _. \<lparr>ps_load_policy = Inr [], ps_load_data = Inr [],
       ps_policy_ref = Inr [], ps_bundle_revision = [], ps_profile_name = []\<rparr>)\<rparr>,
     w_net = (\<lambda>_ _. Reply 200 (Some (marshal (JObj [(''allow'', JBool True)])))),
     w_env = sample_env, w_abs = (\<lambda>_. None), w_texts = \<lparr>tx_client = (\<lambda>_. []), tx_validate = (\<lambda>_. [])\<rparr>\<rparr>"

definition sample_service :: service where
  "sample_service = \<lparr>sv_policy_path = [], sv_data_path = [], sv_bundle_path = [], sv_environment = [], sv_evidence_path = ''/s'',
     sv_policy_ref = [], sv_mode = ''enforce'', sv_include_file_links = False,
     sv_api_client = Some (client_New ''http://api'' ''k'' 0), sv_fallback_policy = ''closed'', sv_is_online = True,
     sv_engine_logic_body = [], sv_protocol_errors_body = [], sv_agent_contract_body = []\<rparr>"

lemma sample_client:
  "\<exists>r. Client_Validate (w_net sample_world) (client_New ''http://api'' ''k'' 0) ti = Inr r \<and> vr_pass r"
proof -
  let ?v = "JObj [(''allow'', JBool True)]"
  have "length (marshal ?v) \<le> maxResponseBytes"
    by (simp add: marshal_def compact_def pr_str_def esc_ascii_def maxResponseBytes_def)
  then have "json_parse (take maxResponseBytes (marshal ?v)) = Some ?v" by (simp add: rune_len_ascii)
  moreover have "d_api_response ?v = Some (zero_api_response\<lparr>ap_allow := True\<rparr>)" by code_simp
  ultimately show ?thesis
    by (simp add: Client_Validate_def sample_world_def classifyHTTPStatus_def toResult_def)
qed

text \<open>C9
  Nothing is allowed without an evaluation: an allowing answer of the service is either the answer of the API over a
  successful request, or a passing local evaluation whose evidence id it carries. A local evaluation takes place only
  offline, or when the API could not be reached and the fallback policy says so.
\<close>
theorem service_allow_only_after_evaluation:
  assumes "doEvaluate w s ti f = (out, f')" "psm_allow (vo_policy out)"
  shows "(\<exists>c r. sv_is_online s \<and> sv_api_client s = Some c \<and> Client_Validate (w_net w) c ti = Inr r \<and> vr_pass r
      \<and> vo_source out = ''api'' \<and> f' = f)
    \<or> ((\<exists>r. validate_EvaluateInvocation (w_sha w) (w_prepare w) (w_sources w) (w_env w) ti (local_options s ti) f = (Inr r, f')
        \<and> vr_pass r \<and> vo_event_id out = vr_evidence_id r)
       \<and> (\<forall>c. sv_is_online s \<and> sv_api_client s = Some c \<longrightarrow>
            sv_fallback_policy s = ''offline'' \<and> (\<exists>err. Client_Validate (w_net w) c ti = Inl err \<and> IsReachabilityError err)))"
proof (cases "if sv_is_online s then sv_api_client s else None")
  case None
  then have "evaluate_local w s ti f = (out, f')" using assms(1) by (simp add: doEvaluate_def)
  from evaluate_local_allow [OF this assms(2)] None show ?thesis by (auto split: if_splits)
next
  case (Some c)
  then have c: "sv_is_online s" "sv_api_client s = Some c" by (auto split: if_splits)
  show ?thesis
  proof (cases "Client_Validate (w_net w) c ti")
    case (Inr r)
    then show ?thesis using assms Some c by (auto simp: doEvaluate_def api_output_def)
  next
    case (Inl err)
    then have g: "IsReachabilityError err" "sv_fallback_policy s = ''offline''" and l: "evaluate_local w s ti f = (out, f')"
      using assms Some by (auto simp: doEvaluate_def refuse_def split: if_splits)
    from evaluate_local_allow [OF l assms(2)] g Inl c show ?thesis by auto
  qed
qed

theorem service_allow_only_after_evaluation_witness:
  "\<exists>out. fst (doEvaluate sample_world sample_service (sample_invocation ''agent'') sample_fs) = out
    \<and> psm_allow (vo_policy out) \<and> vo_source out = ''api''"
proof -
  obtain out f' where d: "doEvaluate sample_world sample_service (sample_invocation ''agent'') sample_fs = (out, f')"
    by (cases "doEvaluate sample_world sample_service (sample_invocation ''agent'') sample_fs")
  have a: "psm_allow (vo_policy out)"
    using d sample_client [of "sample_invocation ''agent''"] by (auto simp: doEvaluate_def sample_service_def api_output_def)
  from service_allow_only_after_evaluation [OF d a] have "vo_source out = ''api''"
    by (auto simp: sample_service_def)
  with a d show ?thesis by simp
qed

text \<open>C7
  Deny loop: once an evaluation of a request has ended without an allow, then within the time to live of the cache, and
  whatever other operations ran on it meanwhile short of an allow for the same intent, every request of an agent or CI
  actor with the same intent is stopped: it is answered with \<^verbatim>\<open>stop_after_deny\<close> without touching files or network.
\<close>
theorem denied_intent_is_stopped:
  assumes "cache_ok dc" "\<not> psm_allow (vo_policy out)" "intent_key w ti \<noteq> []"
    "deny_run (intent_key w ti) t2 (update_cache t2 (intent_key w ti) out dc) t3 dc'" "t3 - t2 \<le> dch_ttl dc"
    "gated ti'" "intent_key w ti' = intent_key w ti"
  shows "\<exists>msg dc''. svc_Validate w s t3 t4 ti' (Some dc', f) =
    (stopped s \<lparr>es_code = ErrCodeStopAfterDeny, es_message = msg\<rparr>, Some dc'', f)"
proof -
  let ?k = "intent_key w ti"
  let ?dc1 = "update_cache t2 ?k out dc"
  have u: "?dc1 = RecordDeny t2 ?k (psm_reason (vo_policy out)) (vo_rule_ids out) (vo_event_id out) dc"
    using assms(2,3) by (simp add: update_cache_def)
  have "cache_ok ?dc1" unfolding u by (rule cache_ok_step [OF do_record assms(1)])
  moreover have "view ?dc1 ?k = Some (t2, case view dc ?k of None \<Rightarrow> 1 | Some (_, n) \<Rightarrow> n + 1)"
    unfolding u by (simp add: view_RecordDeny a_record_def)
  moreover have "dch_ttl ?dc1 = dch_ttl dc" unfolding u by simp
  ultimately obtain d n where "view dc' ?k = Some (d, n)" "t2 \<le> d" "dch_ttl dc' = dch_ttl dc"
    using run_keeps_live [OF assms(4)] assms(5) by fastforce
  then have "live (dch_ttl dc') t3 (view dc' ?k)" using assms(5) by (simp add: live_def)
  then have "fst (CheckDenyLoop t3 ?k dc') \<noteq> None" using fst_CheckDenyLoop by blast
  then obtain msg where "CheckDenyLoop t3 ?k dc' = (Some \<lparr>es_code = ErrCodeStopAfterDeny, es_message = msg\<rparr>, snd (CheckDenyLoop t3 ?k dc'))"
    by (auto simp: CheckDenyLoop_def split: option.splits if_splits)
  with assms(6,7) show ?thesis by (simp add: svc_Validate_cached) (metis (mono_tags, lifting) case_prod_conv option.simps(5))
qed

theorem denied_intent_is_stopped_witness:
  "\<exists>msg dc''. svc_Validate sample_world sample_service 7 8 (sample_invocation ''agent'')
      (Some (RecordDeny 7 (intent_key sample_world (sample_invocation ''agent'')) ''no'' [] [] (NewDenyCache 10)), sample_fs) =
    (stopped sample_service \<lparr>es_code = ErrCodeStopAfterDeny, es_message = msg\<rparr>, Some dc'', sample_fs)"
proof -
  let ?k = "intent_key sample_world (sample_invocation ''agent'')"
  have k: "?k \<noteq> []" by (simp add: intent_key_def IntentKey_def sample_world_def)
  have "deny_run ?k 7 (update_cache 7 ?k (refuse ''no'' [] []) (NewDenyCache 10)) 7 (RecordDeny 7 ?k ''no'' [] [] (NewDenyCache 10))"
    using k deny_run.refl [of ?k 7] by (simp add: update_cache_def refuse_def)
  from denied_intent_is_stopped [OF _ _ k this] show ?thesis
    by (simp add: cache_ok_def NewDenyCache_def refuse_def gated_def sample_invocation_def)
qed

text \<open>
  Requests of other actors, a human among them, are always evaluated: the cache never stops them.
\<close>
theorem other_actors_are_evaluated:
  assumes "a_type (ti_actor ti) \<notin> {''agent'', ''ci''}"
  shows "fst (svc_Validate w s t1 t2 ti (dc, f)) = fst (doEvaluate w s ti f)"
  using assms by (cases dc) (auto simp: svc_Validate_def gated_def Let_def split: prod.splits)

theorem other_actors_are_evaluated_witness:
  "\<forall>w s t1 t2 dc f. fst (svc_Validate w s t1 t2 (sample_invocation ''human'') (dc, f)) = fst (doEvaluate w s (sample_invocation ''human'') f)"
  by (intro allI other_actors_are_evaluated) (simp add: sample_invocation_def)

text \<open>C34
  The deny cache implements a map from intents to the time of their last denial and the number of denials: recording
  sets the time and counts, clearing forgets, checking reports exactly the entries within the time to live and forgets
  the others, cleaning up keeps exactly the entries within the time to live. No key is ever stored twice.
\<close>
theorem deny_cache_refines_map:
  assumes "cache_ok dc"
  shows "view (RecordDeny t k r ids ev dc) = a_record t k (view dc)
    \<and> view (ClearIntent k dc) = (view dc)(k := None)
    \<and> (fst (CheckDenyLoop t k dc) \<noteq> None \<longleftrightarrow> live (dch_ttl dc) t (view dc k))
    \<and> view (snd (CheckDenyLoop t k dc)) = (if live (dch_ttl dc) t (view dc k) then view dc else (view dc)(k := None))
    \<and> view (Cleanup t dc) = (\<lambda>j. if live (dch_ttl dc) t (view dc j) then view dc j else None)
    \<and> (\<forall>op dc'. deny_step dc t op dc' \<longrightarrow> cache_ok dc')"
  using assms cache_ok_step [OF _ assms] fst_CheckDenyLoop [of t k dc]
  by (simp add: view_RecordDeny view_ClearIntent view_CheckDenyLoop view_Cleanup cache_ok_def)

theorem deny_cache_refines_map_witness:
  "view (RecordDeny 5 ''k'' ''r'' [] ''e'' (NewDenyCache 10)) = a_record 5 ''k'' (view (NewDenyCache 10))"
  using deny_cache_refines_map [of "NewDenyCache 10"] by (simp add: cache_ok_def NewDenyCache_def)

section \<open>Helpers with a contract\<close>

text \<open>
  The images of an intent are a set: they do not depend on the order of the containers, are sorted, without duplicates
  and without blanks.
\<close>
theorem images_independent_of_order:
  assumes "mset cs = mset ds"
  shows "extractImages cs = extractImages ds \<and> sorted (extractImages cs) \<and> distinct (extractImages cs)
    \<and> [] \<notin> set (extractImages cs)"
  using extractImages_perm [OF assms] extractImages_props by simp

theorem images_independent_of_order_witness:
  "extractImages [GMap [(''image'', GStr ''b'')], GMap [(''image'', GStr ''a'')]] =
   extractImages [GMap [(''image'', GStr ''a'')], GMap [(''image'', GStr ''b'')]]"
  using images_independent_of_order
    [of "[GMap [(''image'', GStr ''b'')], GMap [(''image'', GStr ''a'')]]" "[GMap [(''image'', GStr ''a'')], GMap [(''image'', GStr ''b'')]]"]
  by simp

text \<open>
  \<^verbatim>\<open>Truncate\<close> leaves a text within the limit alone; otherwise it keeps the longest prefix within the limit that is
  valid UTF-8 and appends the marker.
\<close>
theorem Truncate_correct:
  "if maxBytes \<le> 0 \<or> int (length s) \<le> maxBytes then Truncate s maxBytes = (s, False)
   else (\<exists>b. Truncate s maxBytes = (b @ Suffix, True) \<and> prefix b s \<and> int (length b) \<le> maxBytes \<and> utf8_valid b
     \<and> (\<forall>p. prefix p s \<and> int (length p) \<le> maxBytes \<and> utf8_valid p \<longrightarrow> length p \<le> length b))"
proof (cases "maxBytes \<le> 0 \<or> int (length s) \<le> maxBytes")
  case True
  then show ?thesis by (simp add: Truncate_def)
next
  case False
  let ?t = "take (nat maxBytes) s"
  let ?b = "shrink (rev ?t)"
  have b: "utf8_valid ?b" "prefix ?b ?t" using shrink_props [of "rev ?t"] by simp_all
  moreover have "prefix ?b s" using b(2) prefix_order.trans take_is_prefix by blast
  moreover have "int (length ?b) \<le> maxBytes" using prefix_length_le [OF b(2)] False by (simp, linarith)
  moreover have "length p \<le> length ?b" if "prefix p s" "int (length p) \<le> maxBytes" "utf8_valid p" for p
  proof -
    have "prefix p ?t" using that(1,2) False by (auto simp: prefix_def nat_le_eq_zle)
    from shrink_maximal [of p "rev ?t"] this that(3) show ?thesis by (auto dest: prefix_length_le)
  qed
  ultimately show ?thesis using False by (auto simp: Truncate_def Let_def)
qed

theorem Truncate_correct_witness:
  "\<exists>b. Truncate ''abcd'' 2 = (b @ Suffix, True) \<and> prefix b ''abcd'' \<and> int (length b) \<le> 2"
  using Truncate_correct [of 2 "''abcd''"] by auto

text \<open>
  Sixteen random bytes give a version 4 UUID: 36 characters, dashes in place, version nibble 4, variant nibble 8 to b.
\<close>
theorem newRequestID_is_uuid_v4: "length u = 16 \<Longrightarrow> uuid_v4 (newRequestID u)"
  by (rule newRequestID_uuid_v4)

theorem newRequestID_is_uuid_v4_witness: "uuid_v4 (newRequestID (replicate 16 255))"
  by (rule newRequestID_is_uuid_v4) simp

text \<open>
  The client reports success only for a status from 200 to 299 whose body, cut at one megabyte, is a JSON response.
\<close>
theorem client_success_only_on_2xx:
  assumes "Client_Validate net c ti = Inr r"
  shows "\<exists>st b v. net (cl_url c @ ''/v1/validate'') (marshal (invocation_json ti)) = Reply st (Some b)
    \<and> 200 \<le> st \<and> st < 300 \<and> json_parse (take maxResponseBytes b) = Some v \<and> map_option toResult (d_api_response v) = Some r"
  using Client_Validate_ok [OF assms] by metis

theorem client_success_only_on_2xx_witness:
  "\<exists>st b v r. w_net sample_world (cl_url (client_New ''http://api'' ''k'' 0) @ ''/v1/validate'')
      (marshal (invocation_json (sample_invocation ''ci''))) = Reply st (Some b)
    \<and> 200 \<le> st \<and> st < 300 \<and> json_parse (take maxResponseBytes b) = Some v \<and> map_option toResult (d_api_response v) = Some r"
  using sample_client client_success_only_on_2xx by blast

end
