(* ===== verification/ApiCorrect.thy ===== *)
theory ApiCorrect
  imports Api ServiceCorrect
begin

text \<open>
  What the API server promises: signed answers, the injectivity of what is signed, the agreement and disagreement
  of client and server, the rate limit, the keys and authentication.
\<close>

section \<open>Signatures\<close>

lemma payload_of_signed [simp]:
  "BuildSigningPayload (r\<lparr>sr_signing_payload := p, sr_signature := s\<rparr>) = BuildSigningPayload r"
  by (simp add: BuildSigningPayload_def)




text \<open>C11
  The signing payload is injective on records whose text fields are single lines: equal payloads, hence one signature,
  mean equal event, tenant, actor, tool, hashes, policy, verdict and lists, and timestamps equal to the millisecond.
\<close>
theorem signing_payload_injective:
  assumes "single_line r" "single_line q" "BuildSigningPayload r = BuildSigningPayload q"
  shows "signed_content r = signed_content q"
  by (rule payload_inject [OF assms])

definition sample_signed :: "string \<Rightarrow> string list \<Rightarrow> string \<Rightarrow> signed_record" where
  "sample_signed reason reasons sig = \<lparr>sr_event_id = ''evt_1'', sr_timestamp = zero_time, sr_server_id = ''s'', sr_tenant_id = ''t'',
     sr_environment = [], sr_actor = \<lparr>a_type = ''agent'', a_id = ''a'', a_origin = ''mcp''\<rparr>, sr_tool = ''kubectl'',
     sr_operation = ''get'', sr_input_hash = ''h'', sr_policy_ref = ''p'', sr_bundle_revision = [], sr_profile_name = [],
     sr_decision = \<lparr>dr_allow = True, dr_risk_level = ''low'', dr_reason = reason, dr_reasons = reasons, dr_hints = [],
       dr_hits = [], dr_rule_ids = []\<rparr>, sr_signature = sig, sr_signing_payload = []\<rparr>"

theorem signing_payload_injective_witness:
  "signed_content (sample_signed ''r'' [''r''] ''x'') = signed_content (sample_signed ''r'' [''r''] ''y'')"
  by (rule signing_payload_injective)
    (simp_all add: single_line_def sample_signed_def newline_def BuildSigningPayload_def)

text \<open>
  The single-line condition is needed, and the handler checks it only for the fields of the request: a policy reason with a
  line break gives a record that has the payload, and so the signature, of a different record.
\<close>
theorem multiline_reason_collides:
  "\<exists>r q. single_line r \<and> BuildSigningPayload r = BuildSigningPayload q \<and> signed_content r \<noteq> signed_content q
    \<and> newline \<in> set (dr_reason (sr_decision q))"
proof -
  let ?r = "sample_signed ''x'' [''a'' @ newline # ''reasons=1:b''] []"
  let ?q = "sample_signed (''x'' @ newline # ''reasons=13:a'') [''b''] []"
  have "dec 13 = ''13''" "dec 1 = ''1''" by code_simp+
  then have "dec (Suc (Suc (Suc (Suc (Suc (Suc (Suc (Suc (Suc (Suc (Suc (Suc (Suc 0))))))))))))) = ''13''" "dec (Suc 0) = ''1''"
    by (simp_all add: eval_nat_numeral)
  then have "BuildSigningPayload ?r = BuildSigningPayload ?q"
    by (simp add: BuildSigningPayload_def sample_signed_def writeField_def writeListField_def)
  moreover have "single_line ?r" by (simp add: single_line_def sample_signed_def newline_def)
  moreover have "signed_content ?r \<noteq> signed_content ?q" by (simp add: signed_content_def sample_signed_def)
  ultimately show ?thesis by (intro exI [of _ ?r] exI [of _ ?q]) (simp add: sample_signed_def)
qed

section \<open>Client and server\<close>

lemma json_parse_marshal_newline: "json_ok v \<Longrightarrow> json_parse (marshal v @ [CHR 0x0A]) = Some v"
  using json_parse_pr_val [OF wf_compact, of v "[CHR 0x0A]" 0] by (simp add: marshal_def ws_str_def is_ws_def)





section \<open>A signed answer\<close>

definition sample_crypto :: crypto where
  "sample_crypto = \<lparr>cr_sign = (\<lambda>k m. drop 32 k @ m), cr_verify = (\<lambda>p m sig. sig = p @ m), cr_from_seed = (\<lambda>s. s @ s),
     cr_generate = Some (replicate 64 (CHR ''k'')), cr_pem_key = (\<lambda>_. PemNone)\<rparr>"

definition sample_api_world :: api_world where
  "sample_api_world = \<lparr>aw_sha = (\<lambda>_. ''d''), aw_crypto = sample_crypto, aw_quote = (\<lambda>s. s), aw_json_error = (\<lambda>_. [])\<rparr>"

definition sample_draw :: draw where
  "sample_draw = \<lparr>dw_now = zero_time, dw_mono = 0, dw_event = ''1'', dw_tenant = ''t1'', dw_key = ''k1'',
     dw_random = Some (replicate 32 255), dw_refuses = (\<lambda>_. False)\<rparr>"

definition sample_request :: request where
  "sample_request = \<lparr>rq_method = ''POST'', rq_path = ''/v1/validate'', rq_header = (\<lambda>_. []), rq_remote_addr = [],
     rq_body = marshal (invocation_json (sample_invocation ''agent''))\<rparr>"



section \<open>The client reads the answer\<close>

lemma zero_time_text: "fmt_rfc3339_nano zero_time = ''0001-01-01T00:00:00Z''"
  by code_simp

text \<open>
  The client does not find the verdict in the server's answer: it decodes a signed record without error, but looks for the
  verdict, the reasons and the evidence id at the top level, where the record has none, so that an allowed request is
  reported as not passed and without an evidence id.
\<close>
theorem client_misses_verdict:
  assumes "json_ok (signed_record_json rec)" "length (marshal (signed_record_json rec)) < maxResponseBytes"
    "net (cl_url c @ ''/v1/validate'') (marshal (invocation_json ti)) =
       Reply 200 (Some (rs_body (writeJSON 200 (signed_record_json rec))))"
  shows "\<exists>vr. Client_Validate net c ti = Inr vr \<and> \<not> vr_pass vr \<and> vr_evidence_id vr = []"
proof -
  have "json_parse (take maxResponseBytes (marshal (signed_record_json rec) @ [CHR 0x0A])) = Some (signed_record_json rec)"
    using assms(1,2) by (simp add: json_parse_marshal_newline)
  moreover have "\<exists>a. d_api_response (signed_record_json rec) = Some a \<and> \<not> ap_allow a \<and> ap_evidence_id a = []"
    by (simp add: d_api_response_def signed_record_json_def field_def member_simps)
  ultimately show ?thesis
    using assms(3) by (auto simp: Client_Validate_def classifyHTTPStatus_def writeJSON_def toResult_def)
qed

theorem client_misses_verdict_witness:
  "dr_allow (sr_decision (sample_signed ''r'' [] ''x'')) \<and>
   (\<exists>vr. Client_Validate (\<lambda>_ _. Reply 200 (Some (rs_body (writeJSON 200 (signed_record_json (sample_signed ''r'' [] ''x''))))))
      (client_New ''http://api'' ''k'' 0) (sample_invocation ''agent'') = Inr vr \<and> \<not> vr_pass vr \<and> vr_evidence_id vr = [])"
proof
  have "json_ok (signed_record_json (sample_signed ''r'' [] ''x''))"
    by (simp add: signed_record_json_def sample_signed_def actor_json_def decision_record_json_def omit_def rune_len_ascii)
  moreover have "length (marshal (signed_record_json (sample_signed ''r'' [] ''x''))) < maxResponseBytes"
    by (simp add: signed_record_json_def sample_signed_def actor_json_def decision_record_json_def omit_def marshal_def
        compact_def pr_str_def esc_ascii_def maxResponseBytes_def zero_time_text)
  ultimately show "\<exists>vr. Client_Validate (\<lambda>_ _. Reply 200 (Some (rs_body (writeJSON 200 (signed_record_json (sample_signed ''r'' [] ''x''))))))
      (client_New ''http://api'' ''k'' 0) (sample_invocation ''agent'') = Inr vr \<and> \<not> vr_pass vr \<and> vr_evidence_id vr = []"
    by (rule client_misses_verdict) simp
qed (simp add: sample_signed_def)

section \<open>The rate limit\<close>










section \<open>Keys\<close>

text \<open>C36
  \<^verbatim>\<open>base62Encode\<close> always returns, and it writes the number its bytes stand for: the digits have that value, different
  byte strings of one length get different texts, and the text has at most \<open>k\<close> characters exactly when the number is
  below \<open>62 ^ k\<close> (so 32 bytes give at most 43, and fewer than eight for a number below \<open>62 ^ 7\<close>).
\<close>
theorem base62Encode_correct:
  "base62_value (base62Encode b) = bytes_value b
   \<and> (length a = length b \<and> base62Encode a = base62Encode b \<longrightarrow> a = b)
   \<and> (length (base62Encode b) \<le> k \<longleftrightarrow> bytes_value b < 62 ^ k)
   \<and> (length b = 32 \<longrightarrow> length (base62Encode b) \<le> 43)"
proof -
  have "bytes_value b < 62 ^ 43" if "length b = 32"
    using bytes_value_less [of b] that by simp
  moreover have "a = b" if "length a = length b" "base62Encode a = base62Encode b"
    using that base62Encode_value [of a] base62Encode_value [of b] by (intro bytes_value_inject) simp_all
  ultimately show ?thesis using base62Encode_value base62Encode_length by blast
qed

theorem base62Encode_correct_witness: "length (base62Encode (replicate 32 255)) \<le> 43"
  using base62Encode_correct [where b = "replicate 32 255"] length_replicate [of 32 "255 :: 8 word"] by blast

text \<open>
  Issuing a key: a call that fails leaves the tables unchanged; after a call that succeeds the plaintext is looked up to
  the tenant, key id and prefix that were returned, every other text whose digest differs is looked up as before, and the
  constraints of the tables still hold.
\<close>
theorem CreateKey_then_LookupKey:
  assumes "keys_ok db"
  shows "case CreateKey sha refuses tenantID keyID raw now label db of
     (Inl err, db') \<Rightarrow> db' = db
   | (Inr (p, rec), db') \<Rightarrow> keys_ok db'
      \<and> LookupKey sha (\<lambda>_. False) p db' = Inr (kc_tenant_id rec, kc_id rec, kc_prefix rec)
      \<and> (\<forall>q. sha q \<noteq> sha p \<longrightarrow> LookupKey sha (\<lambda>_. False) q db' = LookupKey sha (\<lambda>_. False) q db)"
proof (cases "CreateKey sha refuses tenantID keyID raw now label db")
  case (Pair res db')
  show ?thesis
  proof (cases res)
    case (Inl err)
    then show ?thesis using Pair CreateKey_failed by simp
  next
    case (Inr pr)
    obtain p rec where pr: "pr = (p, rec)" by force
    obtain row where row: "keys_ok db'" "api_keys db' = api_keys db @ [row]" "active (sha p) row"
      "sha p \<notin> kr_key_hash ` set (api_keys db)" "kr_tenant_id row = kc_tenant_id rec" "kr_id row = kc_id rec"
      "kr_prefix row = kc_prefix rec"
      using CreateKey_succeeded [OF assms, of sha refuses tenantID keyID raw now label p rec db'] Pair Inr pr by auto
    have "List.find (active (sha p)) (api_keys db) = None"
      using row(4) by (auto simp: find_None_iff active_def image_iff)
    then have "LookupKey sha (\<lambda>_. False) p db' = Inr (kc_tenant_id rec, kc_id rec, kc_prefix rec)"
      using row by (simp add: LookupKey_def find_snoc)
    moreover have "LookupKey sha (\<lambda>_. False) q db' = LookupKey sha (\<lambda>_. False) q db" if "sha q \<noteq> sha p" for q
      using row(2,3) that by (simp add: LookupKey_def find_snoc active_def split: option.splits)
    ultimately show ?thesis using Pair Inr pr row(1) by simp
  qed
qed

lemma keys_ok_empty: "keys_ok \<lparr>tenants = [], api_keys = []\<rparr>"
  by (simp add: keys_ok_def)

theorem CreateKey_then_LookupKey_witness:
  "case CreateKey (\<lambda>s. s) (\<lambda>_. False) ''t1'' ''k1'' (Some (replicate 32 255)) zero_time [] \<lparr>tenants = [], api_keys = []\<rparr> of
     (Inl err, db') \<Rightarrow> db' = \<lparr>tenants = [], api_keys = []\<rparr>
   | (Inr (p, rec), db') \<Rightarrow> keys_ok db'
      \<and> LookupKey (\<lambda>s. s) (\<lambda>_. False) p db' = Inr (kc_tenant_id rec, kc_id rec, kc_prefix rec)
      \<and> (\<forall>q. q \<noteq> p \<longrightarrow> LookupKey (\<lambda>s. s) (\<lambda>_. False) q db' = LookupKey (\<lambda>s. s) (\<lambda>_. False) q \<lparr>tenants = [], api_keys = []\<rparr>)"
  using CreateKey_then_LookupKey [OF keys_ok_empty, of "\<lambda>s. s"] by simp

section \<open>Authentication\<close>

text \<open>The credentials a request must bring.\<close>

definition authenticated :: "api_world \<Rightarrow> draw \<Rightarrow> router_config \<Rightarrow> request \<Rightarrow> api_state \<Rightarrow> bool" where
  "authenticated w dw cfg r st \<longleftrightarrow> (\<exists>token. token \<noteq> [] \<and> rq_header r ''Authorization'' = ''Bearer '' @ token
    \<and> (if rc_has_store cfg then \<not> dw_refuses dw DbQuery \<and> (\<exists>row \<in> set (api_keys (as_db st)). active (aw_sha w token) row)
       else token = rc_api_key cfg))"

lemma bearer_token: "extractBearerToken r = t \<and> t \<noteq> [] \<longleftrightarrow> t \<noteq> [] \<and> rq_header r ''Authorization'' = ''Bearer '' @ t"
  by (auto simp: extractBearerToken_def Let_def prefix_def)

lemma auth_mw_refuses:
  assumes "\<not> authenticated w dw cfg r st"
  shows "auth_mw w dw cfg h r st = (Some authFail, st)"
proof (cases "extractBearerToken r = []")
  case True
  then show ?thesis by (simp add: auth_mw_def StaticKeyMiddleware_def KeyStoreMiddleware_def)
next
  case False
  then have b: "rq_header r ''Authorization'' = ''Bearer '' @ extractBearerToken r" using bearer_token by blast
  show ?thesis
  proof (cases "rc_has_store cfg")
    case True
    then have "dw_refuses dw DbQuery \<or> List.find (active (aw_sha w (extractBearerToken r))) (api_keys (as_db st)) = None"
      using assms b False by (auto simp: authenticated_def find_None_iff)
    then have "\<exists>e. LookupKey (aw_sha w) (dw_refuses dw) (extractBearerToken r) (as_db st) = Inl e"
      by (auto simp: LookupKey_def)
    then show ?thesis using True False by (auto simp: auth_mw_def KeyStoreMiddleware_def Let_def)
  next
    case no: False
    then have "extractBearerToken r \<noteq> rc_api_key cfg" using assms b False by (auto simp: authenticated_def)
    then show ?thesis using no False by (simp add: auth_mw_def StaticKeyMiddleware_def Let_def)
  qed
qed

lemma router_refuses:
  assumes "(rq_method r, rq_path r) \<in> {(''POST'', ''/v1/validate''), (''GET'', ''/auth/check''), (''HEAD'', ''/auth/check'')}"
    "\<not> authenticated w dw cfg r st"
  shows "NewRouter w dw reachable cfg r st = (authFail, st)"
proof -
  let ?r = "r\<lparr>rq_body := take maxBodyBytes (rq_body r)\<rparr>"
  have "\<not> authenticated w dw cfg ?r st" using assms(2) by (simp add: authenticated_def)
  note a = auth_mw_refuses [OF this]
  have "mux w dw reachable cfg ?r st = (Some authFail, st)"
    using assms(1) by (auto simp: mux_def routes_def a)
  then show ?thesis by (simp add: NewRouter_def recoveryMiddleware_def bodyLimitMiddleware_def)
qed

text \<open>C16
  Through the whole router, with its middleware: a request to the validate endpoint or to the authentication check without
  valid credentials (the static key, or a key whose digest is in the table and not revoked) is answered with 401, and the
  server's state is unchanged.
\<close>
theorem unauthenticated_requests_are_refused:
  assumes "(rq_method r, rq_path r) \<in> {(''POST'', ''/v1/validate''), (''GET'', ''/auth/check''), (''HEAD'', ''/auth/check'')}"
    "\<not> authenticated w dw cfg r st"
  shows "NewRouter w dw reachable cfg r st = (authFail, st)"
  by (rule router_refuses [OF assms])

definition sample_router :: router_config where
  "sample_router = \<lparr>rc_engine = sample_evaluator, rc_signer = signer_of (replicate 64 (CHR ''k'')), rc_api_key = ''secret'',
     rc_server_id = ''s'', rc_ui = None, rc_has_store = False, rc_has_db = False, rc_invite_secret = [], rc_pubkey_pem = None\<rparr>"

theorem unauthenticated_requests_are_refused_witness:
  "NewRouter sample_api_world sample_draw True sample_router sample_request \<lparr>as_db = \<lparr>tenants = [], api_keys = []\<rparr>, as_rl = (\<lambda>_. [])\<rparr> =
    (authFail, \<lparr>as_db = \<lparr>tenants = [], api_keys = []\<rparr>, as_rl = (\<lambda>_. [])\<rparr>)"
  by (rule unauthenticated_requests_are_refused)
    (simp_all add: sample_request_def authenticated_def)

end
