(* ===== verification/StartupCorrect.thy ===== *)
theory StartupCorrect
  imports Startup EmbeddedCorrect ApiCorrect
begin

text \<open>
  What holds of a server that has started: it has a policy to evaluate with, its evidence has a place, its credentials are
  strong enough; and what a run leaves behind. The witnesses start both servers on a small compiled-in bundle.
\<close>

section \<open>The MCP server\<close>

lemma first_set_nonempty: "first_set ss = Some s \<Longrightarrow> s \<noteq> []"
  by (induction ss) (auto split: if_splits)

lemma ResolveEvidencePath_nonempty: "ResolveEvidencePath e x = Some p \<Longrightarrow> p \<noteq> []"
  using path_str_nonempty [OF wf_path_join]
  by (auto simp: ResolveEvidencePath_def simp del: first_set.simps dest: first_set_nonempty split: option.splits)

lemma ResolvePolicyData_nonempty: "ResolvePolicyData e f p d = Some (p', d') \<Longrightarrow> p' \<noteq> [] \<and> d' \<noteq> []"
  by (auto simp: ResolvePolicyData_def Let_def DefaultPolicyPath_def DefaultDataPath_def split: if_splits)

lemma mode_Resolve_cases:
  "mode_Resolve cfg = Inr res \<Longrightarrow> (rs_is_online res \<longleftrightarrow> rs_client res \<noteq> None) \<and> rs_fallback_policy res \<in> {''offline'', ''closed''}"
  by (auto simp: mode_Resolve_def normalizeFallback_def Let_def split: if_splits)

text \<open>What a service needs to answer a request: a bundle that opens, or loose files, whenever it may evaluate locally.\<close>

definition policy_available :: "service \<Rightarrow> fs \<Rightarrow> bool" where
  "policy_available s f \<longleftrightarrow>
    (if sv_bundle_path s \<noteq> []
     then (case NewBundleSource f (sv_bundle_path s) of Inl _ \<Rightarrow> False | Inr b \<Rightarrow> sv_policy_ref s = bm_revision (bs_manifest b))
     else sv_policy_path s \<noteq> [] \<and> sv_data_path s \<noteq> [])"

lemma mcp_start_serves:
  assumes "mcp_start w vs res f = (MServe srv, f')"
  obtains bundlePath src evidencePath where "mcp_bundle_path w vs res f = (Some bundlePath, f')"
    "mcp_policy_source w vs res bundlePath f' = Some src" "evidencePath \<noteq> []"
    "NewServer (mw_env w) (mw_proc w) (mw_guidance w) (mw_validate_schema w) (mw_get_event_schema w) f'
       (mcp_server_options w vs res bundlePath src evidencePath) = Some srv"
  using assms
  by (auto simp: mcp_start_def bind_eq_Some_conv split: prod.splits option.splits intro: that dest: ResolveEvidencePath_nonempty)

lemma NewServer_service:
  "NewServer e pr emb vb gb f opts = Some srv \<Longrightarrow> \<exists>g. ms_service srv = fst (newValidateService (server_defaults e opts) g)"
  by (auto simp: NewServer_def Let_def split: sum.splits option.splits)

lemma extract_cached_dir: "extractEmbeddedBundleCached sha e emb f = (Inr dir, f') \<Longrightarrow> dir = bundleCachePath e"
  by (auto simp: extractEmbeddedBundleCached_def Let_def split: if_splits sum.splits prod.splits option.splits)

lemma mcp_bundle_path_loose:
  assumes "mcp_bundle_path w vs res f = (Some [], f')" "needLocalBundle res" shows "looseMode vs (mw_env w)"
proof (rule ccontr)
  assume "\<not> looseMode vs (mw_env w)"
  with assms obtain dir where "extractEmbeddedBundleCached (mw_sha w) (mw_env w) (mw_bundle w) f = (Inr dir, f')" "path_str dir = []"
    by (auto simp: mcp_bundle_path_def Let_def split: if_splits sum.splits prod.splits)
  then show False using extract_cached_dir path_str_nonempty cache_path by (metis name_path_def)
qed

lemma mcp_policy_source_available:
  assumes "mcp_policy_source w vs res bundlePath f = Some (ref, p, d)" "needLocalBundle res" "bundlePath = [] \<Longrightarrow> looseMode vs (mw_env w)"
  shows "if bundlePath \<noteq> [] then (case NewBundleSource f bundlePath of Inl _ \<Rightarrow> False | Inr b \<Rightarrow> ref = bm_revision (bs_manifest b))
    else p \<noteq> [] \<and> d \<noteq> []"
  using assms ResolvePolicyData_nonempty
  by (auto simp: mcp_policy_source_def bundle_PolicyRef_def Let_def split: if_splits sum.splits option.splits prod.splits)

text \<open>C22
  An MCP server that starts can answer: when it may evaluate locally (offline, or online with the offline fallback) it has
  either a bundle that opened and whose revision it reports, or the paths of a policy and its data. It talks to an API exactly
  when it is online, its fallback is one of the two known ones, its evidence has a place, and it enforces.
\<close>

theorem started_server_has_policy:
  assumes "mcp_run w args f = (MServe srv, f')"
  defines "s \<equiv> ms_service srv"
  shows "(\<not> sv_is_online s \<or> sv_fallback_policy s = ''offline'' \<longrightarrow> policy_available s f')
    \<and> (sv_is_online s \<longleftrightarrow> sv_api_client s \<noteq> None) \<and> sv_fallback_policy s \<in> {''offline'', ''closed''}
    \<and> sv_evidence_path s \<noteq> [] \<and> sv_mode s = ''enforce''"
proof -
  obtain vs res where res: "mode_Resolve (mcp_mode_config vs (mw_env w)) = Inr res" "mcp_start w vs res f = (MServe srv, f')"
    using assms(1) by (auto simp: mcp_run_def split: option.splits if_splits sum.splits)
  obtain bundlePath ref p d evidencePath where st: "mcp_bundle_path w vs res f = (Some bundlePath, f')"
    "mcp_policy_source w vs res bundlePath f' = Some (ref, p, d)" "evidencePath \<noteq> []"
    "NewServer (mw_env w) (mw_proc w) (mw_guidance w) (mw_validate_schema w) (mw_get_event_schema w) f'
       (mcp_server_options w vs res bundlePath (ref, p, d) evidencePath) = Some srv"
    by (rule mcp_start_serves [OF res(2)]) (auto split: prod.splits)
  obtain g where s: "s = fst (newValidateService (server_defaults (mw_env w) (mcp_server_options w vs res bundlePath (ref, p, d) evidencePath)) g)"
    using NewServer_service [OF st(4)] by (auto simp: s_def)
  have fields: "sv_bundle_path s = bundlePath" "sv_policy_ref s = ref" "sv_policy_path s = p" "sv_data_path s = d"
    "sv_is_online s = rs_is_online res" "sv_fallback_policy s = rs_fallback_policy res" "sv_api_client s = rs_client res"
    "sv_evidence_path s = evidencePath" "sv_mode s = ''enforce''"
    using st(3) by (simp_all add: s newValidateService_def server_defaults_def mcp_server_options_def)
  have "policy_available s f'" if "needLocalBundle res"
    unfolding policy_available_def fields
    using mcp_policy_source_available [OF st(2) that] mcp_bundle_path_loose that st(1) by blast
  then show ?thesis using mode_Resolve_cases [OF res(1)] st(3) by (simp add: needLocalBundle_def fields)
qed

text \<open>The guidance loads whenever the compiled-in texts are complete.\<close>

lemma guidance_loads:
  assumes "unrefused f" "pred_option (prefix ''/'') (pi_cwd pr)" "pred_option (prefix ''/'') (pi_exe pr)"
    "first_set [explicitDir, e_getenv e ''EVIDRA_CONTENT_DIR''] = None" "loadEmbeddedGuidanceContent emb = Inr g0"
  shows "\<exists>g. loadGuidanceContentAuto e pr emb f explicitDir = Inr g"
proof (cases "find (complete_dir f) (search_dirs pr)")
  case None
  then show ?thesis using resolve_unnamed [OF assms(4,2,3), of f] assms(5) by (simp add: loadGuidanceContentAuto_def)
next
  case (Some d)
  then have "complete_dir f d" by (auto simp: find_Some_iff)
  from load_complete_dir [OF assms(1) this] obtain g where "loadGuidanceContent f d = Inr g"
    by (cases "loadGuidanceContent f d") auto
  then show ?thesis using resolve_unnamed [OF assms(4,2,3), of f] Some by (simp add: loadGuidanceContentAuto_def)
qed

text \<open>C19
  The start without any configuration: no arguments, no environment variable but the home directory, and a cache that
  does not match. The MCP server starts offline; its bundle is the cached copy, the revision it reports is that of the
  compiled-in bundle, and the modules and data it will evaluate are the compiled-in ones.
\<close>

theorem unconfigured_start_uses_embedded_policy:
  fixes w defines "e \<equiv> mw_env w"
  assumes "\<forall>k. k \<noteq> ''HOME'' \<longrightarrow> e_getenv e k = []" "trim_space (e_getenv e ''HOME'') \<noteq> []"
    and "embedded_ok (mw_bundle w)" "hex_digest (mw_sha w)" "unrefused f" "\<not> blocked f (bundleCachePath e)"
    and "\<forall>want. embeddedBundleHash (mw_sha w) (mw_bundle w) = Inr want \<longrightarrow> \<not> cache_hit f (bundleCachePath e) want"
    and "NewBundleSource (mw_bundle w) (path_str bundleRoot) = Inr b" "bundle_LoadPolicy (mw_bundle w) b = Inr ms"
      "bundle_LoadData (mw_bundle w) b = Inr d"
    and "pred_option (prefix ''/'') (pi_cwd (mw_proc w))" "pred_option (prefix ''/'') (pi_exe (mw_proc w))"
    and "loadEmbeddedGuidanceContent (mw_guidance w) = Inr g0"
    and "mustLoadInputSchema (mw_validate_schema w) = Some vs" "mustLoadInputSchema (mw_get_event_schema w) = Some gs"
  shows "\<exists>srv f' b'. mcp_run w [] f = (MServe srv, f') \<and> \<not> sv_is_online (ms_service srv)
    \<and> sv_policy_ref (ms_service srv) = bm_revision (bs_manifest b)
    \<and> NewBundleSource f' (sv_bundle_path (ms_service srv)) = Inr b' \<and> bundle_LoadPolicy f' b' = Inr ms \<and> bundle_LoadData f' b' = Inr d"
proof -
  obtain f' b' where x: "extractEmbeddedBundleCached (mw_sha w) e (mw_bundle w) f = (Inr (bundleCachePath e), f')"
    "NewBundleSource f' (path_str (bundleCachePath e)) = Inr b'" "bs_manifest b' = bs_manifest b"
    "bundle_LoadPolicy f' b' = Inr ms" "bundle_LoadData f' b' = Inr d" "unrefused f'"
    using cached_bundle_loads [OF assms(4-11)] by blast
  define res where "res = \<lparr>rs_is_online = False, rs_client = None, rs_fallback_policy = ''closed''\<rparr>"
  have mode: "mode_Resolve (mcp_mode_config [] e) = Inr res"
    using assms(2) by (simp add: mode_Resolve_def mcp_mode_config_def normalizeFallback_def flag_bool_def res_def to_lower_def)
  have bp: "mcp_bundle_path w [] res f = (Some (path_str (bundleCachePath e)), f')"
    using assms(2) x(1) by (simp add: mcp_bundle_path_def e_def [symmetric] needLocalBundle_def res_def config_ResolveBundlePath_def
        flag_str_def looseMode_def)
  have ne: "path_str (bundleCachePath e) \<noteq> []" using cache_path [of e] path_str_nonempty by (auto simp: name_path_def)
  have src: "mcp_policy_source w [] res (path_str (bundleCachePath e)) f' = Some (bm_revision (bs_manifest b), [], [])"
    using x(2,3) ne by (simp add: mcp_policy_source_def bundle_PolicyRef_def flag_str_def)
  obtain ev where ev: "Option.bind (resolveEvidenceFlagValue (flag_str [] ''evidence-store'' []) (flag_str [] ''evidence-dir'' []))
      (ResolveEvidencePath e) = Some ev"
    using assms(2,3) by (cases "e_getenv e ''HOME'' = []") (auto simp: resolveEvidenceFlagValue_def flag_str_def ResolveEvidencePath_def resolveHomeDir_def)
  let ?opts = "mcp_server_options w [] res (path_str (bundleCachePath e)) (bm_revision (bs_manifest b), [], []) ev"
  have "mo_content_dir (server_defaults e ?opts) = []"
    using assms(2) by (simp add: server_defaults_def mcp_server_options_def flag_str_def e_def [symmetric])
  then obtain g where "loadGuidanceContentAuto e (mw_proc w) (mw_guidance w) f' (mo_content_dir (server_defaults e ?opts)) = Inr g"
    using guidance_loads [OF x(6) assms(12,13) _ assms(14)] assms(2) by fastforce
  then obtain srv where srv: "NewServer e (mw_proc w) (mw_guidance w) (mw_validate_schema w) (mw_get_event_schema w) f' ?opts = Some srv"
    using assms(15,16) by (simp add: NewServer_def Let_def)
  have "mcp_run w [] f = (MServe srv, f')"
    using mode bp src ev srv by (simp add: mcp_run_def mcp_start_def e_def [symmetric] flag_bool_def)
  moreover obtain gb where "ms_service srv = fst (newValidateService (server_defaults e ?opts) gb)"
    using NewServer_service [OF srv] by blast
  then have "\<not> sv_is_online (ms_service srv)" "sv_policy_ref (ms_service srv) = bm_revision (bs_manifest b)"
    "sv_bundle_path (ms_service srv) = path_str (bundleCachePath e)"
    by (simp_all add: newValidateService_def server_defaults_def mcp_server_options_def res_def)
  ultimately show ?thesis using x(2,4,5) by auto
qed

section \<open>The API server\<close>

lemma api_start_started:
  assumes "api_start w f = (Some (cfg, addr, dir), f')"
  obtains s bs eng where "api_signer w f = Inr s" "api_extractEmbeddedBundle (bw_env w) (bw_temp_names w) (bw_bundle w) f = (Inr dir, f')"
    "NewBundleSource f' (path_str dir) = Inr bs" "NewEvaluator (bw_prepare w) (bundle_policy_source f' bs) = Inr eng" "cfg = api_config w eng s"
    "e_getenv (bw_env w) ''DATABASE_URL'' = [] \<Longrightarrow> 32 \<le> length (e_getenv (bw_env w) ''EVIDRA_API_KEY'')"
  using assms by (auto simp: api_start_def Let_def split: if_splits sum.splits prod.splits intro: that)

text \<open>C23
  The policy behind the API is the one compiled in: the evaluator of a started server is the one that the compiled-in bundle
  itself gives, although it was built from the temporary copy.
\<close>

theorem api_engine_is_embedded:
  assumes "api_start w f = (Some (cfg, addr, dir), f')" "embedded_ok (bw_bundle w)" "tree_ok f" "unrefused f"
    "list_all (\<lambda>r. CHR ''/'' \<notin> set r) (bw_temp_names w)"
    "NewBundleSource (bw_bundle w) (path_str bundleRoot) = Inr b" "bundle_LoadPolicy (bw_bundle w) b = Inr ms"
    "bundle_LoadData (bw_bundle w) b = Inr d"
  shows "NewEvaluator (bw_prepare w) (bundle_policy_source (bw_bundle w) b) = Inr (rc_engine cfg)"
proof -
  obtain s bs eng where st: "api_extractEmbeddedBundle (bw_env w) (bw_temp_names w) (bw_bundle w) f = (Inr dir, f')"
    "NewBundleSource f' (path_str dir) = Inr bs" "NewEvaluator (bw_prepare w) (bundle_policy_source f' bs) = Inr eng" "cfg = api_config w eng s"
    using assms(1) by (rule api_start_started)
  have "temp_ready (bw_temp_names w) (bw_bundle w) f" using assms(3-5) by (simp add: temp_ready_def)
  then have "bundle_policy_source f' bs = bundle_policy_source (bw_bundle w) b"
    using temporary.source_same [OF assms(2) _ st(1) assms(6-8) st(2)] by blast
  with st(3,4) show ?thesis by (simp add: api_config_def Let_def)
qed

text \<open>C24
  Without a database the API is guarded by one static key of at least 32 bytes: a server that has started answers 401 to
  every validation or authentication check whose credentials are shorter than that, and nothing changes.
\<close>

theorem short_credentials_are_refused:
  assumes "api_start w f = (Some (cfg, addr, dir), f')" "e_getenv (bw_env w) ''DATABASE_URL'' = []"
    "(rq_method r, rq_path r) \<in> {(''POST'', ''/v1/validate''), (''GET'', ''/auth/check''), (''HEAD'', ''/auth/check'')}"
    "length (rq_header r ''Authorization'') < length ''Bearer '' + 32"
  shows "NewRouter aw dw reachable cfg r st = (authFail, st)"
proof (rule router_refuses [OF assms(3)])
  obtain s eng where "cfg = api_config w eng s" "32 \<le> length (e_getenv (bw_env w) ''EVIDRA_API_KEY'')"
    by (rule api_start_started [OF assms(1)]) (use assms(2) in blast)
  then have "32 \<le> length (rc_api_key cfg)" "\<not> rc_has_store cfg" using assms(2) by (simp_all add: api_config_def)
  with assms(4) show "\<not> authenticated aw dw cfg r st" by (auto simp: authenticated_def)
qed


section \<open>Witnesses\<close>

definition shipped_guidance :: fs where
  "shipped_guidance = \<lparr>nodes = map (\<lambda>rel. (path_join embeddedContentDir rel, File rel)) content_files, refused = (\<lambda>_ _. False)\<rparr>"

definition sample_mcp :: mcp_world where
  "sample_mcp = \<lparr>mw_env = home_env, mw_proc = \<lparr>pi_cwd = None, pi_exe = None\<rparr>, mw_sha = (\<lambda>_. ''0f''), mw_version = ''v1'', mw_commit = ''c'',
     mw_date = ''d'', mw_bundle = shipped, mw_guidance = shipped_guidance, mw_validate_schema = ''{}'', mw_get_event_schema = ''{}''\<rparr>"

lemma shipped_guidance_loads: "\<exists>g. loadEmbeddedGuidanceContent shipped_guidance = Inr g"
proof -
  have "\<not> isl (loadEmbeddedGuidanceContent shipped_guidance)" by code_simp
  then show ?thesis by (cases "loadEmbeddedGuidanceContent shipped_guidance") auto
qed

theorem started_server_has_policy_witness:
  "\<exists>srv f'. mcp_run sample_mcp [''--bundle'', ''policy/bundles/ops-v0.1''] shipped = (MServe srv, f')
    \<and> sv_evidence_path (ms_service srv) \<noteq> [] \<and> (\<not> sv_is_online (ms_service srv) \<longrightarrow> policy_available (ms_service srv) f')"
proof -
  let ?x = "mcp_run sample_mcp [''--bundle'', ''policy/bundles/ops-v0.1''] shipped"
  have "case fst ?x of MServe _ \<Rightarrow> True | _ \<Rightarrow> False" by code_simp
  then obtain srv f' where "?x = (MServe srv, f')" by (cases ?x) (auto split: mcp_outcome.splits)
  with started_server_has_policy [OF this] show ?thesis by blast
qed

lemma home_missing: "read_file home_fs (path_join (bundleCachePath home_env) bundleSHAFile) = Inl NotExist"
  by code_simp

theorem unconfigured_start_uses_embedded_policy_witness:
  "\<exists>srv f' b'. mcp_run sample_mcp [] home_fs = (MServe srv, f') \<and> sv_policy_ref (ms_service srv) = ''r1''
    \<and> bundle_LoadPolicy f' b' = Inr [(''ops/a.rego'', ''A'')]"
proof -
  obtain g where g: "loadEmbeddedGuidanceContent (mw_guidance sample_mcp) = Inr g"
    using shipped_guidance_loads by (auto simp: sample_mcp_def)
  have sch: "mustLoadInputSchema (mw_validate_schema sample_mcp) = Some (JObj [])" "mustLoadInputSchema (mw_get_event_schema sample_mcp) = Some (JObj [])"
    by code_simp+
  have "\<not> blocked home_fs (bundleCachePath home_env)" by code_simp
  moreover have "trim_space ''/h'' \<noteq> []" by code_simp
  moreover have "hex_digest (\<lambda>_. ''0f'')" by (simp add: hex_digest_def hex_val_def)
  ultimately show ?thesis
    using unconfigured_start_uses_embedded_policy [of sample_mcp home_fs shipped_bundle "[(''ops/a.rego'', ''A'')]" "[]" g "JObj []" "JObj []"]
      g sch shipped_ok shipped_loads home_fs_ok home_missing
    by (auto simp: sample_mcp_def home_env_def cache_hit_def shipped_bundle_def)
qed

definition boot_env :: env where
  "boot_env = home_env\<lparr>e_getenv := (\<lambda>k. if k = ''EVIDRA_API_KEY'' then replicate 32 (CHR ''k'')
     else if k = ''EVIDRA_ENV'' then ''development'' else [])\<rparr>"

definition sample_boot :: boot_world where
  "sample_boot = \<lparr>bw_env = boot_env, bw_hostname = None, bw_crypto = sample_crypto, bw_prepare = (\<lambda>_ _. Inr (\<lambda>_. Inl [])),
     bw_bundle = shipped, bw_temp_names = [''7''], bw_connect = (\<lambda>_. False), bw_ui = None\<rparr>"

lemma sample_boot_starts: "\<exists>cfg addr dir f'. api_start sample_boot home_fs = (Some (cfg, addr, dir), f')"
proof -
  have "case fst (api_start sample_boot home_fs) of Some _ \<Rightarrow> True | None \<Rightarrow> False" by code_simp
  then show ?thesis by (cases "api_start sample_boot home_fs") (auto split: option.splits)
qed

lemma home_tree: "tree_ok home_fs"
  by code_simp

lemma sample_boot_names: "list_all (\<lambda>r. CHR ''/'' \<notin> set r) (bw_temp_names sample_boot)"
  by (simp add: sample_boot_def)

theorem api_engine_is_embedded_witness:
  "\<exists>cfg addr dir f'. api_start sample_boot home_fs = (Some (cfg, addr, dir), f')
    \<and> NewEvaluator (\<lambda>_ _. Inr (\<lambda>_. Inl [])) (bundle_policy_source shipped shipped_bundle) = Inr (rc_engine cfg)"
proof -
  obtain cfg addr dir f' where st: "api_start sample_boot home_fs = (Some (cfg, addr, dir), f')" using sample_boot_starts by blast
  from api_engine_is_embedded [OF st _ home_tree home_fs_ok sample_boot_names] show ?thesis
    using st shipped_ok shipped_loads by (auto simp: sample_boot_def)
qed

theorem short_credentials_are_refused_witness:
  "\<exists>cfg addr dir f'. api_start sample_boot home_fs = (Some (cfg, addr, dir), f')
    \<and> NewRouter sample_api_world sample_draw True cfg sample_request \<lparr>as_db = \<lparr>tenants = [], api_keys = []\<rparr>, as_rl = (\<lambda>_. [])\<rparr> =
      (authFail, \<lparr>as_db = \<lparr>tenants = [], api_keys = []\<rparr>, as_rl = (\<lambda>_. [])\<rparr>)"
proof -
  obtain cfg addr dir f' where st: "api_start sample_boot home_fs = (Some (cfg, addr, dir), f')" using sample_boot_starts by blast
  with short_credentials_are_refused [OF st] show ?thesis
    by (auto simp: sample_boot_def boot_env_def sample_request_def)
qed


text \<open>
  A policy named without its data is not used: the result of \<^verbatim>\<open>ResolvePolicyData\<close> is then the same as with no name at all.
\<close>

theorem lone_policy_flag_ignored: "ResolvePolicyData e f policyFlag [] = ResolvePolicyData e f [] []"
  by (simp add: ResolvePolicyData_def)

end
