(* ===== verification/ApiRuns.thy ===== *)
theory ApiRuns
  imports ApiCorrect
begin

text \<open>
  The API server over its lifetime: any sequence of requests through the router, from empty key tables. The abstract server
  is the list of the keys handed out, which the tables implement.
\<close>

section \<open>Runs\<close>

type_synonym api_event = "draw \<times> bool \<times> request \<times> response"

inductive server_run :: "api_world \<Rightarrow> router_config \<Rightarrow> api_state \<Rightarrow> api_event list \<Rightarrow> api_state \<Rightarrow> bool"
  for w cfg st0 where
  start: "server_run w cfg st0 [] st0"
| serve: "\<lbrakk>server_run w cfg st0 evs st; utf8_valid (dw_tenant dw); NewRouter w dw reachable cfg r st = (rs, st')\<rbrakk> \<Longrightarrow>
    server_run w cfg st0 (evs @ [(dw, reachable, r, rs)]) st'"

text \<open>What a caller reads in the answer to a key request.\<close>

definition received_key :: "string \<Rightarrow> (string \<times> string) option" where
  "received_key text' = (case json_parse text' of
     Some (JObj ms) \<Rightarrow> (case (field d_str [] ''key'' ms, field d_str [] ''tenant_id'' ms) of
        (Some p, Some t) \<Rightarrow> Some (p, t) | _ \<Rightarrow> None)
   | _ \<Rightarrow> None)"

definition key_request :: "request \<Rightarrow> bool" where
  "key_request r \<longleftrightarrow> rq_method r = ''POST'' \<and> rq_path r = ''/v1/keys''"

fun handed_out :: "api_event \<Rightarrow> (string \<times> string) list" where
  "handed_out (dw, reachable, r, rs) =
    (if key_request r \<and> rs_status rs = 201 then (case received_key (rs_body rs) of None \<Rightarrow> [] | Some k \<Rightarrow> [k]) else [])"

definition keys_of :: "api_event list \<Rightarrow> (string \<times> string) list" where
  "keys_of evs = concat (map handed_out evs)"

lemma keys_of_simps [simp]: "keys_of [] = []" "keys_of (evs @ [ev]) = keys_of evs @ handed_out ev"
  by (simp_all add: keys_of_def)

section \<open>The answer to a key request\<close>

lemma base62_ascii: "x \<in> set (base62_loop n res) \<Longrightarrow> x \<in> set res \<or> x \<in> set base62_alphabet"
proof (induction n res rule: base62_loop.induct)
  case (1 n res)
  obtain q r where qr: "divide62 0 n = (q, r)" by force
  have r: "base62_alphabet ! r \<in> set base62_alphabet"
    using divide62_step(2) [OF qr] alphabet_props by simp
  show ?case
  proof (cases "allZero n")
    case True
    then show ?thesis using 1(2) by (simp add: base62_loop.simps [of n])
  next
    case False
    then have "x \<in> set (base62_loop q (res @ [base62_alphabet ! r]))"
      using 1(2) qr by (simp add: base62_loop.simps [of n])
    from 1(1) [OF False HOL.refl _ this] qr r show ?thesis by auto
  qed
qed

lemma key_ascii: "x \<in> set (''ev1_'' @ base62Encode b) \<Longrightarrow> byte x < 128"
proof -
  assume "x \<in> set (''ev1_'' @ base62Encode b)"
  then have "x \<in> set ''ev1_'' \<union> set base62_alphabet" using base62_ascii [of x b "[]"] by (auto simp: base62Encode_def)
  then show "byte x < 128" by (auto simp: base62_alphabet_def)
qed

lemma received_key_response:
  assumes "utf8_valid p" "utf8_valid (kc_prefix rec)" "utf8_valid (kc_tenant_id rec)"
  shows "received_key (rs_body (with_header n v (writeJSON st (key_response p rec)))) = Some (p, kc_tenant_id rec)"
proof -
  have k: "key_response p rec = JObj [(''created_at'', JStr (fmt_rfc3339 (kc_created_at rec))), (''key'', JStr p),
      (''prefix'', JStr (kc_prefix rec)), (''tenant_id'', JStr (kc_tenant_id rec))]"
    by (simp add: key_response_def sort_key_def insort_key_def)
  have "json_ok (key_response p rec)" using assms by (simp add: k rune_len_ascii)
  then have "json_parse (rs_body (with_header n v (writeJSON st (key_response p rec)))) = Some (key_response p rec)"
    by (simp add: with_header_def writeJSON_def json_parse_marshal_newline)
  then show ?thesis by (simp add: received_key_def k field_def member_simps)
qed

lemma CreateKey_answer:
  assumes "CreateKey sha refuses tenantID keyID raw now label db = (Inr (p, rec), db')" "utf8_valid tenantID"
  shows "utf8_valid p" "utf8_valid (kc_prefix rec)" "utf8_valid (kc_tenant_id rec)"
proof -
  obtain bs where bs: "p = ''ev1_'' @ base62Encode bs" "kc_prefix rec = take 12 p" "kc_tenant_id rec = tenantID"
    using assms(1) by (auto simp: CreateKey_def Let_def split: option.splits if_splits)
  have a: "byte x < 128" if "x \<in> set p" for x using that key_ascii bs(1) by blast
  show "utf8_valid p" "utf8_valid (kc_tenant_id rec)" using bs(3) assms(2) a by (simp_all add: utf8_valid_ascii)
  show "utf8_valid (kc_prefix rec)" unfolding bs(2) by (rule utf8_valid_ascii) (meson a in_set_takeD)
qed

section \<open>The tables implement the list of keys\<close>

definition implements :: "(string \<Rightarrow> string) \<Rightarrow> (string \<times> string) list \<Rightarrow> key_db \<Rightarrow> bool" where
  "implements sha ks db \<longleftrightarrow> keys_ok db \<and> (\<forall>row \<in> set (api_keys db). kr_revoked_at row = None)
    \<and> map (\<lambda>row. (kr_key_hash row, kr_tenant_id row)) (api_keys db) = map (\<lambda>(p, t). (sha p, t)) ks"

lemma implements_create:
  assumes "implements sha ks db" "CreateKey sha refuses tenantID keyID raw now label db = (Inr (p, rec), db')"
  shows "implements sha (ks @ [(p, kc_tenant_id rec)]) db'"
proof -
  have "keys_ok db" using assms(1) by (simp add: implements_def)
  from CreateKey_succeeded [OF this assms(2)] obtain row where "keys_ok db'" "api_keys db' = api_keys db @ [row]"
    "active (sha p) row" "kr_tenant_id row = kc_tenant_id rec" by metis
  then show ?thesis using assms(1) by (simp add: implements_def active_def)
qed

lemma implements_touch:
  assumes "implements sha ks db"
  shows "implements sha ks (TouchKey refuses now k db)"
proof -
  have "map (\<lambda>row. (kr_key_hash row, kr_tenant_id row)) (api_keys (TouchKey refuses now k db)) =
      map (\<lambda>row. (kr_key_hash row, kr_tenant_id row)) (api_keys db)"
    by (simp add: TouchKey_def)
  moreover have "\<forall>row \<in> set (api_keys (TouchKey refuses now k db)). kr_revoked_at row = None"
    using assms by (auto simp: TouchKey_def implements_def)
  ultimately show ?thesis using assms by (simp add: implements_def keys_ok_TouchKey)
qed

lemma implements_lookup:
  assumes "implements sha ks db"
  shows "(\<exists>k x. LookupKey sha (\<lambda>_. False) q db = Inr (t, k, x)) \<longleftrightarrow> (\<exists>p. (p, t) \<in> set ks \<and> sha p = sha q)"
    (is "?found \<longleftrightarrow> _")
proof -
  let ?rows = "api_keys db"
  have act: "active h row \<longleftrightarrow> kr_key_hash row = h" if "row \<in> set ?rows" for h row
    using assms that by (auto simp: implements_def active_def)
  have dist: "distinct (map kr_key_hash ?rows)" using assms by (simp add: implements_def keys_ok_def)
  have "?found \<longleftrightarrow> (\<exists>row. List.find (active (sha q)) ?rows = Some row \<and> kr_tenant_id row = t)"
    by (auto simp: LookupKey_def split: option.splits)
  also have "\<dots> \<longleftrightarrow> (\<exists>row \<in> set ?rows. kr_key_hash row = sha q \<and> kr_tenant_id row = t)"
  proof
    assume "\<exists>row. List.find (active (sha q)) ?rows = Some row \<and> kr_tenant_id row = t"
    then show "\<exists>row \<in> set ?rows. kr_key_hash row = sha q \<and> kr_tenant_id row = t"
      by (auto simp: find_Some_iff active_def)
  next
    assume "\<exists>row \<in> set ?rows. kr_key_hash row = sha q \<and> kr_tenant_id row = t"
    then obtain row where row: "row \<in> set ?rows" "kr_key_hash row = sha q" "kr_tenant_id row = t" by blast
    then obtain row' where r': "List.find (active (sha q)) ?rows = Some row'"
      using act by (metis find_None_iff not_None_eq)
    then have "row' \<in> set ?rows" "kr_key_hash row' = sha q" by (auto simp: find_Some_iff active_def)
    then have "row' = row" using row dist by (metis distinct_map inj_on_def)
    then show "\<exists>row. List.find (active (sha q)) ?rows = Some row \<and> kr_tenant_id row = t" using r' row(3) by blast
  qed
  also have "\<dots> \<longleftrightarrow> (sha q, t) \<in> set (map (\<lambda>row. (kr_key_hash row, kr_tenant_id row)) ?rows)" by force
  also have "\<dots> \<longleftrightarrow> (\<exists>p. (p, t) \<in> set ks \<and> sha p = sha q)"
    using assms by (force simp: implements_def)
  finally show ?thesis .
qed

section \<open>Every request keeps it\<close>

lemma handleKeys_implements:
  assumes "implements (aw_sha w) ks (as_db st)" "utf8_valid (dw_tenant dw)" "handleKeys w dw True secret r st = (rs, st')"
  shows "implements (aw_sha w) (ks @ (case rs of
      Some a \<Rightarrow> if rs_status a = 201 then (case received_key (rs_body a) of None \<Rightarrow> [] | Some k \<Rightarrow> [k]) else []
    | None \<Rightarrow> [])) (as_db st')"
proof -
  let ?c = "CreateKey (aw_sha w) (dw_refuses dw) (dw_tenant dw) (dw_key dw) (dw_random dw) (dw_now dw) (request_label r) (as_db st)"
  obtain res db' where c: "?c = (res, db')" by force
  show ?thesis
  proof (cases res)
    case (Inl err)
    then have "db' = as_db st" using c CreateKey_failed by simp
    then show ?thesis
      using assms(1,3) c Inl
      by (auto simp: handleKeys_def Let_def writeError_def writeJSON_def with_header_def split: if_splits prod.splits key_err.splits)
  next
    case (Inr pr)
    obtain p rec where pr: "pr = (p, rec)" by force
    note a = CreateKey_answer [OF c [unfolded Inr pr] assms(2)]
    note i = implements_create [OF assms(1) c [unfolded Inr pr]]
    show ?thesis
      using assms(1,3) c Inr pr i received_key_response [OF a]
      by (auto simp: handleKeys_def Let_def split: if_splits prod.splits)
        (auto simp: writeError_def writeJSON_def with_header_def)
  qed
qed

text \<open>A handler that issues no key leaves the list as it is.\<close>

definition keeps_keys :: "(string \<Rightarrow> string) \<Rightarrow> handler \<Rightarrow> bool" where
  "keeps_keys sha h \<longleftrightarrow> (\<forall>ks r st. implements sha ks (as_db st) \<longrightarrow> implements sha ks (as_db (snd (h r st))))"

lemma keeps_lift [simp]: "keeps_keys sha (lift_h h)"
  by (simp add: keeps_keys_def lift_h_def)

lemma keeps_auth [simp]: "(\<And>t. keeps_keys sha (h t)) \<Longrightarrow> keeps_keys sha (auth_mw w dw cfg h)"
  by (auto simp: keeps_keys_def auth_mw_def StaticKeyMiddleware_def KeyStoreMiddleware_def Let_def implements_touch
      split: sum.splits prod.splits)

lemma routes_keep:
  assumes "(ms, p, h) \<in> set (routes w dw reachable cfg)" "p \<noteq> ''/v1/keys''"
  shows "keeps_keys sha h"
  using assms by (auto simp: routes_def split: if_splits)

lemma mux_keeps:
  assumes "\<not> key_request r" "implements sha ks (as_db st)"
  shows "implements sha ks (as_db (snd (mux w dw reachable cfg r st)))"
proof (cases "List.find (\<lambda>(ms, p, h). rq_method r \<in> set ms \<and> rq_path r = p) (routes w dw reachable cfg)")
  case None
  then show ?thesis using assms(2) by (simp add: mux_def split: option.splits)
next
  case (Some x)
  obtain ms p h where x: "x = (ms, p, h)" by (cases x)
  then have m: "(ms, p, h) \<in> set (routes w dw reachable cfg)" "rq_method r \<in> set ms" "rq_path r = p"
    using Some by (auto simp: find_Some_iff in_set_conv_nth)
  have "p \<noteq> ''/v1/keys''" using m assms(1) by (auto simp: routes_def key_request_def split: if_splits)
  then have "keeps_keys sha h" by (rule routes_keep [OF m(1)])
  then show ?thesis using assms(2) Some x by (simp add: mux_def keeps_keys_def)
qed

lemma router_implements:
  assumes "implements (aw_sha w) ks (as_db st)" "utf8_valid (dw_tenant dw)" "rc_has_store cfg"
    "NewRouter w dw reachable cfg r st = (rs, st')"
  shows "implements (aw_sha w) (ks @ handed_out (dw, reachable, r, rs)) (as_db st')"
proof -
  let ?r = "r\<lparr>rq_body := take maxBodyBytes (rq_body r)\<rparr>"
  obtain a where m: "mux w dw reachable cfg ?r st = (a, st')" and rs: "rs = (case a of None \<Rightarrow> writeError 500 ''internal error'' | Some x \<Rightarrow> x)"
    using assms(4) by (auto simp: NewRouter_def recoveryMiddleware_def bodyLimitMiddleware_def split: prod.splits option.splits)
  show ?thesis
  proof (cases "key_request r")
    case False
    then have "\<not> key_request ?r" by (simp add: key_request_def)
    from mux_keeps [OF this assms(1), of w dw reachable cfg] m False show ?thesis by simp
  next
    case True
    then have "handleKeys w dw True (rc_invite_secret cfg) ?r st = (a, st')"
      using m assms(3) by (simp add: mux_def routes_def key_request_def)
    from handleKeys_implements [OF assms(1,2) this] True rs show ?thesis
      by (cases a) (simp_all add: writeError_def writeJSON_def)
  qed
qed

definition new_server :: api_state where
  "new_server = \<lparr>as_db = \<lparr>tenants = [], api_keys = []\<rparr>, as_rl = (\<lambda>_. [])\<rparr>"

lemma run_implements:
  assumes "server_run w cfg new_server evs st" "rc_has_store cfg"
  shows "implements (aw_sha w) (keys_of evs) (as_db st)"
  using assms(1)
proof (induction rule: server_run.induct)
  case start
  then show ?case by (simp add: implements_def keys_ok_empty new_server_def)
next
  case (serve evs st dw reachable r rs st')
  from router_implements [OF serve.IH serve.hyps(2) assms(2) serve.hyps(3)] show ?case by simp
qed

section \<open>Who is let in\<close>

definition auth_request :: "string \<Rightarrow> request" where
  "auth_request q = \<lparr>rq_method = ''GET'', rq_path = ''/auth/check'', rq_header = (\<lambda>h. if h = ''Authorization'' then ''Bearer '' @ q else []),
     rq_remote_addr = [], rq_body = []\<rparr>"

lemma auth_answer:
  assumes "rc_has_store cfg" "\<not> dw_refuses dw DbQuery" "q \<noteq> []"
  shows "fst (NewRouter w dw reachable cfg (auth_request q) st) = (case LookupKey (aw_sha w) (\<lambda>_. False) q (as_db st) of
    Inl _ \<Rightarrow> authFail | Inr (t, _) \<Rightarrow> auth_check t)"
proof -
  have l: "LookupKey (aw_sha w) (dw_refuses dw) q (as_db st) = LookupKey (aw_sha w) (\<lambda>_. False) q (as_db st)"
    using assms(2) by (simp add: LookupKey_def)
  have "extractBearerToken (auth_request q\<lparr>rq_body := b\<rparr>) = q" for b
    by (simp add: extractBearerToken_def auth_request_def)
  moreover have "rq_method (auth_request q) = ''GET''" "rq_path (auth_request q) = ''/auth/check''" by (simp_all add: auth_request_def)
  ultimately show ?thesis
    using assms(1,3) l
    by (simp add: NewRouter_def recoveryMiddleware_def bodyLimitMiddleware_def mux_def routes_def auth_mw_def
        KeyStoreMiddleware_def lift_h_def Let_def split: sum.split prod.split)
qed

text \<open>C4
  Whoever is let in was given a key, and whoever was given a key is let in. Over any sequence of requests to a server that
  starts with empty key tables, whatever they are and whichever statements the database refused on the way: when the database
  answers the lookup, the authentication check accepts a token for tenant \<open>t\<close> exactly when an earlier answer to a key request
  handed out, for that tenant, a key with the token's digest, and refuses every other token with 401.
\<close>
theorem server_accepts_exactly_the_keys_it_issued:
  assumes "server_run w cfg new_server evs st" "rc_has_store cfg" "\<not> dw_refuses dw DbQuery" "q \<noteq> []"
  shows "(fst (NewRouter w dw reachable cfg (auth_request q) st) = auth_check t \<longleftrightarrow>
      (\<exists>p. (p, t) \<in> set (keys_of evs) \<and> aw_sha w p = aw_sha w q))
    \<and> (fst (NewRouter w dw reachable cfg (auth_request q) st) = authFail \<longleftrightarrow>
      (\<forall>(p, u) \<in> set (keys_of evs). aw_sha w p \<noteq> aw_sha w q))"
proof
  note i = implements_lookup [OF run_implements [OF assms(1,2)]]
  let ?l = "LookupKey (aw_sha w) (\<lambda>_. False) q (as_db st)"
  have neq: "auth_check t \<noteq> authFail" "authFail \<noteq> auth_check t" "auth_check t = auth_check u \<longleftrightarrow> t = u" for t u
    by (simp_all add: auth_check_def authFail_def)
  have "fst (NewRouter w dw reachable cfg (auth_request q) st) = auth_check t \<longleftrightarrow> (\<exists>k x. ?l = Inr (t, k, x))" for t
    unfolding auth_answer [OF assms(2-4)] using neq by (auto split: sum.splits)
  then show "fst (NewRouter w dw reachable cfg (auth_request q) st) = auth_check t \<longleftrightarrow>
      (\<exists>p. (p, t) \<in> set (keys_of evs) \<and> aw_sha w p = aw_sha w q)" using i by simp
  have "fst (NewRouter w dw reachable cfg (auth_request q) st) = authFail \<longleftrightarrow> (\<forall>t k x. ?l \<noteq> Inr (t, k, x))"
    unfolding auth_answer [OF assms(2-4)] using neq by (auto split: sum.splits)
  then show "fst (NewRouter w dw reachable cfg (auth_request q) st) = authFail \<longleftrightarrow>
      (\<forall>(p, u) \<in> set (keys_of evs). aw_sha w p \<noteq> aw_sha w q)" using i by blast
qed

definition sample_store_router :: router_config where
  "sample_store_router = sample_router\<lparr>rc_has_store := True, rc_has_db := True\<rparr>"

definition sample_key_request :: request where
  "sample_key_request = \<lparr>rq_method = ''POST'', rq_path = ''/v1/keys'', rq_header = (\<lambda>_. []), rq_remote_addr = ''10.0.0.1:80'', rq_body = []\<rparr>"

lemma bytes_value_ones: "Suc (bytes_value (replicate n 255)) = 256 ^ n"
proof (induction n)
  case (Suc n)
  have "unat (255 :: 8 word) = 255" by simp
  with Suc show ?case by (simp only: replicate.simps bytes_value_simps length_replicate power_Suc)
qed simp

lemma sample_key_long: "7 < length (base62Encode (replicate 32 255))"
proof -
  have "62 ^ 7 \<le> bytes_value (replicate 32 255)" using bytes_value_ones [of 32] by simp
  then show ?thesis using base62Encode_length [of "replicate 32 255" 7] by linarith
qed

lemma sample_key_run:
  obtains evs st where "server_run (sample_api_world\<lparr>aw_sha := (\<lambda>s. s)\<rparr>) sample_store_router new_server evs st"
    "keys_of evs = [(''ev1_'' @ base62Encode (replicate 32 255), ''t1'')]"
proof -
  let ?w = "sample_api_world\<lparr>aw_sha := (\<lambda>s. s)\<rparr>" and ?p = "''ev1_'' @ base62Encode (replicate 32 255)"
  let ?c = "CreateKey (\<lambda>s. s) (\<lambda>_. False) ''t1'' ''k1'' (Some (replicate 32 255)) (dw_now sample_draw) [] \<lparr>tenants = [], api_keys = []\<rparr>"
  obtain rec db where c: "?c = (Inr (?p, rec), db)" "kc_tenant_id rec = ''t1''"
    using sample_key_long by (simp add: CreateKey_def Let_def insert_tenant_def insert_key_def)
  obtain rs st where n: "NewRouter ?w sample_draw True sample_store_router sample_key_request new_server = (rs, st)" by force
  have "request_label (sample_key_request\<lparr>rq_body := b\<rparr>) = []" for b
    by (simp add: request_label_def sample_key_request_def contains_str_def)
  then have "rs = with_header ''Cache-Control'' ''no-store'' (writeJSON 201 (key_response ?p rec))"
    using n c by (simp add: NewRouter_def recoveryMiddleware_def bodyLimitMiddleware_def mux_def routes_def sample_key_request_def
        sample_store_router_def sample_router_def handleKeys_def rl_allow_def rateLimit_def new_server_def sample_draw_def)
  moreover have "server_run ?w sample_store_router new_server ([] @ [(sample_draw, True, sample_key_request, rs)]) st"
    by (rule server_run.serve [OF server_run.start _ n]) (simp add: sample_draw_def rune_len_ascii)
  ultimately show ?thesis
    using that received_key_response [OF CreateKey_answer [OF c(1)]] c(2)
    by (simp add: keys_of_def key_request_def sample_key_request_def with_header_def writeJSON_def rune_len_ascii)
qed

theorem server_accepts_exactly_the_keys_it_issued_witness:
  "\<exists>evs st p. server_run (sample_api_world\<lparr>aw_sha := (\<lambda>s. s)\<rparr>) sample_store_router new_server evs st
    \<and> keys_of evs = [(p, ''t1'')]
    \<and> fst (NewRouter (sample_api_world\<lparr>aw_sha := (\<lambda>s. s)\<rparr>) sample_draw True sample_store_router (auth_request p) st) = auth_check ''t1''
    \<and> fst (NewRouter (sample_api_world\<lparr>aw_sha := (\<lambda>s. s)\<rparr>) sample_draw True sample_store_router (auth_request ''ev1_guess'') st) = authFail"
proof -
  let ?w = "sample_api_world\<lparr>aw_sha := (\<lambda>s. s)\<rparr>" and ?p = "''ev1_'' @ base62Encode (replicate 32 255)"
  obtain evs st where r: "server_run ?w sample_store_router new_server evs st" "keys_of evs = [(?p, ''t1'')]"
    by (rule sample_key_run)
  have cfg: "rc_has_store sample_store_router" "\<not> dw_refuses sample_draw DbQuery"
    by (simp_all add: sample_store_router_def sample_draw_def)
  have "length ?p \<noteq> length ''ev1_guess''" using sample_key_long by simp
  then have "?p \<noteq> ''ev1_guess''" by metis
  then show ?thesis
    using server_accepts_exactly_the_keys_it_issued [OF r(1) cfg, of ?p True "''t1''"]
      server_accepts_exactly_the_keys_it_issued [OF r(1) cfg, of "''ev1_guess''" True "''t1''"] r
    by (intro exI [of _ evs] exI [of _ st] exI [of _ ?p]) simp
qed

end
