(* ===== verification/HttpServer.thy ===== *)
theory HttpServer
  imports StartupCorrect ApiRuns
begin

text \<open>
  What lies between the handlers and the wire: the tenant in the request's context, the delay before a refused
  authentication, the response writer with the log's status writer around it, the recovery from a panic, and the
  database connection. The handlers of \<^verbatim>\<open>internal/api\<close> return a response as a value; here the calls they make on the writer
  are made, and the client gets that value.
\<close>

section \<open>The request's context\<close>

text \<open>
  A context is a list of values under keys, the innermost first. \<^verbatim>\<open>contextKey{}\<close> is a type of its own package, so no other
  package has a value under it.
\<close>

datatype ctx_key = AuthContextKey | OtherKey string

type_synonym ctx = "(ctx_key \<times> string) list"

definition WithTenantID :: "ctx \<Rightarrow> string \<Rightarrow> ctx" where
  "WithTenantID c tenantID = (AuthContextKey, tenantID) # c"

definition TenantID :: "ctx \<Rightarrow> string" where
  "TenantID c = (case map_of c AuthContextKey of None \<Rightarrow> [] | Some v \<Rightarrow> v)"

lemma TenantID_simps [simp]:
  "TenantID [] = []" "TenantID (WithTenantID c t) = t" "TenantID ((OtherKey k, v) # c) = TenantID c"
  by (simp_all add: TenantID_def WithTenantID_def)

section \<open>The delay before a 401\<close>

definition jitterMinMS :: int where "jitterMinMS = 50"
definition jitterMaxMS :: int where "jitterMaxMS = 100"

text \<open>\<open>n\<close> is what \<^verbatim>\<open>rand.Int\<close> draws, \<^const>\<open>None\<close> when the random source fails; the result is in milliseconds.\<close>

definition jitterSleep :: "int option \<Rightarrow> int" where
  "jitterSleep n = (case n of None \<Rightarrow> jitterMinMS | Some k \<Rightarrow> jitterMinMS + k)"

text \<open>\<^verbatim>\<open>rand.Int(_, max)\<close> draws a number from 0 up to and without \<open>max\<close>.\<close>

definition rand_int_ok :: "int option \<Rightarrow> bool" where
  "rand_int_ok n \<longleftrightarrow> (case n of None \<Rightarrow> True | Some k \<Rightarrow> 0 \<le> k \<and> k < jitterMaxMS - jitterMinMS + 1)"

lemma jitterSleep_range: "rand_int_ok n \<Longrightarrow> jitterMinMS \<le> jitterSleep n \<and> jitterSleep n \<le> jitterMaxMS"
  by (auto simp: rand_int_ok_def jitterSleep_def jitterMinMS_def jitterMaxMS_def split: option.splits)

section \<open>The response writer\<close>

text \<open>
  \<^verbatim>\<open>http.ResponseWriter\<close> as the standard library documents it: headers may be set until the status is written, the first final
  status counts (a status from 100 to 199 other than 101 only sends an interim response), writing a body without one sends 200.
\<close>

type_synonym headers = "(string \<times> string) list"

record writer =
  rw_headers :: headers
  rw_sent :: "(nat \<times> headers) option"
  rw_body :: string

datatype wcall = SetHeader string string | WriteHeader nat | WriteBody string

definition set_header :: "string \<Rightarrow> string \<Rightarrow> headers \<Rightarrow> headers" where
  "set_header n v hs = (n, v) # filter (\<lambda>h. fst h \<noteq> n) hs"

definition rw_write_header :: "nat \<Rightarrow> writer \<Rightarrow> writer" where
  "rw_write_header code w =
    (if rw_sent w \<noteq> None \<or> (100 \<le> code \<and> code \<le> 199 \<and> code \<noteq> 101) then w
     else w\<lparr>rw_sent := Some (code, rw_headers w)\<rparr>)"

fun rw_call :: "wcall \<Rightarrow> writer \<Rightarrow> writer" where
  "rw_call (SetHeader n v) w = w\<lparr>rw_headers := set_header n v (rw_headers w)\<rparr>"
| "rw_call (WriteHeader code) w = rw_write_header code w"
| "rw_call (WriteBody b) w = (let w1 = rw_write_header 200 w in w1\<lparr>rw_body := rw_body w1 @ b\<rparr>)"

definition new_writer :: writer where
  "new_writer = \<lparr>rw_headers = [], rw_sent = None, rw_body = []\<rparr>"

text \<open>What the client has when the handler has returned.\<close>

definition delivered :: "writer \<Rightarrow> response" where
  "delivered w = (case rw_sent w of
     None \<Rightarrow> \<lparr>rs_status = 200, rs_headers = rw_headers w, rs_body = rw_body w\<rparr>
   | Some (code, hs) \<Rightarrow> \<lparr>rs_status = code, rs_headers = hs, rs_body = rw_body w\<rparr>)"

section \<open>The status writer\<close>

record status_writer =
  sw_inner :: writer
  sw_status :: nat
  sw_wroteHeader :: bool

definition sw_WriteHeader :: "nat \<Rightarrow> status_writer \<Rightarrow> status_writer" where
  "sw_WriteHeader code w =
    (let w1 = (if \<not> sw_wroteHeader w then w\<lparr>sw_status := code, sw_wroteHeader := True\<rparr> else w)
     in w1\<lparr>sw_inner := rw_call (WriteHeader code) (sw_inner w1)\<rparr>)"

definition sw_Write :: "string \<Rightarrow> status_writer \<Rightarrow> status_writer" where
  "sw_Write b w =
    (let w1 = (if \<not> sw_wroteHeader w then w\<lparr>sw_wroteHeader := True\<rparr> else w)
     in w1\<lparr>sw_inner := rw_call (WriteBody b) (sw_inner w1)\<rparr>)"

text \<open>The embedded writer answers the calls that are not redefined.\<close>

fun sw_call :: "wcall \<Rightarrow> status_writer \<Rightarrow> status_writer" where
  "sw_call (SetHeader n v) w = w\<lparr>sw_inner := rw_call (SetHeader n v) (sw_inner w)\<rparr>"
| "sw_call (WriteHeader code) w = sw_WriteHeader code w"
| "sw_call (WriteBody b) w = sw_Write b w"

definition new_status_writer :: "writer \<Rightarrow> status_writer" where
  "new_status_writer w = \<lparr>sw_inner = w, sw_status = 200, sw_wroteHeader = False\<rparr>"

record log_entry =
  le_method :: string
  le_path :: string
  le_status :: nat
  le_duration_ms :: int

text \<open>
  A handler as the calls it makes, whether it panics after them, and the path it leaves in the request, which the file server
  of the user interface rewrites. \<open>elapsed\<close> is the time since the start, in nanoseconds.
\<close>

record served =
  sv_calls :: "wcall list"
  sv_panics :: bool
  sv_path :: string

definition requestLogMiddleware :: "int \<Rightarrow> request \<Rightarrow> served \<Rightarrow> writer \<Rightarrow> log_entry option \<times> writer" where
  "requestLogMiddleware elapsed r sv w =
    (let sw = fold sw_call (sv_calls sv) (new_status_writer w) in
     (if sv_panics sv then None
      else Some \<lparr>le_method = rq_method r, le_path = sv_path sv, le_status = sw_status sw, le_duration_ms = elapsed div 1000000\<rparr>,
      sw_inner sw))"

definition writeJSON_calls :: "nat \<Rightarrow> json \<Rightarrow> wcall list" where
  "writeJSON_calls st v = [SetHeader ''Content-Type'' ''application/json'', WriteHeader st, WriteBody (marshal v @ [CHR 0x0A])]"

definition writeError_calls :: "nat \<Rightarrow> string \<Rightarrow> wcall list" where
  "writeError_calls st msg = writeJSON_calls st (JObj [(''error'', JStr msg)])"

definition recovery :: "bool \<Rightarrow> writer \<Rightarrow> writer" where
  "recovery panicked w = (if panicked then fold rw_call (writeError_calls 500 ''internal error'') w else w)"

section \<open>The log tells what was sent\<close>

definition final_codes :: "wcall list \<Rightarrow> bool" where
  "final_codes cs \<longleftrightarrow> (\<forall>c \<in> set cs. case c of WriteHeader code \<Rightarrow> \<not> (100 \<le> code \<and> code \<le> 199 \<and> code \<noteq> 101) | _ \<Rightarrow> True)"

lemma sw_inner_fold: "sw_inner (fold sw_call cs w) = fold rw_call cs (sw_inner w)"
proof (induction cs arbitrary: w)
  case (Cons c cs)
  have "sw_inner (sw_call c w) = rw_call c (sw_inner w)"
    by (cases c) (simp_all add: sw_WriteHeader_def sw_Write_def Let_def)
  with Cons show ?case by simp
qed simp

text \<open>The writer's view of the status: nothing is sent until the flag is set, and then it is the status kept.\<close>

definition in_step :: "status_writer \<Rightarrow> bool" where
  "in_step w \<longleftrightarrow> (if sw_wroteHeader w then map_option fst (rw_sent (sw_inner w)) = Some (sw_status w)
     else rw_sent (sw_inner w) = None \<and> sw_status w = 200)"

lemma in_step_call: "in_step w \<Longrightarrow> final_codes [c] \<Longrightarrow> in_step (sw_call c w)"
  by (cases c) (auto simp: in_step_def final_codes_def sw_WriteHeader_def sw_Write_def rw_write_header_def Let_def split: if_splits)

lemma in_step_fold: "in_step w \<Longrightarrow> final_codes cs \<Longrightarrow> in_step (fold sw_call cs w)"
proof (induction cs arbitrary: w)
  case (Cons c cs)
  then have "in_step (sw_call c w)" "final_codes cs" by (auto intro!: in_step_call simp: final_codes_def)
  with Cons.IH show ?case by simp
qed simp

lemma delivered_status: "in_step w \<Longrightarrow> rs_status (delivered (sw_inner w)) = sw_status w"
  by (auto simp: in_step_def delivered_def split: option.splits if_splits prod.splits)

section \<open>From a response value to the wire\<close>

text \<open>Every handler sets its headers, writes the status and then the body, if there is one.\<close>

definition calls_of :: "response \<Rightarrow> wcall list" where
  "calls_of rs = map (\<lambda>(n, v). SetHeader n v) (rs_headers rs) @ WriteHeader (rs_status rs)
     # (if rs_body rs = [] then [] else [WriteBody (rs_body rs)])"

definition good_response :: "response \<Rightarrow> bool" where
  "good_response rs \<longleftrightarrow> distinct (map fst (rs_headers rs)) \<and> \<not> (100 \<le> rs_status rs \<and> rs_status rs \<le> 199 \<and> rs_status rs \<noteq> 101)"

definition same_response :: "response \<Rightarrow> response \<Rightarrow> bool" where
  "same_response a b \<longleftrightarrow> rs_status a = rs_status b \<and> rs_body a = rs_body b \<and> map_of (rs_headers a) = map_of (rs_headers b)"

lemma set_header_fresh: "n \<notin> fst ` set hs \<Longrightarrow> set_header n v hs = (n, v) # hs"
  by (auto simp: set_header_def intro!: filter_True)

lemma set_headers:
  assumes "distinct (map fst (hs @ rw_headers w))"
  shows "fold rw_call (map (\<lambda>(n, v). SetHeader n v) hs) w = w\<lparr>rw_headers := rev hs @ rw_headers w\<rparr>"
  using assms
proof (induction hs arbitrary: w)
  case (Cons h hs)
  obtain n v where h: "h = (n, v)" by force
  have "n \<notin> fst ` set (rw_headers w)" "distinct (map fst (hs @ (n, v) # rw_headers w))" using Cons.prems h by auto
  with Cons.IH [of "w\<lparr>rw_headers := (n, v) # rw_headers w\<rparr>"] h show ?case by (simp add: set_header_fresh)
qed simp

lemma map_of_rev: "distinct (map fst hs) \<Longrightarrow> map_of (rev hs) = map_of hs"
  by (rule map_of_eqI) (auto simp: rev_map [symmetric] map_of_eq_Some_iff)

lemma final_codes_calls: "good_response rs \<Longrightarrow> final_codes (calls_of rs)"
  by (auto simp: final_codes_def calls_of_def good_response_def)

lemma delivered_calls:
  assumes "good_response rs"
  shows "same_response (delivered (fold rw_call (calls_of rs) new_writer)) rs"
proof -
  have d: "distinct (map fst (rs_headers rs @ rw_headers new_writer))" using assms by (simp add: good_response_def new_writer_def)
  let ?w = "new_writer\<lparr>rw_headers := rev (rs_headers rs) @ rw_headers new_writer\<rparr>"
  let ?s = "?w\<lparr>rw_sent := Some (rs_status rs, rev (rs_headers rs))\<rparr>"
  have s: "rw_write_header (rs_status rs) ?w = ?s"
    using assms unfolding rw_write_header_def good_response_def by (auto simp: new_writer_def)
  have f: "fold rw_call (calls_of rs) new_writer = ?s\<lparr>rw_body := rs_body rs\<rparr>"
    unfolding calls_of_def fold_append o_apply set_headers [OF d] by (simp add: s) (simp add: rw_write_header_def new_writer_def Let_def)
  show ?thesis
    using assms unfolding f by (simp add: same_response_def delivered_def map_of_rev good_response_def)
qed

lemma delivered_recovery: "same_response (delivered (recovery True new_writer)) (writeError 500 ''internal error'')"
  by (simp add: recovery_def writeError_calls_def writeJSON_calls_def new_writer_def rw_write_header_def set_header_def
      same_response_def delivered_def writeError_def writeJSON_def Let_def)

section \<open>Every handler's response\<close>

definition good_handler :: "handler \<Rightarrow> bool" where
  "good_handler h \<longleftrightarrow> (\<forall>r st rs. fst (h r st) = Some rs \<longrightarrow> good_response rs)"

lemma good_write [simp]:
  "good_response (writeJSON st v) \<longleftrightarrow> \<not> (100 \<le> st \<and> st \<le> 199 \<and> st \<noteq> 101)"
  "good_response (writeError st msg) \<longleftrightarrow> \<not> (100 \<le> st \<and> st \<le> 199 \<and> st \<noteq> 101)"
  "good_response authFail" "good_response (auth_check t)"
  by (simp_all add: good_response_def writeJSON_def writeError_def authFail_def auth_check_def)

lemma good_with_header [simp]:
  "n \<noteq> ''Content-Type'' \<Longrightarrow> good_response (with_header n v (writeJSON st j)) \<longleftrightarrow> good_response (writeJSON st j)"
  "n \<noteq> ''Content-Type'' \<Longrightarrow> good_response (with_header n v (writeError st msg)) \<longleftrightarrow> good_response (writeError st msg)"
  by (simp_all add: good_response_def with_header_def writeJSON_def writeError_def)

lemma good_lift [simp]: "(\<And>r. good_response (h r)) \<Longrightarrow> good_handler (lift_h h)"
  by (simp add: good_handler_def lift_h_def)

lemma good_auth [simp]: "(\<And>t. good_handler (h t)) \<Longrightarrow> good_handler (auth_mw w dw cfg h)"
  by (auto simp: good_handler_def auth_mw_def StaticKeyMiddleware_def KeyStoreMiddleware_def Let_def
      split: if_splits sum.splits prod.splits)

lemma good_keys: "good_handler (handleKeys w dw hasStore secret)"
  unfolding good_handler_def handleKeys_def
  by (auto simp: Let_def split: if_splits prod.splits sum.splits key_err.splits)

lemma good_validate [simp]: "good_response (handleValidate w dw eng s cfg t r)"
  by (auto simp: handleValidate_def Let_def split: option.splits sum.splits)

lemma good_others [simp]: "good_response handleHealthz" "good_response (handleReadyz b)" "good_response (handlePubkey pem)"
  by (auto simp: handleHealthz_def handleReadyz_def handlePubkey_def good_response_def [of "\<lparr>rs_status = _, rs_headers = _, rs_body = _\<rparr>"]
      split: option.splits)

lemma good_routes: "(ms, p, h) \<in> set (routes w dw reachable cfg) \<Longrightarrow> good_handler h"
  using good_keys by (auto simp: routes_def split: if_splits)

definition good_ui :: "router_config \<Rightarrow> bool" where
  "good_ui cfg \<longleftrightarrow> (case rc_ui cfg of None \<Rightarrow> True | Some ui \<Rightarrow> (\<forall>r. good_response (ui r)))"

lemma good_mux:
  assumes "good_ui cfg"
  shows "good_handler (mux w dw reachable cfg)"
proof -
  have "good_response rs" if m: "fst (mux w dw reachable cfg r st) = Some rs" for r st rs
  proof (cases "List.find (\<lambda>(ms, p, h). rq_method r \<in> set ms \<and> rq_path r = p) (routes w dw reachable cfg)")
    case None
    have no_route: "good_response \<lparr>rs_status = (if b then 405 else 404), rs_headers = [], rs_body = []\<rparr>" for b
      by (simp add: good_response_def)
    show ?thesis
    proof (cases "rc_ui cfg")
      case ui: None
      then have "\<exists>b. rs = \<lparr>rs_status = (if b then 405 else 404), rs_headers = [], rs_body = []\<rparr>"
        using m None unfolding mux_def by force
      then show ?thesis using no_route by blast
    qed (use m None assms in \<open>auto simp: mux_def good_ui_def\<close>)
  next
    case (Some x)
    obtain ms p h where x: "x = (ms, p, h)" by (cases x)
    then have "(ms, p, h) \<in> set (routes w dw reachable cfg)" using Some by (auto simp: find_Some_iff in_set_conv_nth)
    from good_routes [OF this] Some x m show ?thesis by (auto simp: mux_def good_handler_def)
  qed
  then show ?thesis by (simp add: good_handler_def)
qed

section \<open>The whole stack\<close>

text \<open>
  \<^verbatim>\<open>uiHandler\<close> serves a path it cannot open as the start page and leaves that path in the request. \<open>ui_opens\<close> says which paths the
  user interface has; without a user interface no handler changes the path.
\<close>

definition served_path :: "api_world \<Rightarrow> draw \<Rightarrow> bool \<Rightarrow> router_config \<Rightarrow> (string \<Rightarrow> bool) \<Rightarrow> request \<Rightarrow> string" where
  "served_path w dw reachable cfg ui_opens r =
    (if rc_ui cfg \<noteq> None \<and> List.find (\<lambda>(ms, p, h). rq_method r \<in> set ms \<and> rq_path r = p) (routes w dw reachable cfg) = None
     then (let path = trim_prefix ''/'' (rq_path r); path = (if path = [] then ''index.html'' else path) in
           if \<not> ui_opens path then ''/'' else rq_path r)
     else rq_path r)"

definition api_serve ::
  "api_world \<Rightarrow> draw \<Rightarrow> bool \<Rightarrow> router_config \<Rightarrow> (string \<Rightarrow> bool) \<Rightarrow> int \<Rightarrow> request \<Rightarrow> api_state
    \<Rightarrow> response \<times> log_entry option \<times> api_state" where
  "api_serve w dw reachable cfg ui_opens elapsed r st =
    (case bodyLimitMiddleware (mux w dw reachable cfg) r st of (a, st') \<Rightarrow>
      (case requestLogMiddleware elapsed r
          \<lparr>sv_calls = (case a of None \<Rightarrow> [] | Some rs \<Rightarrow> calls_of rs), sv_panics = (a = None),
           sv_path = served_path w dw reachable cfg ui_opens r\<rparr> new_writer of
        (entry, wr) \<Rightarrow> (delivered (recovery (a = None) wr), entry, st')))"

text \<open>C17
  What the router computes is what the client gets, and the log tells it truly. A request through recovery, logging and
  body limit down to the handler's calls on the response writer, for a user interface that sends final statuses and each
  header once: the server's state and the response (status, body, headers by name) are those of the router's function; a
  request whose handler panicked before it wrote is answered with 500 and not logged; every other one is logged once, with its
  method and the status the client got.
\<close>
theorem served_as_computed_and_logged:
  assumes "good_ui cfg" "api_serve w dw reachable cfg ui_opens elapsed r st = (d, entry, st')"
  shows "st' = snd (NewRouter w dw reachable cfg r st) \<and> same_response d (fst (NewRouter w dw reachable cfg r st))
    \<and> (case entry of
         None \<Rightarrow> rs_status d = 500 \<and> fst (bodyLimitMiddleware (mux w dw reachable cfg) r st) = None
       | Some e \<Rightarrow> le_status e = rs_status d \<and> le_method e = rq_method r \<and> le_path e = served_path w dw reachable cfg ui_opens r)"
proof -
  obtain a st1 where m: "bodyLimitMiddleware (mux w dw reachable cfg) r st = (a, st1)" by force
  show ?thesis
  proof (cases a)
    case None
    then show ?thesis
      using assms(2) m delivered_recovery
      by (auto simp: api_serve_def requestLogMiddleware_def NewRouter_def recoveryMiddleware_def new_status_writer_def
          same_response_def writeError_def writeJSON_def)
  next
    case (Some rs)
    have "fst (mux w dw reachable cfg (r\<lparr>rq_body := take maxBodyBytes (rq_body r)\<rparr>) st) = Some rs"
      using m Some by (simp add: bodyLimitMiddleware_def)
    then have g: "good_response rs" using good_mux [OF assms(1), of w dw reachable] unfolding good_handler_def by blast
    let ?sw = "fold sw_call (calls_of rs) (new_status_writer new_writer)"
    have i: "in_step (new_status_writer new_writer)" by (simp add: in_step_def new_status_writer_def new_writer_def)
    have sw: "sw_inner ?sw = fold rw_call (calls_of rs) new_writer" by (simp add: sw_inner_fold new_status_writer_def)
    note st = delivered_status [OF in_step_fold [OF i final_codes_calls [OF g]]]
    have "d = delivered (sw_inner ?sw)" "st' = st1" "entry = Some \<lparr>le_method = rq_method r,
        le_path = served_path w dw reachable cfg ui_opens r, le_status = sw_status ?sw, le_duration_ms = elapsed div 1000000\<rparr>"
      using assms(2) m Some by (auto simp: api_serve_def requestLogMiddleware_def recovery_def Let_def)
    then show ?thesis
      using delivered_calls [OF g] st m Some sw by (simp add: NewRouter_def recoveryMiddleware_def)
  qed
qed

lemma path_logged_without_ui: "rc_ui cfg = None \<Longrightarrow> served_path w dw reachable cfg ui_opens r = rq_path r"
  by (simp add: served_path_def)

text \<open>With a user interface the path in the log is not the one requested, for a page the interface routes itself.\<close>

theorem ui_path_is_lost_in_log:
  assumes "rc_ui cfg = Some ui" "\<not> ui_opens ''get-started''"
  shows "served_path w dw reachable cfg ui_opens (r\<lparr>rq_method := ''GET'', rq_path := ''/get-started''\<rparr>) = ''/''"
  using assms by (simp add: served_path_def routes_def trim_prefix_def)

theorem served_as_computed_and_logged_witness:
  "\<exists>d e st'. api_serve sample_api_world sample_draw True sample_router (\<lambda>_. False) 7000000 sample_request new_server = (d, Some e, st')
    \<and> le_status e = 401 \<and> rs_status d = 401 \<and> le_path e = ''/v1/validate''"
proof -
  have g: "good_ui sample_router" by (simp add: good_ui_def sample_router_def)
  obtain d entry st' where s: "api_serve sample_api_world sample_draw True sample_router (\<lambda>_. False) 7000000 sample_request new_server = (d, entry, st')"
    by (cases "api_serve sample_api_world sample_draw True sample_router (\<lambda>_. False) 7000000 sample_request new_server") blast
  have "NewRouter sample_api_world sample_draw True sample_router sample_request new_server = (authFail, new_server)"
    by (rule router_refuses) (simp_all add: sample_request_def authenticated_def)
  with served_as_computed_and_logged [OF g s] show ?thesis
    using s path_logged_without_ui [of sample_router]
    by (auto simp: same_response_def authFail_def sample_router_def sample_request_def split: option.splits)
qed

section \<open>The key that is published\<close>










end
