(* ===== verification/SharedStore.thy ===== *)
theory SharedStore
  imports EvidenceCorrect
begin

text \<open>
  One evidence store, several processes. Every operation of the package takes the store's file lock for its whole duration,
  so the processes interleave operation by operation. Each step of a run has the environment of the process that makes
  it: its clock, its settings and how its attempts at the lock went, including that it gave up. The locale \<open>shared_log\<close> states
  what an operation promises to the others, and a run of any interleaving is then explained by one list of records.
\<close>

section \<open>Runs\<close>

datatype store_op = SAppend evidence_record | SRead | SValidate

datatype store_out = OAppended evidence_record | ORecords "evidence_record list" | OValid | OErr ev_err

type_synonym store_event = "env \<times> store_op \<times> store_out"

definition out_of :: "('a \<Rightarrow> store_out) \<Rightarrow> (ev_err + 'a) \<times> fs \<Rightarrow> store_out \<times> fs" where
  "out_of ok r = (case r of (Inl err, f) \<Rightarrow> (OErr err, f) | (Inr x, f) \<Rightarrow> (ok x, f))"

fun perform_with ::
  "(env \<Rightarrow> evidence_record \<Rightarrow> evidence_record io) \<Rightarrow> (env \<Rightarrow> evidence_record list io) \<Rightarrow> (env \<Rightarrow> unit io)
    \<Rightarrow> env \<Rightarrow> store_op \<Rightarrow> fs \<Rightarrow> store_out \<times> fs" where
  "perform_with app rd val e (SAppend r) f = out_of OAppended (app e r f)"
| "perform_with app rd val e SRead f = out_of ORecords (rd e f)"
| "perform_with app rd val e SValidate f = out_of (\<lambda>_. OValid) (val e f)"

text \<open>The operations of the package on the store at a path.\<close>

definition perform :: "(string \<Rightarrow> string) \<Rightarrow> string \<Rightarrow> env \<Rightarrow> store_op \<Rightarrow> fs \<Rightarrow> store_out \<times> fs" where
  "perform sha path = perform_with (\<lambda>e. appendAtPath sha e path) (\<lambda>e. ReadAllAtPath e path) (\<lambda>e. ValidateChainAtPath sha e path)"

text \<open>The records a run has appended, in order.\<close>

fun appended :: "store_event \<Rightarrow> evidence_record list" where
  "appended (e, op, OAppended q) = [norm_record q]"
| "appended (e, op, out) = []"

definition log_of :: "store_event list \<Rightarrow> evidence_record list" where
  "log_of evs = concat (map appended evs)"

lemma log_of_simps [simp]: "log_of [] = []" "log_of (evs @ [ev]) = log_of evs @ appended ev"
  by (simp_all add: log_of_def)

text \<open>
  What is asked of an append that gets the lock: a record that can be written and read back at this place of the log, with
  the policy reference of the store.
\<close>

definition admissible :: "(env \<Rightarrow> string \<Rightarrow> evidence_record \<Rightarrow> bool) \<Rightarrow> evidence_record list \<Rightarrow> env \<Rightarrow> store_op \<Rightarrow> bool" where
  "admissible acc rs e op \<longleftrightarrow> (case op of
     SAppend r \<Rightarrow> lock_granted e \<longrightarrow> acc e (last_hash [] rs) r \<and> policy_fits (policy_end [] rs) (er_policy_ref r)
   | _ \<Rightarrow> True)"

inductive shared_run ::
  "(env \<Rightarrow> store_op \<Rightarrow> fs \<Rightarrow> store_out \<times> fs) \<Rightarrow> (env \<Rightarrow> string \<Rightarrow> evidence_record \<Rightarrow> bool) \<Rightarrow> fs \<Rightarrow> store_event list \<Rightarrow> fs \<Rightarrow> bool"
  for perf acc f0 where
  start: "shared_run perf acc f0 [] f0"
| step: "\<lbrakk>shared_run perf acc f0 evs f; admissible acc (log_of evs) e op; perf e op f = (out, f')\<rbrakk> \<Longrightarrow>
    shared_run perf acc f0 (evs @ [(e, op, out)]) f'"

inductive_cases shared_run_snocE: "shared_run perf acc f0 (evs @ [ev]) f'"

section \<open>One list explains a run\<close>

text \<open>The abstract store is a list: an append adds one linked record, reading returns the list, validation accepts it.\<close>

definition lock_errors :: "ev_err set" where
  "lock_errors = {EBusy, ELockNotSupported, ELockFailed}"

definition explains :: "(env \<Rightarrow> string \<Rightarrow> evidence_record \<Rightarrow> evidence_record) \<Rightarrow> evidence_record list \<Rightarrow> store_event \<Rightarrow> bool" where
  "explains compl rs ev = (case ev of (e, op, out) \<Rightarrow>
     if lock_granted e
     then out = (case op of SAppend r \<Rightarrow> OAppended (compl e (last_hash [] rs) r) | SRead \<Rightarrow> ORecords rs | SValidate \<Rightarrow> OValid)
     else out \<in> OErr ` lock_errors)"

definition linearised :: "(env \<Rightarrow> string \<Rightarrow> evidence_record \<Rightarrow> evidence_record) \<Rightarrow> store_event list \<Rightarrow> bool" where
  "linearised compl evs \<longleftrightarrow> (\<forall>i < length evs. explains compl (log_of (take i evs)) (evs ! i))"

lemma linearised_simps [simp]:
  "linearised compl []" "linearised compl (evs @ [ev]) \<longleftrightarrow> linearised compl evs \<and> explains compl (log_of evs) ev"
  by (auto simp: linearised_def nth_append less_Suc_eq)

lemma length_log_of: "length (log_of (evs @ [ev])) \<le> Suc (length (log_of evs))"
  by (cases ev rule: appended.cases) simp_all

locale shared_log =
  fixes append :: "env \<Rightarrow> evidence_record \<Rightarrow> evidence_record io"
    and read :: "env \<Rightarrow> evidence_record list io"
    and validate :: "env \<Rightarrow> unit io"
    and complete :: "env \<Rightarrow> string \<Rightarrow> evidence_record \<Rightarrow> evidence_record"
    and acceptable :: "env \<Rightarrow> string \<Rightarrow> evidence_record \<Rightarrow> bool"
    and holds :: "nat \<Rightarrow> evidence_record list \<Rightarrow> fs \<Rightarrow> bool"
  assumes granted: "lock_granted e \<Longrightarrow> evidence_log (append e) (read e) (validate e) (complete e) (acceptable e) holds"
    and not_granted: "\<not> lock_granted e \<Longrightarrow> holds k rs f \<Longrightarrow>
      \<exists>err \<in> lock_errors. \<exists>f'. holds k rs f' \<and> (\<forall>r. append e r f = (Inl err, f')) \<and> read e f = (Inl err, f') \<and> validate e f = (Inl err, f')"
begin

abbreviation perf :: "env \<Rightarrow> store_op \<Rightarrow> fs \<Rightarrow> store_out \<times> fs" where
  "perf \<equiv> perform_with append read validate"

lemma perf_granted:
  assumes "lock_granted e" "holds (Suc k) rs f" "admissible acceptable rs e op" "perf e op f = (out, f')"
  shows "explains complete rs (e, op, out)" "holds (Suc k - length (appended (e, op, out))) (rs @ appended (e, op, out)) f'"
proof -
  note log = granted [OF assms(1)]
  have "explains complete rs (e, op, out) \<and> holds (Suc k - length (appended (e, op, out))) (rs @ appended (e, op, out)) f'"
  proof (cases op)
    case (SAppend r)
    then have "acceptable e (last_hash [] rs) r" "policy_fits (policy_end [] rs) (er_policy_ref r)"
      using assms(1,3) by (simp_all add: admissible_def)
    then obtain f1 where "append e r f = (Inr (complete e (last_hash [] rs) r), f1)"
      "holds k (rs @ [norm_record (complete e (last_hash [] rs) r)]) f1"
      using evidence_log.append_law [OF log assms(2)] by blast
    then show ?thesis using SAppend assms(1,4) by (auto simp: explains_def out_of_def)
  next
    case SRead
    then show ?thesis
      using evidence_log.read_law [OF log assms(2)] assms(1,4) by (auto simp: explains_def out_of_def)
  next
    case SValidate
    then show ?thesis
      using evidence_log.validate_law [OF log assms(2)] assms(1,4) by (auto simp: explains_def out_of_def)
  qed
  then show "explains complete rs (e, op, out)" "holds (Suc k - length (appended (e, op, out))) (rs @ appended (e, op, out)) f'"
    by blast+
qed

lemma perf_refused:
  assumes "\<not> lock_granted e" "holds k rs f" "perf e op f = (out, f')"
  shows "explains complete rs (e, op, out)" "appended (e, op, out) = []" "holds k rs f'"
proof -
  obtain err f1 where err: "err \<in> lock_errors" "holds k rs f1" "\<And>r. append e r f = (Inl err, f1)"
    "read e f = (Inl err, f1)" "validate e f = (Inl err, f1)"
    using not_granted [OF assms(1,2)] by blast
  then have "out = OErr err \<and> f' = f1" using assms(3) by (cases op) (simp_all add: out_of_def)
  then show "explains complete rs (e, op, out)" "appended (e, op, out) = []" "holds k rs f'"
    using err(1,2) assms(1) by (simp_all add: explains_def)
qed

text \<open>A run of any interleaving is explained by the list of the records appended so far, and the store holds that list.\<close>

lemma run_linearises:
  assumes "shared_run perf acceptable f0 evs f" "holds (Suc n) [] f0" "length (log_of evs) \<le> n"
  shows "linearised complete evs \<and> holds (Suc n - length (log_of evs)) (log_of evs) f"
  using assms
proof (induction rule: shared_run.induct)
  case start
  then show ?case by simp
next
  case (step evs f e op out f')
  let ?ev = "(e, op, out)"
  have len: "length (log_of evs) + length (appended ?ev) \<le> n" using step.prems(2) by simp
  then have IH: "linearised complete evs" "holds (Suc (n - length (log_of evs))) (log_of evs) f"
    using step.IH [OF step.prems(1)] by (simp_all add: Suc_diff_le)
  have "explains complete (log_of evs) ?ev \<and> holds (Suc n - length (log_of (evs @ [?ev]))) (log_of (evs @ [?ev])) f'"
  proof (cases "lock_granted e")
    case True
    note p = perf_granted [OF True IH(2) step.hyps(2,3)]
    have "Suc (n - length (log_of evs)) - length (appended ?ev) = Suc n - length (log_of (evs @ [?ev]))" using len by simp
    with p show ?thesis by simp
  next
    case False
    note p = perf_refused [OF False IH(2) step.hyps(3)]
    have "Suc (n - length (log_of evs)) = Suc n - length (log_of (evs @ [?ev]))" using len p(2) by simp
    with p show ?thesis by simp
  qed
  with IH(1) show ?case by simp
qed

end

section \<open>A lock that is not granted\<close>

definition lock_attempt :: "env \<Rightarrow> lock_res" where
  "lock_attempt e = (if e_unix e then acquire_loop (e_flock e) (e_delay e)
      (if lockTimeoutFromEnv e \<le> 0 then 2 * 1000000000 else lockTimeoutFromEnv e) (int (e_delay e 0)) 0
    else LkNotSupported)"

definition lock_failure :: "env \<Rightarrow> ev_err" where
  "lock_failure e = (case lock_attempt e of LkBusy \<Rightarrow> EBusy | LkNotSupported \<Rightarrow> ELockNotSupported | _ \<Rightarrow> ELockFailed)"

lemma lock_granted_attempt: "lock_granted e \<longleftrightarrow> lock_attempt e = LkAcquired"
  by (simp add: lock_granted_def lock_attempt_def)

lemma lock_failure_error: "lock_failure e \<in> lock_errors"
  by (simp add: lock_failure_def lock_errors_def split: lock_res.split)

lemma Acquire_attempt:
  assumes "wf_path root" "unrefused f" "dir_at f root" "node_at f (child root lockFileName) \<noteq> Some Dir"
  shows "Acquire e (path_join root lockFileName) (lockTimeoutFromEnv e) f = (Inr (lock_attempt e), if e_unix e then locked root f else f)"
proof -
  have "append_file f (child root lockFileName) [] = (None, locked root f)"
    using append_file_child [OF assms(2-4)] by (simp add: locked_def)
  then show ?thesis using assms by (simp add: Acquire_def lock_attempt_def io_bind_def io_do_def open_create_def Let_def)
qed

lemma withStoreLock_refused:
  assumes "\<not> lock_granted e" "lockRootForPath f path = Inr root" "wf_path root" "unrefused f" "dir_at f root"
    "node_at f (child root lockFileName) \<noteq> Some Dir"
  shows "withStoreLock e path fn f = (Inl (lock_failure e), if e_unix e then locked root f else f)"
  using assms(1,2) Acquire_attempt [OF assms(3-6)]
  by (cases "lock_attempt e") (simp_all add: withStoreLock_def io_bind_def lock_failure_def lock_granted_attempt)

lemma refused_operations:
  assumes "\<And>fn :: evidence_record io. withStoreLock e path fn f = (Inl err, f')"
    "\<And>fn :: unit io. withStoreLock e path fn f = (Inl err, f')"
    "\<And>fn :: (ev_err option \<times> evidence_record list) io. withStoreLock e path fn f = (Inl err, f')"
  shows "appendAtPath sha e path r f = (Inl err, f')" "ReadAllAtPath e path f = (Inl err, f')"
    "ValidateChainAtPath sha e path f = (Inl err, f')"
  using assms
  by (simp_all add: appendAtPath_def ReadAllAtPath_def ForEachRecordAtPath_def ValidateChainAtPath_def io_bind_def)

section \<open>The two formats\<close>


definition legacy_holds :: "(string \<Rightarrow> string) \<Rightarrow> string \<Rightarrow> nat \<Rightarrow> evidence_record list \<Rightarrow> fs \<Rightarrow> bool" where
  "legacy_holds sha path k rs f \<longleftrightarrow> one_policy rs \<and> legacy_inv sha (clean_path path) rs f \<and> node_at f (clean_path path) \<noteq> None"


lemma legacy_store_holds: "lock_granted e \<Longrightarrow> legacy_store sha e path = legacy_holds sha path"
  by (simp add: fun_eq_iff legacy_store_def legacy_holds_def)


lemma legacy_holds_locked: "legacy_holds sha path k rs f \<Longrightarrow> legacy_holds sha path k rs (locked (lock_dir path) f)"
  using legacy_inv_locked by (auto simp: legacy_holds_def)


lemma legacy_refused:
  assumes "legacy_holds sha path k rs f" "\<not> lock_granted e"
  shows "withStoreLock e path fn f = (Inl (lock_failure e), if e_unix e then locked (lock_dir path) f else f)"
proof -
  have i: "legacy_inv sha (clean_path path) rs f" using assms(1) by (simp add: legacy_holds_def)
  show ?thesis
  proof (rule withStoreLock_refused [OF assms(2)])
    show "lockRootForPath f path = Inr (lock_dir path)" using legacy_mode [OF i] by (simp add: lockRootForPath_def)
  qed (use i in \<open>simp_all add: legacy_inv_def wf_path_dir\<close>)
qed


interpretation shared_legacy: shared_log "\<lambda>e. appendAtPath sha e path" "\<lambda>e. ReadAllAtPath e path"
  "\<lambda>e. ValidateChainAtPath sha e path" "completed sha" "storable sha" "legacy_holds sha path" for sha path
proof (rule shared_log.intro)
  fix e assume "lock_granted e"
  then show "evidence_log (appendAtPath sha e path) (ReadAllAtPath e path) (ValidateChainAtPath sha e path)
      (completed sha e) (storable sha e) (legacy_holds sha path)"
    using legacy.evidence_log_axioms [of sha e path] by (simp add: legacy_store_holds)
next
  fix e k rs f assume a: "\<not> lock_granted e" "legacy_holds sha path k rs f"
  note r = refused_operations [OF legacy_refused [OF a(2,1)] legacy_refused [OF a(2,1)] legacy_refused [OF a(2,1)]]
  show "\<exists>err \<in> lock_errors. \<exists>f'. legacy_holds sha path k rs f' \<and> (\<forall>r. appendAtPath sha e path r f = (Inl err, f'))
      \<and> ReadAllAtPath e path f = (Inl err, f') \<and> ValidateChainAtPath sha e path f = (Inl err, f')"
    using r a(2) legacy_holds_locked [OF a(2)]
    by (intro bexI [OF _ lock_failure_error [of e]] exI [of _ "if e_unix e then locked (lock_dir path) f else f"]) simp
qed

section \<open>Processes sharing a new store\<close>



text \<open>The same for a legacy file that is there and empty.\<close>

lemma legacy_appends_linearise:
  assumes "legacy_inv sha (clean_path path) [] f" "node_at f (clean_path path) \<noteq> None"
    "shared_run (perform sha path) (storable sha) f evs f'" "lock_granted e"
  shows "linearised (completed sha) evs \<and> fst (ReadAllAtPath e path f') = Inr (log_of evs)"
proof -
  have "legacy_holds sha path (Suc (length (log_of evs))) [] f" using assms(1,2) by (simp add: legacy_holds_def one_policy_def)
  then have h: "linearised (completed sha) evs" "legacy_holds sha path (Suc (length (log_of evs)) - length (log_of evs)) (log_of evs) f'"
    using shared_legacy.run_linearises [of sha path f evs f' "length (log_of evs)"] assms(3) by (simp_all add: perform_def)
  show ?thesis using h(1) evidence_log.read_law [OF shared_legacy.granted [OF assms(4)] h(2)] by auto
qed








end
