(* ===== verification/McpSession.thy ===== *)
theory McpSession
  imports ServiceCorrect SharedStore
begin

text \<open>
  A session of the MCP server: agents call the two tools, \<^verbatim>\<open>validate\<close> and \<^verbatim>\<open>get_event\<close>, in any order, each call with its own clock,
  network and policy sources. The evidence of a verdict stays where an agent can look it up.
\<close>

section \<open>The store under the service\<close>



section \<open>What a validation writes\<close>




definition evaluated_here :: "validate_output \<Rightarrow> bool" where
  "evaluated_here out \<longleftrightarrow> vo_source out \<in> {''local'', ''local-fallback''} \<and> vo_error out = None"


lemma norm_completed_verdict [simp]:
  "er_event_id (completed sha e p r) = er_event_id r"
  "er_policy_decision (norm_record (completed sha e p r)) = er_policy_decision r"
  by (simp_all add: norm_record_def completed_def stamp_def Let_def)

definition rejection :: "world \<Rightarrow> service \<Rightarrow> val_err \<Rightarrow> validate_output" where
  "rejection w s err = (case validateErrCode (w_texts w) err of (code, msg) \<Rightarrow> refuse code msg (sv_policy_ref s))"

lemma rejection_not_here [simp]: "\<not> evaluated_here (rejection w s err)"
  by (simp add: rejection_def evaluated_here_def refuse_def split: prod.splits)




section \<open>Sessions\<close>











section \<open>A session that runs\<close>


definition epoch :: gtime where
  "epoch = \<lparr>t_year = 1970, t_month = 1, t_day = 1, t_hour = 0, t_min = 0, t_sec = 0, t_nano = 7\<rparr>"






lemma epoch_text [simp]: "fmt_rfc3339_nano epoch = ''1970-01-01T00:00:00.000000007Z''"
  by code_simp




end
