(* ===== verification/EvidenceDefaults.thy ===== *)
theory EvidenceDefaults
  imports EvidenceCorrect Config
begin

text \<open>
  The entry points of \<^verbatim>\<open>pkg/evidence\<close> that find the store themselves, the texts of its error types, the lock of a build that has
  none (\<^verbatim>\<open>pkg/evlock/lock_windows.go\<close>), and the mutex of a \<^verbatim>\<open>Store\<close>.
\<close>

section \<open>The default store\<close>

definition default_path_error :: ev_err where
  "default_path_error = EMsg ''resolve default evidence path''"

definition evidence_Append :: "(string \<Rightarrow> string) \<Rightarrow> env \<Rightarrow> evidence_record \<Rightarrow> evidence_record io" where
  "evidence_Append sha e r = (case ResolveEvidencePath e [] of
     None \<Rightarrow> io_fail default_path_error
   | Some path \<Rightarrow> appendAtPath sha e path r)"

definition evidence_ValidateChain :: "(string \<Rightarrow> string) \<Rightarrow> env \<Rightarrow> unit io" where
  "evidence_ValidateChain sha e = (case ResolveEvidencePath e [] of
     None \<Rightarrow> io_fail default_path_error
   | Some path \<Rightarrow> ValidateChainAtPath sha e path)"

text \<open>A store is its path; without a home directory \<^verbatim>\<open>NewStore\<close> takes the relative default.\<close>

definition NewStore :: "env \<Rightarrow> string" where
  "NewStore e = (case ResolveEvidencePath e [] of None \<Rightarrow> DefaultEvidenceRelativeDir | Some path \<Rightarrow> path)"

definition NewStoreWithPath :: "string \<Rightarrow> string" where
  "NewStoreWithPath path = path"

text \<open>The package functions work on the store that \<^verbatim>\<open>NewStore\<close> names, except that they fail where it falls back.\<close>

lemma default_entry_points:
  "ResolveEvidencePath e [] \<noteq> None \<Longrightarrow> evidence_Append sha e r = appendAtPath sha e (NewStore e) r"
  "ResolveEvidencePath e [] \<noteq> None \<Longrightarrow> evidence_ValidateChain sha e = ValidateChainAtPath sha e (NewStore e)"
  "ResolveEvidencePath e [] = None \<Longrightarrow> evidence_Append sha e r f = (Inl default_path_error, f)"
  "ResolveEvidencePath e [] = None \<Longrightarrow> evidence_ValidateChain sha e f = (Inl default_path_error, f)"
  by (auto simp: evidence_Append_def evidence_ValidateChain_def NewStore_def)

text \<open>So appending through them keeps the contract of the store, from its initialisation on.\<close>

lemma default_store_validates:
  assumes "ResolveEvidencePath e [] \<noteq> None" "vacant (clean_path (NewStore e)) f" "lock_granted e" "length rs \<le> 999998"
    "acceptable_all (storable sha e) (completed sha e) [] rs"
  shows "fst (evidence_ValidateChain sha e (append_all (evidence_Append sha e) rs (snd (Store_Init e (NewStore e) f)))) = Inr ()"
proof -
  obtain f0 where f0: "Store_Init e (NewStore e) f = (Inr (), f0)" "seg_store sha e (NewStore e) (length rs + 0) [] f0"
    using Store_Init_ok [OF assms(2,3)] assms(4) by (metis add.right_neutral)
  have "evidence_Append sha e = appendAtPath sha e (NewStore e)" "evidence_ValidateChain sha e = ValidateChainAtPath sha e (NewStore e)"
    using default_entry_points(1,2) [OF assms(1)] by blast+
  then show ?thesis using segmented.append_then_validate [OF f0(2) assms(5)] f0(1) by auto
qed

section \<open>Errors\<close>

record store_error =
  se_code :: string
  se_text :: string
  se_err :: lock_res

text \<open>How \<^verbatim>\<open>withStoreLock\<close> wraps the lock's errors, and what the methods of the two error types give; a nil receiver is \<^const>\<open>None\<close>.\<close>

definition lock_error :: "lock_res \<Rightarrow> store_error option" where
  "lock_error lk = (case lk of
     LkBusy \<Rightarrow> Some \<lparr>se_code = ''evidence_store_busy'', se_text = ''Evidence store is busy (another writer is running)'', se_err = lk\<rparr>
   | LkNotSupported \<Rightarrow> Some \<lparr>se_code = ''evidence_lock_not_supported_on_windows'',
       se_text = ''Evidence locking is not supported on windows in v0.1'', se_err = lk\<rparr>
   | _ \<Rightarrow> None)"

definition StoreError_Error :: "store_error option \<Rightarrow> string" where
  "StoreError_Error e = (case e of None \<Rightarrow> [] | Some se \<Rightarrow> se_text se)"

definition StoreError_Unwrap :: "store_error option \<Rightarrow> lock_res option" where
  "StoreError_Unwrap e = (case e of None \<Rightarrow> None | Some se \<Rightarrow> Some (se_err se))"

definition ChainValidationError_Error :: "(int \<times> string \<times> string) option \<Rightarrow> string" where
  "ChainValidationError_Error e = (case e of
     None \<Rightarrow> []
   | Some (idx, eventID, msg) \<Rightarrow>
       if eventID \<noteq> [] then ''record '' @ itoa idx @ '' ('' @ eventID @ ''): '' @ msg
       else ''record '' @ itoa idx @ '': '' @ msg)"

text \<open>The model's errors of the lock carry the code of the wrapped error, and unwrapping gives the lock's error back.\<close>

lemma lock_error_codes:
  "map_option se_code (lock_error LkBusy) = Some (ErrorCode EBusy)"
  "map_option se_code (lock_error LkNotSupported) = Some (ErrorCode ELockNotSupported)"
  "lock_error lk \<noteq> None \<Longrightarrow> StoreError_Unwrap (lock_error lk) = Some lk"
  by (simp_all add: lock_error_def StoreError_Unwrap_def split: lock_res.splits)

section \<open>A build without file locks\<close>

definition windows_Acquire :: lock_res where "windows_Acquire = LkNotSupported"
definition windows_Release :: "string option" where "windows_Release = None"

lemma windows_build: "\<not> e_unix e \<Longrightarrow> Acquire e p t f = (Inr windows_Acquire, f)"
  by (simp add: Acquire_def windows_Acquire_def)

text \<open>There every operation on an existing store is refused and changes nothing.\<close>

lemma windows_refuses:
  assumes "\<not> e_unix e" "lockRootForPath f path = Inr root"
  shows "appendAtPath sha e path r f = (Inl ELockNotSupported, f)" "ReadAllAtPath e path f = (Inl ELockNotSupported, f)"
    "ValidateChainAtPath sha e path f = (Inl ELockNotSupported, f)" "Store_Init e path f = (Inl ELockNotSupported, f)"
  using assms
  by (simp_all add: appendAtPath_def ReadAllAtPath_def ForEachRecordAtPath_def ValidateChainAtPath_def Store_Init_def
      withStoreLock_def io_bind_def windows_build windows_Acquire_def)

end
