(* ===== verification/CommandCorrect.thy ===== *)
theory CommandCorrect
  imports Cli EvidenceCorrect
begin

text \<open>
  What the evidence commands report of a store: the locale \<open>summarised_store\<close> adds to the contract of an evidence
  store that its metadata and its iteration agree with the records it holds; the commands are verified once inside it,
  and both kinds of store interpret it. Then what the validate command promises, online and offline.
\<close>

section \<open>Counting\<close>

lemma bump_map_of: "map_of (bump k m) j = (if j = k then Some (Suc (case map_of m k of None \<Rightarrow> 0 | Some n \<Rightarrow> n)) else map_of m j)"
  by (induction k m rule: bump.induct) (auto split: option.splits)

lemma bump_keys: "map fst (bump k m) = map fst m @ (if k \<in> fst ` set m then [] else [k])"
  by (induction k m rule: bump.induct) auto

text \<open>The counting map of a list: every element with its number of occurrences.\<close>

definition tally :: "string list \<Rightarrow> (string \<times> nat) list" where
  "tally xs = foldl (\<lambda>m k. bump k m) [] xs"

lemma tally_snoc [simp]: "tally (xs @ [x]) = bump x (tally xs)"
  by (simp add: tally_def)

lemma tally_Nil [simp]: "tally [] = []"
  by (simp add: tally_def)

lemma tally_map_of: "map_of (tally xs) k = (if k \<in> set xs then Some (count_list xs k) else None)"
  by (induction xs rule: rev_induct) (auto simp: bump_map_of)

lemma tally_distinct: "distinct (map fst (tally xs))"
  by (induction xs rule: rev_induct) (auto simp: bump_keys)

lemma tally_set: "(k, n) \<in> set (tally xs) \<longleftrightarrow> k \<in> set xs \<and> n = count_list xs k"
  using map_of_eq_Some_iff [OF tally_distinct [of xs], of k n] by (auto simp: tally_map_of split: if_splits)

lemma tally_map_set: "(x, n) \<in> set (tally (map h rs)) \<longleftrightarrow> 0 < n \<and> n = length (filter (\<lambda>r. h r = x) rs)"
proof -
  have c: "count_list (map h rs) x = length (filter (\<lambda>r. h r = x) rs)" by (induction rs) auto
  have "x \<in> set (map h rs) \<longleftrightarrow> 0 < count_list (map h rs) x"
    using count_list_0_iff [of "map h rs" x] by linarith
  then show ?thesis unfolding tally_set c by blast
qed

definition summary :: "int \<Rightarrow> gtime option \<Rightarrow> evidence_record list \<Rightarrow> violations" where
  "summary minRank cutoff rs =
    (let scanned = filter (within_window cutoff) rs; vs = filter (is_violation minRank) scanned in
     \<lparr>vs_scanned = length scanned, vs_total = length vs, vs_reasons = tally (map reason_of vs), vs_tools = tally (map tool_key vs),
      vs_actors = tally (map actor_of vs), vs_samples = take 10 (map sample_json vs)\<rparr>)"

lemma each_violation_step: "each (violation_step minRank cutoff) rs no_violations = (None, summary minRank cutoff rs)"
proof (induction rs rule: rev_induct)
  case Nil
  then show ?case by (simp add: summary_def no_violations_def)
next
  case (snoc r rs)
  then show ?case
    by (auto simp: each_append violation_step_def summary_def Let_def min_def)
qed

section \<open>The interface\<close>

locale summarised_store =
  evidence_log "appendAtPath sha e path" "ReadAllAtPath e path" "ValidateChainAtPath sha e path" complete acceptable inv
  for sha e path complete acceptable inv +
  assumes metadata_law: "inv k rs f \<Longrightarrow> \<exists>f'. MetadataAtPath e path f =
      (Inr \<lparr>md_records = int (length rs), md_last_hash = last_hash [] rs, md_policy_ref = policy_end [] rs\<rparr>, f') \<and> inv k rs f'"
    and each_law: "inv k rs f \<Longrightarrow> \<exists>f'. ForEachRecordAtPath e path fn (s :: violations) f = (Inr (each fn rs s), f') \<and> inv k rs f'"
    and present_law: "inv k rs f \<Longrightarrow> path \<noteq> [] \<Longrightarrow> \<exists>n. stat_str f path = Inr n"
begin

lemma verify_reports:
  assumes "inv k rs f" "path \<noteq> []"
  shows "\<exists>f'. runVerify tx sha e [''--evidence'', path] f =
    (\<lparr>co_exit = 0, co_stdout = cli_writeJSON (JObj [(''ok'', JBool True), (''records'', JNum (int (length rs))), (''last_hash'', JStr (last_hash [] rs))])\<rparr>, f')
    \<and> inv k rs f'"
proof -
  obtain n where "stat_str f path = Inr n" using present_law [OF assms] by blast
  moreover obtain f1 where f1: "ValidateChainAtPath sha e path f = (Inr (), f1)" "inv k rs f1" using validate_law [OF assms(1)] by blast
  moreover obtain f2 where "MetadataAtPath e path f1 =
      (Inr \<lparr>md_records = int (length rs), md_last_hash = last_hash [] rs, md_policy_ref = policy_end [] rs\<rparr>, f2)" "inv k rs f2"
    using metadata_law [OF f1(2)] by blast
  ultimately show ?thesis
    using assms(2) by (simp add: runVerify_def split_flag_def set_flag_def flag_str_def say_def exitOK_def verify_ok_json_def)
qed

lemma violations_reports:
  assumes "inv k rs f" "path \<noteq> []" "snd (riskRank risk)"
  shows "\<exists>f'. runViolations frac tx sha e [''--evidence'', path, ''--min-risk'', risk] f =
    (\<lparr>co_exit = 0, co_stdout = cli_writeJSON (violations_json path (int (length rs)) (summary (fst (riskRank risk)) None rs)
        None None (fmt_rfc3339 (e_now e 9)) risk)\<rparr>, f') \<and> inv k rs f'"
proof -
  obtain n where "stat_str f path = Inr n" using present_law [OF assms(1,2)] by blast
  moreover obtain f1 where f1: "ValidateChainAtPath sha e path f = (Inr (), f1)" "inv k rs f1" using validate_law [OF assms(1)] by blast
  moreover obtain f2 where f2: "MetadataAtPath e path f1 =
      (Inr \<lparr>md_records = int (length rs), md_last_hash = last_hash [] rs, md_policy_ref = policy_end [] rs\<rparr>, f2)" "inv k rs f2"
    using metadata_law [OF f1(2)] by blast
  moreover obtain f3 where "ForEachRecordAtPath e path (violation_step (fst (riskRank risk)) None) no_violations f2 =
      (Inr (None, summary (fst (riskRank risk)) None rs), f3)" "inv k rs f3"
    using each_law [OF f2(2), of "violation_step (fst (riskRank risk)) None" no_violations] by (auto simp: each_violation_step)
  ultimately show ?thesis
    using assms(2,3)
    by (simp add: runViolations_def report_violations_def violations_flags_def split_flag_def set_flag_def flag_str_def optional_stat_def
        say_def exitOK_def)
qed

end

interpretation summarised_seg: summarised_store sha e path "completed sha e" "storable sha e" "seg_store sha e path" for sha e path
proof
  fix k rs f and fn :: "evidence_record \<Rightarrow> violations \<Rightarrow> ev_err option \<times> violations" and s
  assume st: "seg_store sha e path k rs f"
  note l = seg_store_locked [OF st]
  obtain m n where m: "seg_inv sha (clean_path path) m n rs (locked (clean_path path) f)" "sm_policy_ref m = policy_end [] rs"
    using l(1) by (auto simp: seg_store_def)
  have "MetadataAtPath e path f =
      (Inr \<lparr>md_records = int (length rs), md_last_hash = last_hash [] rs, md_policy_ref = policy_end [] rs\<rparr>, locked (clean_path path) f)"
    using seg_invD(5) [OF m(1)] m(2)
    by (simp add: MetadataAtPath_def metadataAtPathUnlocked_def l(2) with_mode_ok [OF l(3)] load_described [OF m(1)] io_bind_def manifest_describes_def)
  then show "\<exists>f'. MetadataAtPath e path f =
      (Inr \<lparr>md_records = int (length rs), md_last_hash = last_hash [] rs, md_policy_ref = policy_end [] rs\<rparr>, f') \<and> seg_store sha e path k rs f'"
    using l(1) by blast
  show "\<exists>f'. ForEachRecordAtPath e path fn s f = (Inr (each fn rs s), f') \<and> seg_store sha e path k rs f'"
    using l(1) by (simp add: ForEachRecordAtPath_def l(2) seg_store_each [OF l(1)])
  show "path \<noteq> [] \<Longrightarrow> \<exists>n. stat_str f path = Inr n"
    using st seg_invD(8,9) stat_dir by (fastforce simp: seg_store_def stat_str_def)
qed

interpretation summarised_legacy: summarised_store sha e path "completed sha e" "storable sha e" "legacy_store sha e path" for sha e path
proof
  fix k rs f and fn :: "evidence_record \<Rightarrow> violations \<Rightarrow> ev_err option \<times> violations" and s
  assume st: "legacy_store sha e path k rs f"
  then have i: "legacy_inv sha (clean_path path) rs f" "node_at f (clean_path path) \<noteq> None" and g: "lock_granted e" and p: "one_policy rs"
    by (simp_all add: legacy_store_def)
  let ?l = "locked (lock_dir path) f"
  note li = legacy_inv_locked [OF i(1)]
  have l: "legacy_store sha e path k rs ?l" using st li by (simp add: legacy_store_def)
  have "MetadataAtPath e path f =
      (Inr \<lparr>md_records = int (length rs), md_last_hash = last_hash [] rs, md_policy_ref = policy_end [] rs\<rparr>, ?l)"
    by (simp add: MetadataAtPath_def metadataAtPathUnlocked_def legacy_lock [OF i(1) g] with_mode_ok [OF legacy_mode [OF li(1)]]
        lift_res_def metadata_legacy [OF li(1) p])
  then show "\<exists>f'. MetadataAtPath e path f =
      (Inr \<lparr>md_records = int (length rs), md_last_hash = last_hash [] rs, md_policy_ref = policy_end [] rs\<rparr>, f') \<and> legacy_store sha e path k rs f'"
    using l by blast
  show "\<exists>f'. ForEachRecordAtPath e path fn s f = (Inr (each fn rs s), f') \<and> legacy_store sha e path k rs f'"
    using l by (simp add: ForEachRecordAtPath_def legacy_lock [OF i(1) g] legacy_each [OF l])
  show "\<exists>n. stat_str f path = Inr n" if "path \<noteq> []"
  proof (rule legacy_invD [OF i(1)])
    fix d n assume "clean_path path = child d n" "unrefused f" "dir_at f d"
    with i(2) that show ?thesis by (auto simp: stat_str_def stat_child)
  qed
qed

section \<open>Properties\<close>

text \<open>C30
  Verifying a store, segmented or legacy, exits with 0 and reports exactly the number of its records and its last hash;
  the store is unchanged.
\<close>
theorem verify_reports_store:
  assumes "seg_store sha e path k rs f \<or> legacy_store sha e path k rs f" "path \<noteq> []"
  shows "fst (runVerify tx sha e [''--evidence'', path] f) = \<lparr>co_exit = 0, co_stdout = cli_writeJSON
      (JObj [(''ok'', JBool True), (''records'', JNum (int (length rs))), (''last_hash'', JStr (last_hash [] rs))])\<rparr> \<and>
    fst (ReadAllAtPath e path (snd (runVerify tx sha e [''--evidence'', path] f))) = Inr rs"
  using assms summarised_seg.verify_reports [of sha e path k rs f tx] summarised_legacy.verify_reports [of sha e path k rs f tx]
    segmented.read_law [of sha e path k rs] legacy.read_law [of sha e path k rs]
  by (metis fst_conv snd_conv)

theorem verify_reports_store_witness:
  "fst (runVerify (\<lambda>_. []) (\<lambda>_. ''d'') sample_env [''--evidence'', ''/s'']
      (snd (appendAtPath (\<lambda>_. ''d'') sample_env ''/s'' sample_rec (snd (Store_Init sample_env ''/s'' sample_fs))))) =
    \<lparr>co_exit = 0, co_stdout = cli_writeJSON (JObj [(''ok'', JBool True), (''records'', JNum 1), (''last_hash'', JStr ''d'')])\<rparr>"
  using verify_reports_store [OF disjI1 [OF seg_store_one_sample], of "\<lambda>_. []"] by simp

text \<open>C29
  The violations report of a store counts exactly the records that were denied or whose risk is at least the given level:
  their number, for each reason, tool and actor how often it occurs (lists of at most 50, 50 and 10 entries, most frequent
  first), and the first ten of them as samples.
\<close>
theorem violations_report_correct:
  assumes "seg_store sha e path k rs f \<or> legacy_store sha e path k rs f" "path \<noteq> []" "snd (riskRank risk)"
  shows "\<exists>v. fst (runViolations frac tx sha e [''--evidence'', path, ''--min-risk'', risk] f) =
      \<lparr>co_exit = 0, co_stdout = cli_writeJSON (violations_json path (int (length rs)) v None None (fmt_rfc3339 (e_now e 9)) risk)\<rparr> \<and>
    (let vs = filter (is_violation (fst (riskRank risk))) rs in
     vs_scanned v = length rs \<and> vs_total v = length vs \<and> vs_samples v = take 10 (map sample_json vs) \<and>
     (\<forall>x n. (x, n) \<in> set (vs_reasons v) \<longleftrightarrow> 0 < n \<and> n = length (filter (\<lambda>r. reason_of r = x) vs)) \<and>
     (\<forall>x n. (x, n) \<in> set (vs_tools v) \<longleftrightarrow> 0 < n \<and> n = length (filter (\<lambda>r. tool_key r = x) vs)) \<and>
     (\<forall>x n. (x, n) \<in> set (vs_actors v) \<longleftrightarrow> 0 < n \<and> n = length (filter (\<lambda>r. actor_of r = x) vs)))"
proof -
  have "within_window None = (\<lambda>_. True)" by (simp add: within_window_def fun_eq_iff)
  then have s: "summary m None rs = (let vs = filter (is_violation m) rs in
     \<lparr>vs_scanned = length rs, vs_total = length vs, vs_reasons = tally (map reason_of vs), vs_tools = tally (map tool_key vs),
      vs_actors = tally (map actor_of vs), vs_samples = take 10 (map sample_json vs)\<rparr>)" for m
    by (simp add: summary_def Let_def)
  have "\<exists>f'. runViolations frac tx sha e [''--evidence'', path, ''--min-risk'', risk] f =
      (\<lparr>co_exit = 0, co_stdout = cli_writeJSON (violations_json path (int (length rs)) (summary (fst (riskRank risk)) None rs)
        None None (fmt_rfc3339 (e_now e 9)) risk)\<rparr>, f')"
    using assms(1) summarised_seg.violations_reports [of sha e path k rs f risk frac tx, OF _ assms(2,3)]
      summarised_legacy.violations_reports [of sha e path k rs f risk frac tx, OF _ assms(2,3)] by blast
  then obtain f' where f': "runViolations frac tx sha e [''--evidence'', path, ''--min-risk'', risk] f =
      (\<lparr>co_exit = 0, co_stdout = cli_writeJSON (violations_json path (int (length rs)) (summary (fst (riskRank risk)) None rs)
        None None (fmt_rfc3339 (e_now e 9)) risk)\<rparr>, f')" by blast
  show ?thesis unfolding f' fst_conv by (intro exI [of _ "summary (fst (riskRank risk)) None rs"]) (simp add: s Let_def tally_map_set)
qed

theorem violations_report_correct_witness:
  "\<exists>v. fst (runViolations (\<lambda>_ _ _. 0) (\<lambda>_. []) (\<lambda>_. ''d'') sample_env [''--evidence'', ''/s'', ''--min-risk'', ''low'']
      (snd (appendAtPath (\<lambda>_. ''d'') sample_env ''/s'' sample_rec (snd (Store_Init sample_env ''/s'' sample_fs))))) =
    \<lparr>co_exit = 0, co_stdout = cli_writeJSON (violations_json ''/s'' 1 v None None (fmt_rfc3339 (e_now sample_env 9)) ''low'')\<rparr>
    \<and> vs_scanned v = 1"
proof -
  have "snd (riskRank ''low'')" by code_simp
  from violations_report_correct [OF disjI1 [OF seg_store_one_sample] _ this, of "\<lambda>_ _ _. 0" "\<lambda>_. []"] show ?thesis
    by (auto simp: Let_def)
qed

lemma locked_idem: "locked root (locked root f) = locked root f"
  by (simp add: locked_def put_node_def update_conv' content_def)

lemma validate_seg_eq:
  assumes "seg_store sha e path k rs f"
  shows "ValidateChainAtPath sha e path f = (Inr (), locked (clean_path path) f)"
proof -
  note l = seg_store_locked [OF assms]
  show ?thesis
    by (simp add: ValidateChainAtPath_def validateChainAtPathUnlocked_def l(2) with_mode_ok [OF l(3)]
        lift_err_def seg_store_valid [OF l(1)])
qed

lemma resolve_after_lock:
  assumes "seg_store sha e path k rs f" "ResolveCursorRecord e path seg line f = (Inr r, g)"
  shows "ResolveCursorRecord e path seg line (locked (clean_path path) f) = (Inr r, locked (clean_path path) f)"
proof -
  note l = seg_store_locked [OF assms(1)]
  have u: "resolveCursorRecordUnlocked path seg line (locked (clean_path path) f) = (Inr r, g)"
    using assms(2) by (simp add: ResolveCursorRecord_def l(2))
  then have "g = locked (clean_path path) f"
    by (auto simp: resolveCursorRecordUnlocked_def with_mode_ok [OF l(3)] lift_res_def split: if_splits)
  with u show ?thesis by (simp add: ResolveCursorRecord_def seg_store_locked(2) [OF l(1)] locked_idem)
qed

lemma cursor_store_seg:
  assumes "seg_store sha e path k rs f" "path \<noteq> []" shows "cursor_store f path"
  using assms seg_inv_mode seg_invD(8,9) stat_dir
  by (fastforce simp: cursor_store_def stat_str_def StoreFormatAtPath_def seg_store_def)

text \<open>C31
  Acknowledging a position that exists in a segmented store succeeds, and showing the cursor then reports the same position
  and the hash of the record at it; the records of the store are untouched.
\<close>
theorem cursor_ack_then_show:
  assumes "seg_store sha e path k rs f" "forwarder_files (clean_path path) f" "path \<noteq> []" "seg \<noteq> []"
    "ResolveCursorRecord e path seg (int n) f = (Inr r, g)" "int n < 2 ^ 63" "utf8_valid seg" "utf8_valid (er_hash r)"
  shows "case runCursorAck tx sha e [''--evidence'', path, ''--segment'', seg, ''--line'', dec n] f of
    (out, f') \<Rightarrow> co_exit out = 0 \<and> fst (runCursorShow tx e [''--evidence'', path] f') = out \<and>
      co_stdout out = cli_writeJSON (JObj [(''cursor'', JObj [(''segment'', JStr seg), (''line'', JNum (int n))]),
        (''last_ack_hash'', JStr (er_hash r)), (''ok'', JBool True)]) \<and>
      fst (ReadAllAtPath e path f') = Inr rs"
proof -
  let ?root = "clean_path path"
  let ?f1 = "locked ?root f" and ?st = "acked e seg (int n) r"
  have st1: "seg_store sha e path k rs ?f1" by (rule seg_store_locked(1) [OF assms(1)])
  have ff: "forwarder_files ?root ?f1" using assms(2) by (simp add: forwarder_files_def node_at_locked)
  have ok: "forwarder_ok ?st"
    using assms(6-8) by (simp add: forwarder_ok_def acked_def int64_def rune_len_ascii)
  have fill: "fill_forwarder ?st = ?st" by (simp add: fill_forwarder_def acked_def Let_def)
  obtain f2 f3 where s: "SaveForwarderState e path ?st ?f1 = (Inr (), f2)"
    "LoadForwarderState e path f2 = (Inr (Some ?st), f3)" "seg_store sha e path k rs f2"
    using save_then_load [OF st1 ff ok] unfolding fill by blast
  have pf: "parse_flags (kinds_of ack_flags) [''--evidence'', path, ''--segment'', seg, ''--line'', dec n] [] =
      Some ([(''line'', VInt (int n)), (''segment'', VStr seg), (''evidence'', VStr path)], [])"
    using parse_int0_dec [OF assms(6)] by (simp add: ack_flags_def split_flag_def set_flag_def)
  have ack: "runCursorAck tx sha e [''--evidence'', path, ''--segment'', seg, ''--line'', dec n] f =
      (\<lparr>co_exit = 0, co_stdout = cli_writeJSON (cursor_out ?st)\<rparr>, f2)"
    using assms(3,4) s(1) unfolding runCursorAck_def pf
    by (simp add: flag_str_def flag_int_def cursor_store_seg [OF assms(1,3)] validate_seg_eq [OF assms(1)]
        resolve_after_lock [OF assms(1,5)] say_def exitOK_def)
  have show': "runCursorShow tx e [''--evidence'', path] f2 = (\<lparr>co_exit = 0, co_stdout = cli_writeJSON (cursor_out ?st)\<rparr>, f3)"
    using assms(3) s(2) cursor_store_seg [OF s(3) assms(3)]
    by (simp add: runCursorShow_def split_flag_def set_flag_def flag_str_def say_def exitOK_def)
  show ?thesis
    using segmented.read_law [OF s(3)] by (auto simp: ack show' cursor_out_def cursor_json_def acked_def)
qed

definition sample_acked_fs :: fs where
  "sample_acked_fs = put_node (child (clean_path ''/s'') forwarderStateFileName) (File [])
     (put_node (child (clean_path ''/s'') (forwarderStateFileName @ ''.tmp'')) (File [])
        (snd (appendAtPath (\<lambda>_. ''d'') sample_env ''/s'' sample_rec (snd (Store_Init sample_env ''/s'' sample_fs)))))"

theorem cursor_ack_then_show_witness:
  "\<exists>seg out f'. runCursorAck (\<lambda>_. []) (\<lambda>_. ''d'') sample_env [''--evidence'', ''/s'', ''--segment'', seg, ''--line'', dec 0] sample_acked_fs = (out, f') \<and>
    co_exit out = 0 \<and> fst (runCursorShow (\<lambda>_. []) sample_env [''--evidence'', ''/s''] f') = out"
proof -
  let ?r = "sample_rec\<lparr>er_previous_hash := [], er_hash := ''d''\<rparr>"
  have st: "seg_store (\<lambda>_. ''d'') sample_env ''/s'' 8 [?r] sample_acked_fs"
    unfolding sample_acked_fs_def by (intro put_forwarder_file seg_store_one_sample) auto
  have ff: "forwarder_files (clean_path ''/s'') sample_acked_fs" by (simp add: forwarder_files_def sample_acked_fs_def)
  let ?frs = "\<lambda>i. file_records sample_acked_fs (child (segs (clean_path ''/s'')) (segmentName i))"
  obtain n where n: "\<And>i. 1 \<le> i \<Longrightarrow> i \<le> n \<Longrightarrow> ResolveCursorRecord sample_env ''/s'' (segmentName i) 0 sample_acked_fs =
      (let frs = ?frs i in (if (0 :: int) < 0 \<or> int (length frs) \<le> 0 then Inl ECursorLineOutOfRange else Inr (frs ! nat 0),
        locked (clean_path ''/s'') sample_acked_fs))" "[?r] = concat (map ?frs [1..<Suc n])"
    using resolve_cursor [OF st, of 0] by metis
  have "?r \<in> set (concat (map ?frs [1..<Suc n]))" unfolding n(2) [symmetric] by simp
  then obtain i where i: "1 \<le> i" "i \<le> n" "?r \<in> set (?frs i)" by auto
  then have "i \<in> set [1..<Suc n]" by auto
  then have "set (?frs i) \<subseteq> set (concat (map ?frs [1..<Suc n]))" unfolding set_concat set_map by blast
  then have sub: "set (?frs i) \<subseteq> {?r}" unfolding n(2) [symmetric] by simp
  have ne: "?frs i \<noteq> []" using i(3) by auto
  have "?frs i ! 0 \<in> {?r}" using subsetD [OF sub nth_mem [of 0]] ne by blast
  with ne have "ResolveCursorRecord sample_env ''/s'' (segmentName i) (int 0) sample_acked_fs = (Inr ?r, locked (clean_path ''/s'') sample_acked_fs)"
    using n(1) [OF i(1,2)] by (simp add: Let_def)
  note res = this
  have seg: "segmentName i \<noteq> []" by (simp add: segmentName_def)
  obtain out f' where run: "runCursorAck (\<lambda>_. []) (\<lambda>_. ''d'') sample_env
      [''--evidence'', ''/s'', ''--segment'', segmentName i, ''--line'', dec 0] sample_acked_fs = (out, f')"
    by (rule prod.exhaust)
  have "co_exit out = 0 \<and> fst (runCursorShow (\<lambda>_. []) sample_env [''--evidence'', ''/s''] f') = out"
    using cursor_ack_then_show [OF st ff _ seg res, of "\<lambda>_. []"] unfolding run by (simp add: rune_len_ascii)
  with run show ?thesis by blast
qed

section \<open>Validating a scenario\<close>

lemma maxRiskLevel_ge:
  "riskLevelPriority a \<le> riskLevelPriority (maxRiskLevel a b)" "riskLevelPriority b \<le> riskLevelPriority (maxRiskLevel a b)"
  by (simp_all add: maxRiskLevel_def)

text \<open>The answers of the API to the actions from the \<open>i\<close>-th on.\<close>

definition answers :: "(nat \<Rightarrow> transport) \<Rightarrow> client \<Rightarrow> scenario \<Rightarrow> string \<Rightarrow> nat \<Rightarrow> sc_action list \<Rightarrow> val_result list \<Rightarrow> bool" where
  "answers net c sc environment i as rs \<longleftrightarrow> length rs = length as \<and>
    (\<forall>j < length as. Client_Validate (net (i + j)) c (actionToInvocation sc (as ! j) environment) = Inr (rs ! j))"

lemma answers_Cons:
  "answers net c sc environment i (a # as) rs \<longleftrightarrow>
    (\<exists>r rs'. rs = r # rs' \<and> Client_Validate (net i) c (actionToInvocation sc a environment) = Inr r \<and> answers net c sc environment (Suc i) as rs')"
  by (cases rs) (auto simp: answers_def All_less_Suc2)

definition add_results :: "(nat \<Rightarrow> string) \<Rightarrow> nat \<Rightarrow> val_result list \<Rightarrow> val_result \<Rightarrow> val_result" where
  "add_results ids i rs agg = foldl (\<lambda>agg (r, rid). add_result r rid agg) agg (zip rs (map ids [i..<i + length rs]))"

lemma add_results_Cons: "add_results ids i (r # rs) agg = add_results ids (Suc i) rs (add_result r (ids i) agg)"
  by (simp add: add_results_def upt_conv_Cons del: upt_Suc)

lemma online_loop_Inr:
  "online_loop net ids c sc environment i as agg = Inr out \<longleftrightarrow>
    (\<exists>rs. answers net c sc environment i as rs \<and> out = add_results ids i rs agg)"
proof (induction as arbitrary: i agg)
  case Nil
  then show ?case by (auto simp: answers_def add_results_def)
next
  case (Cons a as)
  then show ?case by (auto simp: answers_Cons add_results_Cons split: sum.splits)
qed

lemma online_loop_Inl:
  "online_loop net ids c sc environment i as agg = Inl err \<Longrightarrow>
    \<exists>j < length as. Client_Validate (net (i + j)) c (actionToInvocation sc (as ! j) environment) = Inl err"
proof (induction as arbitrary: i agg)
  case (Cons a as)
  then show ?case by (fastforce split: sum.splits)
qed simp

lemma add_results_fields:
  "vr_pass (add_results ids i rs agg) \<longleftrightarrow> vr_pass agg \<and> list_all vr_pass rs"
  "vr_evidence_ids (add_results ids i rs agg) = vr_evidence_ids agg @ map vr_evidence_id rs"
  "vr_request_ids (add_results ids i rs agg) = vr_request_ids agg @ map ids [i..<i + length rs]"
  "vr_reasons (add_results ids i rs agg) = vr_reasons agg @ concat (map vr_reasons rs)"
  "vr_rule_ids (add_results ids i rs agg) = vr_rule_ids agg @ concat (map vr_rule_ids rs)"
  "vr_hints (add_results ids i rs agg) = vr_hints agg @ concat (map vr_hints rs)"
  "vr_evidence_id (add_results ids i rs agg) = vr_evidence_id agg" "vr_source (add_results ids i rs agg) = vr_source agg"
  by (induction rs arbitrary: i agg) (auto simp: add_results_Cons add_result_def upt_conv_Cons simp del: upt_Suc,
      simp_all add: add_results_def)

lemma add_results_risk:
  "riskLevelPriority (vr_risk_level agg) \<le> riskLevelPriority (vr_risk_level (add_results ids i rs agg)) \<and>
   (\<forall>r \<in> set rs. riskLevelPriority (vr_risk_level r) \<le> riskLevelPriority (vr_risk_level (add_results ids i rs agg))) \<and>
   vr_risk_level (add_results ids i rs agg) \<in> insert (vr_risk_level agg) (vr_risk_level ` set rs)"
proof (induction rs arbitrary: i agg)
  case (Cons q rs)
  let ?agg = "add_result q (ids i) agg"
  have l: "vr_risk_level ?agg = maxRiskLevel (vr_risk_level agg) (vr_risk_level q)" by (simp add: add_result_def)
  have m: "riskLevelPriority (vr_risk_level agg) \<le> riskLevelPriority (vr_risk_level ?agg)"
    "riskLevelPriority (vr_risk_level q) \<le> riskLevelPriority (vr_risk_level ?agg)"
    unfolding l by (rule maxRiskLevel_ge)+
  from l have c: "vr_risk_level ?agg \<in> {vr_risk_level agg, vr_risk_level q}" by (simp add: maxRiskLevel_def)
  show ?case using Cons.IH [of ?agg "Suc i"] m c unfolding add_results_Cons by fastforce
qed (simp add: add_results_def)

lemma dedup_set: "set (cli_dedupeStrings ss) = set ss" "distinct (cli_dedupeStrings ss)"
  by (auto simp: cli_dedupeStrings_def set_dedup_from distinct_dedup_from le_Suc_eq length_Suc_conv)

text \<open>C28
  Online evaluation asks the API once per action, in order. Either some answer is an error, and that error is the
  result, or the scenario passes exactly when every answer does, its risk level is the highest of the answers (low when none
  is higher), and evidence ids, request ids and reasons are those of the answers in order, rules and hints without
  repetition.
\<close>
theorem evaluateOnline_correct:
  "case evaluateOnline net ids c sc environment of
     Inl err \<Rightarrow> \<exists>j < length (sc_actions sc). Client_Validate (net j) c (actionToInvocation sc (sc_actions sc ! j) environment) = Inl err
   | Inr out \<Rightarrow> \<exists>rs. answers net c sc environment 0 (sc_actions sc) rs \<and>
       vr_pass out = list_all vr_pass rs \<and>
       Max (insert 0 (riskLevelPriority ` vr_risk_level ` set rs)) = riskLevelPriority (vr_risk_level out) \<and>
       vr_evidence_ids out = map vr_evidence_id rs \<and> vr_request_ids out = map ids [0..<length rs] \<and>
       vr_reasons out = concat (map vr_reasons rs) \<and>
       set (vr_rule_ids out) = \<Union> (set ` vr_rule_ids ` set rs) \<and> distinct (vr_rule_ids out) \<and>
       set (vr_hints out) = \<Union> (set ` vr_hints ` set rs) \<and> distinct (vr_hints out)"
proof (cases "online_loop net ids c sc environment 0 (sc_actions sc) online_start")
  case (Inl err)
  with online_loop_Inl [OF Inl] show ?thesis by (simp add: evaluateOnline_def)
next
  case (Inr agg)
  then obtain rs where rs: "answers net c sc environment 0 (sc_actions sc) rs" "agg = add_results ids 0 rs online_start"
    by (auto simp: online_loop_Inr)
  have st: "riskLevelPriority (vr_risk_level online_start) = 0" by code_simp
  have "Max (insert 0 (riskLevelPriority ` vr_risk_level ` set rs)) = riskLevelPriority (vr_risk_level agg)"
    using add_results_risk [of online_start ids 0 rs] st unfolding rs(2) by (intro Max_eqI) auto
  with rs show ?thesis unfolding evaluateOnline_def Inr sum.case
    by (auto simp: dedup_set add_results_fields online_start_def intro!: exI [of _ rs])
qed

lemma co_exit_print [simp]: "co_exit (printValidationResult r m j x t) = (if vr_pass r then 0 else 2)"
  by (simp add: printValidationResult_def)

lemma co_exit_exit_with [simp]: "co_exit (exit_with code) = code"
  by (simp add: exit_with_def)






end
