(* ===== verification/Tokens.thy ===== *)
theory Tokens
  imports Prelude
begin

text \<open>
  \<^verbatim>\<open>pkg/tokens/tokens.go\<close>: templates with placeholders, required \<^verbatim>\<open>{{name}}\<close> and optional \<^verbatim>\<open>{{name?}}\<close>. A template is
  parsed into text and tokens; \<^const>\<open>None\<close> stands for the one parse error there is.
\<close>

datatype template_part = Text string | Token string bool

definition token_char :: "char \<Rightarrow> bool" where
  "token_char c \<longleftrightarrow> (let n = byte c in 97 \<le> n \<and> n \<le> 122 \<or> 65 \<le> n \<and> n \<le> 90 \<or> 48 \<le> n \<and> n \<le> 57 \<or> n = 95)"

definition token_name :: "string \<Rightarrow> bool" where
  "token_name s \<longleftrightarrow> s \<noteq> [] \<and> list_all token_char s"

definition parseTokenBody :: "string \<Rightarrow> (string \<times> bool) option" where
  "parseTokenBody body0 =
    (let b = trim_space body0; optional = (b \<noteq> [] \<and> last b = CHR ''?''); b' = (if optional then butlast b else b) in
     if b = [] \<or> b' = [] \<or> \<not> token_name b' then None else Some (b', optional))"

definition open_mark :: string where "open_mark = ''{{''"
definition close_mark :: string where "close_mark = ''}}''"

function parse_from :: "string \<Rightarrow> template_part list option" where
  "parse_from s =
    (if s = [] then Some []
     else (case index_of open_mark s of
         None \<Rightarrow> Some [Text s]
       | Some start \<Rightarrow>
          (case index_of close_mark (drop (start + 2) s) of
             None \<Rightarrow> None
           | Some len \<Rightarrow>
              (let raw = take len (drop (start + 2) s) in
               if contains_str raw open_mark \<or> contains_str raw close_mark then None
               else (case parseTokenBody raw of
                   None \<Rightarrow> None
                 | Some (name, optional) \<Rightarrow>
                     map_option (\<lambda>ps. (if 0 < start then [Text (take start s)] else []) @ Token name optional # ps)
                       (parse_from (drop (start + 2 + len + 2) s)))))))"
  by pat_completeness auto
termination
  by (relation "measure length") auto

declare parse_from.simps [simp del]

definition parseTemplate :: "string \<Rightarrow> template_part list option" where
  "parseTemplate template = parse_from template"

fun tokens_of :: "template_part list \<Rightarrow> (string \<times> bool) list" where
  "tokens_of [] = []"
| "tokens_of (Text t # ps) = tokens_of ps"
| "tokens_of (Token n opt # ps) = (n, opt) # tokens_of ps"

definition setToSortedSlice :: "string list \<Rightarrow> string list" where
  "setToSortedSlice xs = sort (remdups xs)"

definition ExtractTokens :: "string \<Rightarrow> (string list \<times> string list) option" where
  "ExtractTokens template = map_option (\<lambda>ps.
     (setToSortedSlice (map fst (filter (\<lambda>t. \<not> snd t) (tokens_of ps))),
      setToSortedSlice (map fst (filter snd (tokens_of ps))))) (parseTemplate template)"

datatype token_err = TInvalid | TUndeclared string | TMissing string

definition ValidateTemplate :: "string \<Rightarrow> (string \<Rightarrow> bool) \<Rightarrow> token_err option" where
  "ValidateTemplate template allowedKeys = (case ExtractTokens template of
     None \<Rightarrow> Some TInvalid
   | Some (required, optional) \<Rightarrow> map_option TUndeclared (List.find (\<lambda>n. \<not> allowedKeys n) (required @ optional)))"

text \<open>\<^verbatim>\<open>Placeholders\<close>: in order of first appearance, required when one of the appearances is.\<close>

fun add_placeholder :: "string \<times> bool \<Rightarrow> (string \<times> bool) list \<Rightarrow> (string \<times> bool) list" where
  "add_placeholder t [] = [t]"
| "add_placeholder t (p # ps) =
    (if fst p = fst t then (fst p, snd p \<and> snd t) # ps else p # add_placeholder t ps)"

definition Placeholders :: "string \<Rightarrow> (string \<times> bool) list option" where
  "Placeholders template = map_option (\<lambda>ps. foldl (\<lambda>acc t. add_placeholder t acc) [] (tokens_of ps)) (parseTemplate template)"

fun expand_parts :: "template_part list \<Rightarrow> (string \<Rightarrow> string option) \<Rightarrow> token_err + string" where
  "expand_parts [] vals = Inr []"
| "expand_parts (Text t # ps) vals = (case expand_parts ps vals of Inl e \<Rightarrow> Inl e | Inr s \<Rightarrow> Inr (t @ s))"
| "expand_parts (Token n opt # ps) vals =
    (case vals n of
       Some v \<Rightarrow>
         if v = [] then (if opt then expand_parts ps vals else Inl (TMissing n))
         else (case expand_parts ps vals of Inl e \<Rightarrow> Inl e | Inr s \<Rightarrow> Inr (v @ s))
     | None \<Rightarrow> if opt then expand_parts ps vals else Inl (TMissing n))"

definition ExpandTemplate :: "string \<Rightarrow> (string \<Rightarrow> string option) \<Rightarrow> token_err + string" where
  "ExpandTemplate template vals = (case parseTemplate template of
     None \<Rightarrow> Inl TInvalid
   | Some ps \<Rightarrow> expand_parts ps vals)"

section \<open>Laws\<close>

definition value_or_empty :: "(string \<Rightarrow> string option) \<Rightarrow> string \<Rightarrow> string" where
  "value_or_empty vals n = (case vals n of None \<Rightarrow> [] | Some v \<Rightarrow> v)"

fun part_text :: "(string \<Rightarrow> string option) \<Rightarrow> template_part \<Rightarrow> string" where
  "part_text vals (Text t) = t"
| "part_text vals (Token n opt) = value_or_empty vals n"

text \<open>Expansion fails on the first required token without a value, and otherwise fills in the values.\<close>

lemma expand_parts_eq:
  "expand_parts ps vals =
    (case List.find (\<lambda>t. \<not> snd t \<and> value_or_empty vals (fst t) = []) (tokens_of ps) of
       Some t \<Rightarrow> Inl (TMissing (fst t))
     | None \<Rightarrow> Inr (concat (map (part_text vals) ps)))"
proof (induction ps vals rule: expand_parts.induct)
  case (3 n opt ps vals)
  then show ?case
    by (cases "vals n"; cases opt) (simp_all add: value_or_empty_def split: option.split)
qed (simp_all split: option.split)

lemma find_None_all: "List.find P xs = None \<longleftrightarrow> (\<forall>x \<in> set xs. \<not> P x)"
  by (induction xs) auto

lemma ValidateTemplate_ok:
  "ValidateTemplate t allowed = None \<longleftrightarrow>
    (\<exists>ps. parseTemplate t = Some ps \<and> (\<forall>(n, opt) \<in> set (tokens_of ps). allowed n))"
proof (cases "parseTemplate t")
  case (Some ps)
  have "(\<forall>n \<in> fst ` set (filter (\<lambda>t. \<not> snd t) (tokens_of ps)) \<union> fst ` set (filter snd (tokens_of ps)). allowed n) \<longleftrightarrow>
    (\<forall>(n, opt) \<in> set (tokens_of ps). allowed n)"
    by (auto simp: case_prod_unfold)
  with Some show ?thesis
    by (simp add: ValidateTemplate_def ExtractTokens_def setToSortedSlice_def find_None_all ball_Un)
qed (simp add: ValidateTemplate_def ExtractTokens_def)

lemma add_placeholder_fst:
  "map fst (add_placeholder t ps) = map fst ps @ (if fst t \<in> fst ` set ps then [] else [fst t])"
  by (induction ps) auto

lemma add_placeholder_map_of:
  "map_of (add_placeholder t ps) = (map_of ps)(fst t \<mapsto> (case map_of ps (fst t) of None \<Rightarrow> snd t | Some b \<Rightarrow> b \<and> snd t))"
  by (induction ps) (auto simp: fun_eq_iff split: option.splits)

text \<open>Writing parts as a template, and the lists of parts that are read back.\<close>

fun unparse :: "template_part list \<Rightarrow> string" where
  "unparse [] = []"
| "unparse (Text t # ps) = t @ unparse ps"
| "unparse (Token n opt # ps) = ''{{'' @ n @ (if opt then ''?'' else []) @ ''}}'' @ unparse ps"

fun parts_ok :: "template_part list \<Rightarrow> bool" where
  "parts_ok [] = True"
| "parts_ok (Text t # ps) = (t \<noteq> [] \<and> CHR ''{'' \<notin> set t \<and> (case ps of Text _ # _ \<Rightarrow> False | _ \<Rightarrow> True) \<and> parts_ok ps)"
| "parts_ok (Token n opt # ps) = (token_name n \<and> parts_ok ps)"

lemma index_of_append:
  assumes "pat \<noteq> []" "hd pat \<notin> set t" "prefix pat s"
  shows "index_of pat (t @ s) = Some (length t)"
  using assms
proof (induction t)
  case Nil
  then show ?case by (cases s) auto
next
  case (Cons c t)
  then show ?case by (cases pat) auto
qed

lemma index_of_absent: "hd pat \<notin> set s \<Longrightarrow> pat \<noteq> [] \<Longrightarrow> index_of pat s = None"
  by (induction s) (auto simp: prefix_Cons)

lemma token_char_solid: "token_char c \<Longrightarrow> solid c"
  by (auto simp: token_char_def solid_def Let_def)

lemma token_char_marks [simp]:
  "\<not> token_char CHR ''{''" "\<not> token_char CHR ''}''" "\<not> token_char CHR ''?''"
  by (simp_all add: token_char_def)

lemma token_name_marks:
  assumes "token_name n"
  shows "CHR ''{'' \<notin> set n" "CHR ''}'' \<notin> set n" "CHR ''?'' \<notin> set n"
  using assms by (auto simp: token_name_def list_all_iff)

definition token_body :: "string \<Rightarrow> bool \<Rightarrow> string" where
  "token_body n opt = n @ (if opt then ''?'' else [])"

lemma token_body_marks:
  "token_name n \<Longrightarrow> CHR ''{'' \<notin> set (token_body n opt) \<and> CHR ''}'' \<notin> set (token_body n opt)"
  using token_name_marks by (auto simp: token_body_def)

lemma parseTokenBody_token_body:
  assumes "token_name n"
  shows "parseTokenBody (token_body n opt) = Some (n, opt)"
proof -
  have n: "n \<noteq> []" "solid (hd n)" "solid (last n)" "last n \<noteq> CHR ''?''"
    using assms last_in_set [of n] hd_in_set [of n] token_char_marks(3)
    unfolding token_name_def list_all_iff by (metis token_char_solid)+
  have "solid CHR ''?''" by (simp add: solid_def)
  with n have "trim_space (token_body n opt) = token_body n opt"
    by (intro trim_space_solid) (auto simp: token_body_def)
  with n assms show ?thesis by (auto simp: parseTokenBody_def token_body_def Let_def)
qed

lemma parse_from_token:
  assumes n: "token_name n" and t: "CHR ''{'' \<notin> set t"
  shows "parse_from (t @ ''{{'' @ token_body n opt @ ''}}'' @ s) =
    map_option (\<lambda>ps. (if t = [] then [] else [Text t]) @ Token n opt # ps) (parse_from s)"
proof -
  let ?b = "token_body n opt"
  have "index_of open_mark (t @ ''{{'' @ ?b @ ''}}'' @ s) = Some (length t)"
    using t by (intro index_of_append) (auto simp: open_mark_def)
  moreover have "index_of close_mark (?b @ ''}}'' @ s) = Some (length ?b)"
    using token_body_marks [OF n] by (intro index_of_append) (auto simp: close_mark_def)
  moreover have "\<not> contains_str ?b open_mark" "\<not> contains_str ?b close_mark"
    using token_body_marks [OF n]
    by (simp_all add: contains_str_def open_mark_def close_mark_def index_of_absent)
  ultimately show ?thesis
    using parseTokenBody_token_body [OF n, of opt]
    by (subst parse_from.simps) (simp add: Let_def drop_Cons')
qed

lemma parse_from_text:
  "t \<noteq> [] \<Longrightarrow> CHR ''{'' \<notin> set t \<Longrightarrow> parse_from t = Some [Text t]"
  by (subst parse_from.simps) (simp add: open_mark_def index_of_absent)

lemma parse_from_Nil [simp]: "parse_from [] = Some []"
  by (simp add: parse_from.simps)

lemma unparse_Token: "unparse (Token n opt # ps) = [] @ ''{{'' @ token_body n opt @ ''}}'' @ unparse ps"
  by (simp add: token_body_def)

lemma parse_unparse: "parts_ok ps \<Longrightarrow> parse_from (unparse ps) = Some ps"
proof (induction ps rule: parts_ok.induct)
  case (2 t ps)
  show ?case
  proof (cases ps)
    case Nil
    with 2 show ?thesis by (simp add: parse_from_text)
  next
    case (Cons p ps')
    then obtain n opt where p: "ps = Token n opt # ps'" "token_name n"
      using "2.prems" by (cases p) auto
    have "parse_from (unparse ps') = Some ps'"
      using "2.IH" "2.prems" parse_from_token [of n "[]" opt "unparse ps'"] p
      unfolding p(1) unparse_Token by (cases "parse_from (unparse ps')") (auto split: if_splits)
    with "2.prems" p show ?thesis
      using parse_from_token [of n t opt "unparse ps'"] by (simp add: token_body_def)
  qed
next
  case (3 n opt ps)
  then show ?case unfolding unparse_Token by (subst parse_from_token) auto
qed simp

text \<open>
  A template written from its parts is parsed back into exactly those parts. Expanding it fails on the first
  required token that has no value or an empty one, with its name, and otherwise gives the texts with the values
  in place of the tokens, nothing for an optional token without a value.
\<close>

theorem template_roundtrip_and_expansion:
  assumes "parts_ok ps"
  shows "parseTemplate (unparse ps) = Some ps \<and>
    ExpandTemplate (unparse ps) vals =
      (case List.find (\<lambda>t. \<not> snd t \<and> value_or_empty vals (fst t) = []) (tokens_of ps) of
         Some t \<Rightarrow> Inl (TMissing (fst t))
       | None \<Rightarrow> Inr (concat (map (part_text vals) ps)))"
  using parse_unparse [OF assms] by (simp_all add: ExpandTemplate_def parseTemplate_def expand_parts_eq)

theorem template_roundtrip_and_expansion_witness:
  "parseTemplate ''run {{cmd}} {{flag?}}'' = Some [Text ''run '', Token ''cmd'' False, Text '' '', Token ''flag'' True] \<and>
   ExpandTemplate ''run {{cmd}} {{flag?}}'' [''cmd'' \<mapsto> ''ls''] = Inr ''run ls ''"
  using template_roundtrip_and_expansion
    [of "[Text ''run '', Token ''cmd'' False, Text '' '', Token ''flag'' True]" "[''cmd'' \<mapsto> ''ls'']"]
  by (simp add: token_name_def token_char_def value_or_empty_def)

end
