(* ===== verification/Spec2Isabelle.thy ===== *)
theory Spec2Isabelle
  imports HttpServer McpSession EvidenceDefaults CommandCorrect Tokens
begin

text \<open>
  \<^bold>\<open>Evidra-Lock.\<close> Evidra-Lock decides whether an automated actor (an AI agent, a CI job, a person) may run an
  infrastructure operation, and keeps tamper-evident evidence of every decision. A request is a
  \<^verbatim>\<open>ToolInvocation\<close>; it is checked for structure, turned into a scenario, judged action by action by an OPA policy, and
  the outcome is appended to a hash-linked evidence store on disk. Three front ends share this core: the command
  line, an MCP server for agents (with a cache that stops an agent from repeating a denied request) and an HTTP
  API with tenants, keys, a rate limit and signed answers.

  \<^bold>\<open>How the program is modelled.\<close> Go strings are byte lists (\<^typ>\<open>string\<close>); dynamic values and JSON documents are
  datatypes with the parser and printer of \<^verbatim>\<open>encoding/json\<close>; structs are records; errors are datatypes returned in
  a sum; files are a map from cleaned paths to nodes together with a predicate for the operations the system refuses, so
  that I/O errors are branches of the model; the environment (variables, clock, lock attempts) is a record. Integers
  are unbounded where the code cannot reach their limits and 64-bit with the wrap-around written out where it can
  (\<open>wrap64\<close>, lock timeouts) or 8-bit words (base 62, UUIDs). Loops are structural recursion or carry a termination
  proof; the only fuel is that of the JSON parser, the length of its text plus one, and parsing a printed document
  is proved to return it.

  \<^bold>\<open>Outside code\<close> is an argument: SHA-256 (\<open>sha\<close>, a function on byte lists; where a statement needs it to be free of
  collisions that is a hypothesis on the texts involved), the floating-point part of a fractional duration, the bytes of
  a compressed archive, the OPA compiler and query (\<open>opa_prepare\<close>, \<open>opa_query\<close>),
  the YAML decoder, Ed25519 with the decoding of key files and ULID, the HTTP transport, the SQL database behind the two key tables.

  \<^bold>\<open>Theories.\<close>
  \<^item> Foundations: \<open>Prelude\<close> (strings, decimal numbers, trimming, UTF-8, sorting), \<open>Json\<close>, \<open>Gval\<close>, \<open>Structs\<close> (JSON of
    dynamic values and structs, round trips), \<open>GoTime\<close>, \<open>GoInt\<close>, \<open>FileSystem\<close>.
  \<^item> Requests: \<open>Invocation\<close> (\<^verbatim>\<open>pkg/invocation\<close>).
  \<^item> Evidence (\<^verbatim>\<open>pkg/evidence\<close>, \<^verbatim>\<open>pkg/evlock\<close>): \<open>EvidenceTypes\<close> (records, \<^verbatim>\<open>ComputeHash\<close>), \<open>EvidenceIO\<close> (effects, line
    files), \<open>EvidenceLock\<close>, \<open>EvidenceManifest\<close>, \<open>EvidenceChain\<close> (the check of one record, linked lists),
    \<open>EvidenceSegment\<close> with \<open>EvidenceSegmentLaws\<close> (segmented stores and their invariant), \<open>EvidenceLegacy\<close>
    (single files), \<open>EvidenceStore\<close> (public operations), \<open>EvidenceLog\<close> (the locale \<open>evidence_log\<close>, what any evidence store
    promises, interpreted on both kinds of store), \<open>EvidenceForwarder\<close> (cursors), \<open>EvidenceCorrect\<close> (properties),
    \<open>SharedStore\<close> (several processes on one store: runs of interleaved operations, the locale \<open>shared_log\<close>, interpreted on both
    kinds of store), \<open>EvidenceDefaults\<close> (the entry points that find the store themselves, error texts, the build without locks).
  \<^item> Evaluation: \<open>Config\<close> (\<^verbatim>\<open>pkg/config\<close>, \<^verbatim>\<open>pkg/outputlimit\<close>), \<open>Policy\<close> (\<^verbatim>\<open>pkg/policy\<close>, \<^verbatim>\<open>pkg/runtime\<close>,
    \<^verbatim>\<open>internal/engine\<close>), \<open>PolicySources\<close> (\<^verbatim>\<open>pkg/policysource\<close>, \<^verbatim>\<open>pkg/bundlesource\<close>; the locale \<open>module_source\<close>, interpreted on
    both), \<open>Scenario\<close> (\<^verbatim>\<open>pkg/scenario\<close>), \<open>Validate\<close> (\<^verbatim>\<open>pkg/validate\<close>), \<open>Tokens\<close> (\<^verbatim>\<open>pkg/tokens\<close>).
  \<^item> MCP: \<open>Intent\<close> and \<open>DenyCache\<close> (\<^verbatim>\<open>pkg/mcpserver/intent.go\<close>, \<^verbatim>\<open>deny_cache.go\<close>), \<open>Client\<close> (\<^verbatim>\<open>pkg/client\<close>,
    \<^verbatim>\<open>pkg/mode\<close>), \<open>McpServer\<close> (\<^verbatim>\<open>pkg/mcpserver/server.go\<close>), \<open>Guidance\<close> (\<^verbatim>\<open>guidance_content.go\<close>, \<^verbatim>\<open>schema_embed.go\<close>,
    \<^verbatim>\<open>NewServer\<close>), \<open>ServiceCorrect\<close> (properties of evaluation and service), \<open>McpSession\<close> (sessions of tool calls
    and the evidence they leave).
  \<^item> API: \<open>Signing\<close> (\<^verbatim>\<open>internal/evidence\<close>), \<open>Keys\<close> (\<^verbatim>\<open>internal/store\<close>, \<^verbatim>\<open>internal/db\<close>), \<open>Api\<close> (\<^verbatim>\<open>internal/auth\<close>,
    \<^verbatim>\<open>internal/api\<close>), \<open>ApiCorrect\<close> (properties), \<open>ApiRuns\<close> (the server over its lifetime: runs of requests), \<open>HttpServer\<close> (request
    context, response writer, log and recovery under the router, the published key).
  \<^item> Command line: \<open>GoFlag\<close> and \<open>GoClock\<close> (the flag parser, durations, arithmetic on instants), \<open>EvidenceCmd\<close>
    (\<^verbatim>\<open>cmd/evidra/evidence_cmd.go\<close>), \<open>Cli\<close> (\<^verbatim>\<open>main.go\<close>, \<^verbatim>\<open>policy_sim_cmd.go\<close>), \<open>CommandCorrect\<close> (the locale
    \<open>summarised_store\<close>, which extends \<open>evidence_log\<close> by what the reports rely on, and the properties).
  \<^item> Servers: \<open>EmbeddedBundle\<close> (the compiled-in policy bundle: digest, cache and extraction in \<^verbatim>\<open>cmd/evidra-mcp/main.go\<close>,
    temporary copy in \<^verbatim>\<open>cmd/evidra-api/main.go\<close>), \<open>EmbeddedCorrect\<close> (the locale \<open>bundle_provider\<close>, what an extraction promises,
    interpreted on both), \<open>Startup\<close> (the rest of the two commands, \<^verbatim>\<open>internal/api/ui_handler.go\<close>), \<open>StartupCorrect\<close> (properties).

  \<^bold>\<open>What is shown.\<close>
  \<^item> Evidence: both kinds of store refine an append-only list of linked records; what is appended is read back, found
    by its id and validates; accepted lists with the same last hash agree on every hashed field; the lock loop ends
    and reports busy only when the lock was contended past the deadline; records, manifests and forwarder state
    survive writing and reading.
  \<^item> Sharing: however the operations of several processes interleave on one store, and whichever of them fail to get the lock,
    one list of linked records explains every answer, and it is what is read at the end.
  \<^item> Evaluation: the engine allows only what the policy document allows; a scenario passes iff every action is well
    formed and allowed; every returned verdict has its record in the store; the modules an evaluator is compiled from are
    those its source loaded, and a bundle's modules are exactly its policy files.
  \<^item> Service: denied intents are stopped until their time to live is over, by a cache that refines a map; the
    service allows only after an API answer or a local evaluation; every verdict reached in a session can be looked up later.
  \<^item> API: answers are signed over an injective payload, protected endpoints refuse requests without credentials and
    change nothing, keys are created all or nothing, the rate limit holds in every hour; over any sequence of requests a
    server accepts exactly the keys it has handed out; its answers verify under the key it publishes; the client gets what the
    router computes and the request log has the status that was sent.
  \<^item> Commands: the validate command fails closed and exits with 0 only after a passing evaluation; online evaluation
    combines the answers of the API without losing one; verify and violations report exactly what is in the store, and
    an acknowledged cursor is the one that is shown.
  \<^item> Servers: a bundle opened from the cache or from the temporary copy is the compiled-in one, so an unconfigured MCP
    server and every API server evaluate the policy they were built with; a failed extraction is never taken for a
    complete one; a started MCP server has a policy whenever it may need one; a started API server without a database
    refuses short credentials and leaves no files behind; the guidance texts come from the first complete directory in the
    search order.
  \<^item> Deviations are stated as theorems too: fields outside the hash, a policy change that invalidates a store, a
    multi-line reason that makes two payloads collide, a path that is lost in the log, a client that does not find the verdict of its own server,
    policy references and bundle digests that collide, a lone policy flag that is ignored, a lock timeout that overflows.

  \<^bold>\<open>Not modelled.\<close> The MCP library that calls the registered handlers, the HTTP listener and signals (how a server ends
  is an argument of \<open>api_run\<close> and \<open>mcp_exit\<close>), what goes to standard error and to the log (other than the request log of the API), the standard file server behind
  the user interface, connection pooling, the compiled-in data itself, which is a file system given as an argument:
  these are libraries, input and output or data without logic of the program. Removing a directory tree succeeds as a whole or
  is refused as a whole. Concurrency appears where the code synchronises: the file lock is modelled with its retry loop and
  the mutexes of the deny cache and of the rate limiter make their operations atomic steps. A run of the API server takes its
  requests one after the other; the update of a key's last use, which the code starts in the background, is part of its request. Timestamps are in UTC, JSON
  numbers are integers, and the file system has no symbolic links. The mux's own 404 and 405 answers and its
  redirects to cleaned paths are left out of the router.
\<close>

end
